theory Spec2Isabelle
  imports Main "HOL-Library.Word" "HOL-Library.Signed_Division" "HOL-Library.Tree"
begin

unbundle bit_operations_syntax

section \<open>The UBI attaching sub-system (drivers/mtd/ubi/attach.c)\<close>

text \<open>
  A shallow embedding of the scanning code of \<^verbatim>\<open>attach.c\<close>.  C \<^verbatim>\<open>int\<close> is a
  32-bit word read in two's complement (\<open>sint\<close>, \<open><s\<close>, \<open>\<le>s\<close>), \<^verbatim>\<open>long long\<close> and
  \<^verbatim>\<open>unsigned long long\<close> are 64-bit words.  Header fields are kept decoded, so
  \<^verbatim>\<open>be32_to_cpu\<close> and \<^verbatim>\<open>be64_to_cpu\<close> are the identity on them.

  The embedding is of the build without \<^verbatim>\<open>CONFIG_MTK_SLC_BUFFER_SUPPORT\<close> and without
  \<^verbatim>\<open>CONFIG_MTD_UBI_FASTMAP\<close>; \<^verbatim>\<open>CONFIG_MTD_UBI_LOWPAGE_BACKUP\<close> is a switch of the
  environment, since it decides whether the \<^verbatim>\<open>waiting\<close> list exists.
\<close>

type_synonym s32 = "32 word"
type_synonym u32 = "32 word"
type_synonym s64 = "64 word"
type_synonym u64 = "64 word"
type_synonym u8 = "8 word"

subsection \<open>Error codes and results of the I/O layer\<close>

text \<open>
  The negative error codes the code returns.  \<open>EOTHER\<close> stands for any further negative
  code handed up by the I/O layer, \<open>BUG\<close> for the kernel's \<^verbatim>\<open>BUG()\<close>.
\<close>

datatype error = EINVAL | ENOMEM | EIO | EBADMSG | ENOSPC | EOTHER nat | BUG

text \<open>
  Modelled from the spec: the result codes of \<^verbatim>\<open>ubi_io_read_ec_hdr\<close> and
  \<^verbatim>\<open>ubi_io_read_vid_hdr\<close> (declared in ubi.h, which is not among the sources):
  OK, BITFLIPS, FF, FF_BITFLIPS, BAD_HDR, BAD_HDR_EBADMSG or a negative error.
  \<open>IO_UNKNOWN\<close> is any other positive code, which the \<^verbatim>\<open>default:\<close> branches catch.
\<close>

datatype io_code =
    IO_OK
  | UBI_IO_FF
  | UBI_IO_FF_BITFLIPS
  | UBI_IO_BAD_HDR
  | UBI_IO_BAD_HDR_EBADMSG
  | UBI_IO_BITFLIPS
  | IO_UNKNOWN nat
  | IO_ERR error

text \<open>
  Modelled from the spec: the result of \<^verbatim>\<open>ubi_io_read\<close> and \<^verbatim>\<open>ubi_io_read_data\<close>
  (io.c is not among the sources): zero, \<^verbatim>\<open>UBI_IO_BITFLIPS\<close>, or a negative error,
  of which \<^verbatim>\<open>-EBADMSG\<close> is the ECC error that \<^verbatim>\<open>mtd_is_eccerr\<close> recognises.
\<close>

datatype rd_code = RD_OK | RD_BITFLIPS | RD_ERR error

definition mtd_is_eccerr :: "rd_code \<Rightarrow> bool" where
  "mtd_is_eccerr err = (err = RD_ERR EBADMSG)"

text \<open>The operations on the flash, recorded in the order they are issued.\<close>

datatype io_op =
    OP_IS_BAD s32
  | OP_READ_EC_HDR s32
  | OP_READ_VID_HDR s32
  | OP_READ_DATA s32 s32 s32
  | OP_READ s32 s32 s32

subsection \<open>On-flash headers\<close>

text \<open>
  Modelled from the spec: the fields of the EC and VID headers that attach.c reads
  (struct ubi_ec_hdr and struct ubi_vid_hdr of ubi-media.h, not among the sources).
\<close>

record ubi_ec_hdr =
  eh_version :: u8
  eh_ec :: u64
  eh_image_seq :: u32

record ubi_vid_hdr =
  vh_vol_type :: u8
  vh_copy_flag :: u8
  vh_compat :: u8
  vh_vol_id :: u32
  vh_lnum :: u32
  vh_data_size :: u32
  vh_used_ebs :: u32
  vh_data_pad :: u32
  vh_data_crc :: u32
  vh_sqnum :: u64

text \<open>
  Modelled from the spec: the constants of ubi-media.h and ubi.h that the spec gives a
  value for (section 6.1 for the type and compatibility codes, section 3 for the unknown
  sentinel and the largest erase counter, scenario S2 for the layout volume).
\<close>

definition UBI_UNKNOWN :: s32 where "UBI_UNKNOWN = - 1"
definition UBI_MAX_ERASECOUNTER :: s64 where "UBI_MAX_ERASECOUNTER = 0x7FFFFFFF"
definition UBI_CRC32_INIT :: u32 where "UBI_CRC32_INIT = 0xFFFFFFFF"
definition UBI_LAYOUT_VOLUME_ID :: s32 where "UBI_LAYOUT_VOLUME_ID = 0x7FFFEFFF"
definition UBI_VID_DYNAMIC :: u8 where "UBI_VID_DYNAMIC = 1"
definition UBI_VID_STATIC :: u8 where "UBI_VID_STATIC = 2"
definition UBI_COMPAT_DELETE :: u8 where "UBI_COMPAT_DELETE = 1"
definition UBI_COMPAT_RO :: u8 where "UBI_COMPAT_RO = 2"
definition UBI_COMPAT_PRESERVE :: u8 where "UBI_COMPAT_PRESERVE = 4"
definition UBI_COMPAT_REJECT :: u8 where "UBI_COMPAT_REJECT = 5"

datatype vol_type = UBI_DYNAMIC_VOLUME | UBI_STATIC_VOLUME

subsection \<open>Attaching information\<close>

text \<open>
  Modelled from the spec: struct ubi_ainf_peb, struct ubi_ainf_volume and
  struct ubi_attach_info of ubi.h (not among the sources), with the fields of section 3.
  \<open>scrub\<close> and \<open>copy_flag\<close> are one-bit fields.  The fields of the two objects carry
  the prefixes \<open>aeb_\<close> and \<open>av_\<close>, which leaves the names of the source's parameters
  and local variables free.  An object sits on one list or in one
  tree, so lists and trees hold the objects themselves: \<^verbatim>\<open>list_add\<close> is \<open>#\<close>,
  \<^verbatim>\<open>list_add_tail\<close> appends, and an RB-tree is a binary tree whose in-order traversal
  is what \<^verbatim>\<open>rb_first\<close> and \<^verbatim>\<open>rb_next\<close> walk.
\<close>

record ubi_ainf_peb =
  aeb_ec :: s32
  aeb_pnum :: s32
  aeb_vol_id :: s32
  aeb_lnum :: s32
  aeb_scrub :: bool
  aeb_copy_flag :: bool
  aeb_sqnum :: u64

record ubi_ainf_volume =
  av_vol_id :: s32
  av_highest_lnum :: s32
  av_leb_count :: s32
  av_vol_type :: vol_type
  av_used_ebs :: s32
  av_last_data_size :: s32
  av_data_pad :: s32
  av_compat :: s32
  av_root :: "ubi_ainf_peb tree"

record ubi_attach_info =
  volumes :: "ubi_ainf_volume tree"
  corr :: "ubi_ainf_peb list"
  free :: "ubi_ainf_peb list"
  erase :: "ubi_ainf_peb list"
  alien :: "ubi_ainf_peb list"
  waiting :: "ubi_ainf_peb list"
  corr_peb_count :: s32
  empty_peb_count :: s32
  alien_peb_count :: s32
  bad_peb_count :: s32
  maybe_bad_peb_count :: s32
  vols_found :: s32
  highest_vol_id :: s32
  is_empty :: s32
  min_ec :: s32
  max_ec :: s32
  max_sqnum :: u64
  mean_ec :: s32
  ec_sum :: u64
  ec_count :: s32

text \<open>The fields of struct ubi_device that the scanning code reads or writes.\<close>

record ubi_device =
  peb_count :: s32
  image_seq :: s32
  ro_mode :: s32
  leb_size :: s32
  leb_start :: s32

text \<open>
  The state the scanning code works on: the device, the attaching information, the
  number of allocations requested so far and the flash operations issued so far.
\<close>

record state =
  ubi :: ubi_device
  ai :: ubi_attach_info
  allocs :: nat
  io_log :: "io_op list"

text \<open>
  What attach.c takes from outside.  The flash is read through the I/O layer, whose
  answer may depend on everything done before (bit-flips come and go), so each read gets
  the operations issued so far.  The allocators may fail, and the memory they return is
  not initialised (\<^verbatim>\<open>kmalloc\<close>, \<^verbatim>\<open>kmem_cache_alloc\<close>): the \<open>n\<close>-th request returns
  an object with arbitrary fields or nothing.  \<^verbatim>\<open>rb_insert_color\<close> of lib/rbtree.c
  recolours and rotates after a node has been linked; \<^verbatim>\<open>crc32\<close> is lib/crc32.c.
\<close>

record env =
  UBI_MAX_VOLUMES :: s32
  UBI_VERSION :: u8
  CONFIG_MTD_UBI_LOWPAGE_BACKUP :: bool
  ubi_dbg_chk_gen :: bool
  ubi_io_is_bad :: "io_op list \<Rightarrow> s32 \<Rightarrow> error + bool"
  ubi_io_read_ec_hdr :: "io_op list \<Rightarrow> s32 \<Rightarrow> io_code \<times> ubi_ec_hdr"
  ubi_io_read_vid_hdr :: "io_op list \<Rightarrow> s32 \<Rightarrow> io_code \<times> ubi_vid_hdr"
  ubi_io_read_data :: "io_op list \<Rightarrow> s32 \<Rightarrow> s32 \<Rightarrow> s32 \<Rightarrow> rd_code \<times> u8 list"
  ubi_io_read :: "io_op list \<Rightarrow> s32 \<Rightarrow> s32 \<Rightarrow> s32 \<Rightarrow> rd_code \<times> u8 list"
  crc32 :: "u32 \<Rightarrow> u8 list \<Rightarrow> u32"
  kmem_cache_alloc :: "nat \<Rightarrow> ubi_ainf_peb option"
  kmalloc_av :: "nat \<Rightarrow> ubi_ainf_volume option"
  ubi_zalloc_vid_hdr :: "nat \<Rightarrow> bool"
  kzalloc :: "nat \<Rightarrow> bool"
  rb_insert_color_av :: "ubi_ainf_volume \<Rightarrow> ubi_ainf_volume tree \<Rightarrow> ubi_ainf_volume tree"
  rb_insert_color_aeb :: "ubi_ainf_peb \<Rightarrow> ubi_ainf_peb tree \<Rightarrow> ubi_ainf_peb tree"
  get_random_bytes :: "io_op list \<Rightarrow> s32"
  UBI_INTERNAL_VOL_START :: s32

subsection \<open>Lists of physical eraseblocks\<close>

text \<open>The list heads of the attaching information that a \<^verbatim>\<open>struct list_head *\<close> can name.\<close>

datatype list_id = LIST_FREE | LIST_ERASE | LIST_ALIEN | LIST_WAITING | LIST_CORR

definition list_add :: "'a \<Rightarrow> 'a list \<Rightarrow> 'a list" where
  "list_add new head = new # head"

definition list_add_tail :: "'a \<Rightarrow> 'a list \<Rightarrow> 'a list" where
  "list_add_tail new head = head @ [new]"

definition list_of :: "list_id \<Rightarrow> ubi_attach_info \<Rightarrow> ubi_ainf_peb list" where
  "list_of l a = (case l of LIST_FREE \<Rightarrow> free a | LIST_ERASE \<Rightarrow> erase a
     | LIST_ALIEN \<Rightarrow> alien a | LIST_WAITING \<Rightarrow> waiting a | LIST_CORR \<Rightarrow> corr a)"

definition list_set :: "list_id \<Rightarrow> ubi_ainf_peb list \<Rightarrow> ubi_attach_info \<Rightarrow> ubi_attach_info" where
  "list_set l xs a = (case l of LIST_FREE \<Rightarrow> a\<lparr>free := xs\<rparr> | LIST_ERASE \<Rightarrow> a\<lparr>erase := xs\<rparr>
     | LIST_ALIEN \<Rightarrow> a\<lparr>alien := xs\<rparr> | LIST_WAITING \<Rightarrow> a\<lparr>waiting := xs\<rparr>
     | LIST_CORR \<Rightarrow> a\<lparr>corr := xs\<rparr>)"

text \<open>
  \<^verbatim>\<open>add_to_list\<close>: the alien counter goes up before the allocation; the waiting list
  is known only with \<^verbatim>\<open>CONFIG_MTD_UBI_LOWPAGE_BACKUP\<close>; any other list is a \<^verbatim>\<open>BUG()\<close>.
  \<open>scrub\<close>, \<open>copy_flag\<close> and \<open>sqnum\<close> of the new object stay as allocated.
\<close>

definition add_to_list ::
  "env \<Rightarrow> state \<Rightarrow> s32 \<Rightarrow> s32 \<Rightarrow> s32 \<Rightarrow> s32 \<Rightarrow> bool \<Rightarrow> list_id \<Rightarrow> error + state" where
  "add_to_list env s pnum vol_id lnum ec to_head list =
     (case (if list = LIST_FREE then Inr s
            else if list = LIST_ERASE then Inr s
            else if list = LIST_ALIEN
              then Inr (s\<lparr>ai := (ai s)\<lparr>alien_peb_count := alien_peb_count (ai s) + 1\<rparr>\<rparr>)
            else if CONFIG_MTD_UBI_LOWPAGE_BACKUP env \<and> list = LIST_WAITING then Inr s
            else Inl BUG) of
        Inl err \<Rightarrow> Inl err
      | Inr s1 \<Rightarrow>
         (case kmem_cache_alloc env (allocs s1) of
            None \<Rightarrow> Inl ENOMEM
          | Some mem \<Rightarrow>
              let aeb = mem\<lparr>aeb_pnum := pnum, aeb_vol_id := vol_id, aeb_lnum := lnum, aeb_ec := ec\<rparr>;
                  xs = list_of list (ai s1)
              in Inr (s1\<lparr>allocs := Suc (allocs s1),
                        ai := list_set list
                                (if to_head then list_add aeb xs else list_add_tail aeb xs) (ai s1)\<rparr>)))"

text \<open>\<^verbatim>\<open>add_corrupted\<close>: \<open>vol_id\<close> and \<open>lnum\<close> of the new object stay as allocated too.\<close>

definition add_corrupted :: "env \<Rightarrow> state \<Rightarrow> s32 \<Rightarrow> s32 \<Rightarrow> error + state" where
  "add_corrupted env s pnum ec =
     (case kmem_cache_alloc env (allocs s) of
        None \<Rightarrow> Inl ENOMEM
      | Some mem \<Rightarrow>
          let aeb = mem\<lparr>aeb_pnum := pnum, aeb_ec := ec\<rparr>
          in Inr (s\<lparr>allocs := Suc (allocs s),
                    ai := (ai s)\<lparr>corr_peb_count := corr_peb_count (ai s) + 1,
                                corr := list_add aeb (corr (ai s))\<rparr>\<rparr>))"

subsection \<open>Volumes\<close>

text \<open>\<^verbatim>\<open>validate_vid_hdr\<close>: \<open>None\<close> is the return value zero.\<close>

definition validate_vid_hdr :: "ubi_vid_hdr \<Rightarrow> ubi_ainf_volume \<Rightarrow> s32 \<Rightarrow> error option" where
  "validate_vid_hdr vid_hdr av pnum =
     (let vol_type = vh_vol_type vid_hdr;
          vol_id = vh_vol_id vid_hdr;
          used_ebs = vh_used_ebs vid_hdr;
          data_pad = vh_data_pad vid_hdr
      in if av_leb_count av \<noteq> 0 then
           if vol_id \<noteq> av_vol_id av then Some EINVAL
           else if vol_type \<noteq> (if av_vol_type av = UBI_STATIC_VOLUME
                                  then UBI_VID_STATIC else UBI_VID_DYNAMIC) then Some EINVAL
           else if used_ebs \<noteq> av_used_ebs av then Some EINVAL
           else if data_pad \<noteq> av_data_pad av then Some EINVAL
           else None
         else None)"

text \<open>
  The walk of the volume tree that \<^verbatim>\<open>add_volume\<close> and \<^verbatim>\<open>ubi_find_av\<close> share: a
  greater volume ID goes to the left.  \<open>av_walk\<close> is the search, \<open>av_link\<close> is
  \<^verbatim>\<open>rb_link_node\<close> at the null link where the search of \<^verbatim>\<open>add_volume\<close> ended, and
  \<open>av_store\<close> writes through the pointer the search returned.
\<close>

fun av_walk :: "s32 \<Rightarrow> ubi_ainf_volume tree \<Rightarrow> ubi_ainf_volume option" where
  "av_walk vol_id Leaf = None"
| "av_walk vol_id (Node l av r) =
     (if vol_id = av_vol_id av then Some av
      else if av_vol_id av <s vol_id then av_walk vol_id l
      else av_walk vol_id r)"

fun av_link :: "ubi_ainf_volume \<Rightarrow> ubi_ainf_volume tree \<Rightarrow> ubi_ainf_volume tree" where
  "av_link new Leaf = Node Leaf new Leaf"
| "av_link new (Node l av r) =
     (if av_vol_id av <s av_vol_id new then Node (av_link new l) av r
      else Node l av (av_link new r))"

fun av_store :: "ubi_ainf_volume \<Rightarrow> ubi_ainf_volume tree \<Rightarrow> ubi_ainf_volume tree" where
  "av_store new Leaf = Leaf"
| "av_store new (Node l av r) =
     (if av_vol_id new = av_vol_id av then Node l new r
      else if av_vol_id av <s av_vol_id new then Node (av_store new l) av r
      else Node l av (av_store new r))"

definition add_volume ::
  "env \<Rightarrow> state \<Rightarrow> s32 \<Rightarrow> s32 \<Rightarrow> ubi_vid_hdr \<Rightarrow> error + (ubi_ainf_volume \<times> state)" where
  "add_volume env s vol_id pnum vid_hdr =
     (case av_walk vol_id (volumes (ai s)) of
        Some av \<Rightarrow> Inr (av, s)
      | None \<Rightarrow>
         (case kmalloc_av env (allocs s) of
            None \<Rightarrow> Inl ENOMEM
          | Some mem \<Rightarrow>
              let av = mem\<lparr>av_highest_lnum := 0, av_leb_count := 0, av_vol_id := vol_id,
                            av_root := Leaf,
                            av_used_ebs := vh_used_ebs vid_hdr,
                            av_data_pad := vh_data_pad vid_hdr,
                            av_compat := ucast (vh_compat vid_hdr),
                            av_vol_type := (if vh_vol_type vid_hdr = UBI_VID_DYNAMIC
                                            then UBI_DYNAMIC_VOLUME else UBI_STATIC_VOLUME)\<rparr>;
                  a = ai s;
                  a1 = (if highest_vol_id a <s vol_id then a\<lparr>highest_vol_id := vol_id\<rparr> else a);
                  a2 = a1\<lparr>volumes := rb_insert_color_av env av (av_link av (volumes a1))\<rparr>;
                  a3 = a2\<lparr>vols_found := vols_found a2 + 1\<rparr>
              in Inr (av, s\<lparr>allocs := Suc (allocs s), ai := a3\<rparr>)))"

definition ubi_find_av :: "ubi_attach_info \<Rightarrow> s32 \<Rightarrow> ubi_ainf_volume option" where
  "ubi_find_av a vol_id = av_walk vol_id (volumes a)"

subsection \<open>Which copy of a logical eraseblock is newer\<close>

text \<open>
  The value \<^verbatim>\<open>ubi_compare_lebs\<close> returns on success:
  \<^verbatim>\<open>second_is_newer | (bitflips << 1) | (corrupted << 2)\<close>.
\<close>

definition cmp_bits :: "bool \<Rightarrow> bool \<Rightarrow> bool \<Rightarrow> s32" where
  "cmp_bits second_is_newer bitflips corrupted =
     of_bool second_is_newer OR push_bit 1 (of_bool bitflips) OR push_bit 2 (of_bool corrupted)"

text \<open>
  The end of \<^verbatim>\<open>ubi_compare_lebs\<close>, from the comment "Read the data of the copy and
  check the CRC": \<open>pnum\<close> and \<open>vid_hdr\<close> are those of the copy with the higher
  sequence number.  The bytes the read leaves in \<^verbatim>\<open>ubi->peb_buf[0..len)\<close> are what
  \<open>ubi_io_read_data\<close> hands back.
\<close>

definition compare_lebs_crc ::
  "env \<Rightarrow> state \<Rightarrow> s32 \<Rightarrow> ubi_vid_hdr \<Rightarrow> bool \<Rightarrow> bool \<Rightarrow> error + (s32 \<times> state)" where
  "compare_lebs_crc env s pnum vid_hdr second_is_newer bitflips =
     (let len = vh_data_size vid_hdr;
          (err, peb_buf) = ubi_io_read_data env (io_log s) pnum 0 len;
          s1 = s\<lparr>io_log := io_log s @ [OP_READ_DATA pnum 0 len]\<rparr>
      in if err \<noteq> RD_OK \<and> err \<noteq> RD_BITFLIPS \<and> \<not> mtd_is_eccerr err
         then Inl (case err of RD_ERR x \<Rightarrow> x | _ \<Rightarrow> EIO)
         else
           let data_crc = vh_data_crc vid_hdr;
               crc = crc32 env UBI_CRC32_INIT peb_buf
           in if crc \<noteq> data_crc
              then Inr (cmp_bits (\<not> second_is_newer) False True, s1)
              else Inr (cmp_bits second_is_newer (bitflips \<or> err \<noteq> RD_OK) False, s1))"

definition ubi_compare_lebs ::
  "env \<Rightarrow> state \<Rightarrow> ubi_ainf_peb \<Rightarrow> s32 \<Rightarrow> ubi_vid_hdr \<Rightarrow> error + (s32 \<times> state)" where
  "ubi_compare_lebs env s aeb pnum vid_hdr =
     (let sqnum2 = vh_sqnum vid_hdr
      in if sqnum2 = aeb_sqnum aeb then Inl EINVAL
         else
           let second_is_newer = (aeb_sqnum aeb < sqnum2)
           in if second_is_newer then
                if vh_copy_flag vid_hdr = 0 then Inr (1, s)
                else compare_lebs_crc env s pnum vid_hdr second_is_newer False
              else
                if \<not> aeb_copy_flag aeb then Inr (cmp_bits False False False, s)
                else if \<not> ubi_zalloc_vid_hdr env (allocs s) then Inl ENOMEM
                else
                  let s1 = s\<lparr>allocs := Suc (allocs s)\<rparr>;
                      pnum1 = aeb_pnum aeb;
                      (err, vh) = ubi_io_read_vid_hdr env (io_log s1) pnum1;
                      s2 = s1\<lparr>io_log := io_log s1 @ [OP_READ_VID_HDR pnum1]\<rparr>
                  in if err = IO_OK
                       then compare_lebs_crc env s2 pnum1 vh second_is_newer False
                     else if err = UBI_IO_BITFLIPS
                       then compare_lebs_crc env s2 pnum1 vh second_is_newer True
                     else Inl (case err of IO_ERR x \<Rightarrow> x | _ \<Rightarrow> EIO))"

subsection \<open>Adding a used physical eraseblock\<close>

text \<open>
  The walk of a volume's tree of logical eraseblocks in \<^verbatim>\<open>ubi_add_to_av\<close>: a smaller
  LEB number goes to the left.  \<open>aeb_walk\<close> is the search, \<open>aeb_link\<close> is
  \<^verbatim>\<open>rb_link_node\<close> where the search ended, \<open>aeb_store\<close> rewrites the object found.
\<close>

fun aeb_walk :: "s32 \<Rightarrow> ubi_ainf_peb tree \<Rightarrow> ubi_ainf_peb option" where
  "aeb_walk lnum Leaf = None"
| "aeb_walk lnum (Node l aeb r) =
     (if lnum \<noteq> aeb_lnum aeb then
        if lnum <s aeb_lnum aeb then aeb_walk lnum l else aeb_walk lnum r
      else Some aeb)"

fun aeb_link :: "ubi_ainf_peb \<Rightarrow> ubi_ainf_peb tree \<Rightarrow> ubi_ainf_peb tree" where
  "aeb_link new Leaf = Node Leaf new Leaf"
| "aeb_link new (Node l aeb r) =
     (if aeb_lnum new <s aeb_lnum aeb then Node (aeb_link new l) aeb r
      else Node l aeb (aeb_link new r))"

fun aeb_store :: "s32 \<Rightarrow> ubi_ainf_peb \<Rightarrow> ubi_ainf_peb tree \<Rightarrow> ubi_ainf_peb tree" where
  "aeb_store lnum new Leaf = Leaf"
| "aeb_store lnum new (Node l aeb r) =
     (if lnum \<noteq> aeb_lnum aeb then
        if lnum <s aeb_lnum aeb then Node (aeb_store lnum new l) aeb r
        else Node l aeb (aeb_store lnum new r)
      else Node l new r)"

definition put_av :: "ubi_ainf_volume \<Rightarrow> state \<Rightarrow> state" where
  "put_av av s = s\<lparr>ai := (ai s)\<lparr>volumes := av_store av (volumes (ai s))\<rparr>\<rparr>"

definition ubi_add_to_av ::
  "env \<Rightarrow> state \<Rightarrow> s32 \<Rightarrow> s32 \<Rightarrow> ubi_vid_hdr \<Rightarrow> bool \<Rightarrow> error + state" where
  "ubi_add_to_av env s pnum ec vid_hdr bitflips =
     (let vol_id = vh_vol_id vid_hdr;
          lnum = vh_lnum vid_hdr;
          sqnum = vh_sqnum vid_hdr
      in case add_volume env s vol_id pnum vid_hdr of
           Inl err \<Rightarrow> Inl err
         | Inr (av, s1) \<Rightarrow>
           (let s2 = (if max_sqnum (ai s1) < sqnum
                      then s1\<lparr>ai := (ai s1)\<lparr>max_sqnum := sqnum\<rparr>\<rparr> else s1)
            in case aeb_walk lnum (av_root av) of
                 Some aeb \<Rightarrow>
                   if aeb_sqnum aeb = sqnum \<and> sqnum \<noteq> 0 then Inl EINVAL
                   else
                    (case ubi_compare_lebs env s2 aeb pnum vid_hdr of
                       Inl err \<Rightarrow> Inl err
                     | Inr (cmp_res, s3) \<Rightarrow>
                        if (cmp_res AND 1) \<noteq> 0 then
                          (case validate_vid_hdr vid_hdr av pnum of
                             Some err \<Rightarrow> Inl err
                           | None \<Rightarrow>
                              (case add_to_list env s3 (aeb_pnum aeb) (aeb_vol_id aeb)
                                      (aeb_lnum aeb) (aeb_ec aeb) ((cmp_res AND 4) \<noteq> 0) LIST_ERASE of
                                 Inl err \<Rightarrow> Inl err
                               | Inr s4 \<Rightarrow>
                                  let aeb1 = aeb\<lparr>aeb_ec := ec, aeb_pnum := pnum,
                                                  aeb_vol_id := vol_id, aeb_lnum := lnum,
                                                  aeb_scrub := ((cmp_res AND 2) \<noteq> 0 \<or> bitflips),
                                                  aeb_copy_flag := ((vh_copy_flag vid_hdr AND 1) \<noteq> 0),
                                                  aeb_sqnum := sqnum\<rparr>;
                                      av1 = av\<lparr>av_root := aeb_store lnum aeb1 (av_root av)\<rparr>;
                                      av2 = (if av_highest_lnum av1 = lnum
                                             then av1\<lparr>av_last_data_size := vh_data_size vid_hdr\<rparr>
                                             else av1)
                                  in Inr (put_av av2 s4)))
                        else add_to_list env s3 pnum vol_id lnum ec ((cmp_res AND 4) \<noteq> 0) LIST_ERASE)
               | None \<Rightarrow>
                  (case validate_vid_hdr vid_hdr av pnum of
                     Some err \<Rightarrow> Inl err
                   | None \<Rightarrow>
                      (case kmem_cache_alloc env (allocs s2) of
                         None \<Rightarrow> Inl ENOMEM
                       | Some mem \<Rightarrow>
                          let aeb = mem\<lparr>aeb_ec := ec, aeb_pnum := pnum, aeb_vol_id := vol_id,
                                          aeb_lnum := lnum, aeb_scrub := bitflips,
                                          aeb_copy_flag := ((vh_copy_flag vid_hdr AND 1) \<noteq> 0),
                                          aeb_sqnum := sqnum\<rparr>;
                              av1 = (if av_highest_lnum av \<le>s lnum
                                     then av\<lparr>av_highest_lnum := lnum,
                                             av_last_data_size := vh_data_size vid_hdr\<rparr>
                                     else av);
                              av2 = av1\<lparr>av_leb_count := av_leb_count av1 + 1\<rparr>;
                              av3 = av2\<lparr>av_root := rb_insert_color_aeb env aeb
                                                       (aeb_link aeb (av_root av2))\<rparr>
                          in Inr (put_av av3 (s2\<lparr>allocs := Suc (allocs s2)\<rparr>))))))"

subsection \<open>Corrupted volume identifier headers\<close>

text \<open>
  Modelled from the spec: \<^verbatim>\<open>ubi_check_pattern\<close> of misc.c, which is not among the
  sources; it is the loop of \<^verbatim>\<open>check_pattern\<close> in attach.c: 1 when the first \<open>size\<close>
  bytes of the buffer all equal \<open>patt\<close>, 0 when another byte is found.
\<close>

definition ubi_check_pattern :: "u8 list \<Rightarrow> u8 \<Rightarrow> s32 \<Rightarrow> bool" where
  "ubi_check_pattern buf patt sz = list_all (\<lambda>b. b = patt) (take (nat (sint sz)) buf)"

text \<open>
  \<^verbatim>\<open>check_corruption\<close>: \<open>Inr (False, _)\<close> is the return value 0 (a power cut),
  \<open>Inr (True, _)\<close> the return value 1.  What the read leaves in \<^verbatim>\<open>ubi->peb_buf\<close> is
  what \<open>ubi_io_read\<close> hands back.
\<close>

definition check_corruption ::
  "env \<Rightarrow> state \<Rightarrow> ubi_vid_hdr \<Rightarrow> s32 \<Rightarrow> error + (bool \<times> state)" where
  "check_corruption env s vid_hdr pnum =
     (let (err, peb_buf) = ubi_io_read env (io_log s) pnum (leb_start (ubi s)) (leb_size (ubi s));
          s1 = s\<lparr>io_log := io_log s @ [OP_READ pnum (leb_start (ubi s)) (leb_size (ubi s))]\<rparr>
      in if err = RD_BITFLIPS \<or> mtd_is_eccerr err then Inr (False, s1)
         else if err \<noteq> RD_OK then Inl (case err of RD_ERR x \<Rightarrow> x | _ \<Rightarrow> EIO)
         else if ubi_check_pattern peb_buf 0xFF (leb_size (ubi s)) then Inr (False, s1)
         else Inr (True, s1))"

subsection \<open>Scanning one physical eraseblock\<close>

text \<open>
  \<^verbatim>\<open>scan_peb\<close> is cut where its control flow joins.  \<open>ec\<close> is the \<^verbatim>\<open>long long\<close> of the
  source, cut to \<^verbatim>\<open>int\<close> where it is passed on; \<open>ec_err\<close> is \<open>IO_OK\<close> for zero.  The
  out-parameters \<^verbatim>\<open>vid\<close> and \<^verbatim>\<open>sqnum\<close> are null in \<^verbatim>\<open>scan_all\<close> and left out.
\<close>

text \<open>The label \<^verbatim>\<open>adjust_mean_ec\<close>.\<close>

definition adjust_mean_ec :: "state \<Rightarrow> io_code \<Rightarrow> s64 \<Rightarrow> state" where
  "adjust_mean_ec s ec_err ec =
     (if ec_err = IO_OK then
        let a = ai s;
            a1 = a\<lparr>ec_sum := ec_sum a + ec, ec_count := ec_count a + 1\<rparr>;
            a2 = (if scast (max_ec a1) <s ec then a1\<lparr>max_ec := ucast ec\<rparr> else a1);
            a3 = (if ec <s scast (min_ec a2) then a2\<lparr>min_ec := ucast ec\<rparr> else a2)
        in s\<lparr>ai := a3\<rparr>
      else s)"

text \<open>The call of \<^verbatim>\<open>ubi_add_to_av\<close> and what follows it.\<close>

definition scan_peb_add ::
  "env \<Rightarrow> state \<Rightarrow> s32 \<Rightarrow> ubi_vid_hdr \<Rightarrow> s64 \<Rightarrow> bool \<Rightarrow> io_code \<Rightarrow> error + state" where
  "scan_peb_add env s pnum vidh ec bitflips ec_err =
     (case ubi_add_to_av env s pnum (ucast ec) vidh bitflips of
        Inl err \<Rightarrow> Inl err
      | Inr s1 \<Rightarrow> Inr (adjust_mean_ec s1 ec_err ec))"

text \<open>
  From \<^verbatim>\<open>vol_id = be32_to_cpu(vidh->vol_id)\<close> on, with a valid VID header: the switch
  on the compatibility byte of an internal volume.
\<close>

definition scan_peb_vol ::
  "env \<Rightarrow> state \<Rightarrow> s32 \<Rightarrow> ubi_vid_hdr \<Rightarrow> s64 \<Rightarrow> bool \<Rightarrow> io_code \<Rightarrow> error + state" where
  "scan_peb_vol env s pnum vidh ec bitflips ec_err =
     (let vol_id = vh_vol_id vidh
      in if UBI_MAX_VOLUMES env <s vol_id \<and> vol_id \<noteq> UBI_LAYOUT_VOLUME_ID then
           let lnum = vh_lnum vidh
           in if vh_compat vidh = UBI_COMPAT_DELETE then
                add_to_list env s pnum vol_id lnum (ucast ec) True LIST_ERASE
              else if vh_compat vidh = UBI_COMPAT_RO then
                scan_peb_add env (s\<lparr>ubi := (ubi s)\<lparr>ro_mode := 1\<rparr>\<rparr>) pnum vidh ec bitflips ec_err
              else if vh_compat vidh = UBI_COMPAT_PRESERVE then
                add_to_list env s pnum vol_id lnum (ucast ec) False LIST_ALIEN
              else if vh_compat vidh = UBI_COMPAT_REJECT then Inl EINVAL
              else scan_peb_add env s pnum vidh ec bitflips ec_err
         else scan_peb_add env s pnum vidh ec bitflips ec_err)"

text \<open>The body of \<^verbatim>\<open>case UBI_IO_BAD_HDR\<close> of the second switch: a corrupted VID header.\<close>

definition scan_peb_bad_vid ::
  "env \<Rightarrow> state \<Rightarrow> s32 \<Rightarrow> ubi_vid_hdr \<Rightarrow> s64 \<Rightarrow> io_code \<Rightarrow> error + state" where
  "scan_peb_bad_vid env s pnum vidh ec ec_err =
     (case (if ec_err \<noteq> IO_OK then Inr (False, s) else check_corruption env s vidh pnum) of
        Inl err \<Rightarrow> Inl err
      | Inr (err, s1) \<Rightarrow>
         (case (if \<not> err then
                  add_to_list env s1 pnum UBI_UNKNOWN UBI_UNKNOWN (ucast ec) True
                    (if CONFIG_MTD_UBI_LOWPAGE_BACKUP env then LIST_WAITING else LIST_ERASE)
                else add_corrupted env s1 pnum (ucast ec)) of
            Inl err \<Rightarrow> Inl err
          | Inr s2 \<Rightarrow> Inr (adjust_mean_ec s2 ec_err ec)))"

text \<open>From the comment "let's look at the VID header": the second switch.\<close>

definition scan_peb_vid ::
  "env \<Rightarrow> state \<Rightarrow> s32 \<Rightarrow> s64 \<Rightarrow> bool \<Rightarrow> io_code \<Rightarrow> error + state" where
  "scan_peb_vid env s pnum ec bitflips ec_err =
     (let (err, vidh) = ubi_io_read_vid_hdr env (io_log s) pnum;
          s1 = s\<lparr>io_log := io_log s @ [OP_READ_VID_HDR pnum]\<rparr>
      in case err of
           IO_ERR x \<Rightarrow> Inl x
         | IO_OK \<Rightarrow> scan_peb_vol env s1 pnum vidh ec bitflips ec_err
         | UBI_IO_BITFLIPS \<Rightarrow> scan_peb_vol env s1 pnum vidh ec True ec_err
         | UBI_IO_BAD_HDR_EBADMSG \<Rightarrow>
             scan_peb_bad_vid env
               (if ec_err = UBI_IO_BAD_HDR_EBADMSG
                then s1\<lparr>ai := (ai s1)\<lparr>maybe_bad_peb_count := maybe_bad_peb_count (ai s1) + 1\<rparr>\<rparr>
                else s1) pnum vidh ec ec_err
         | UBI_IO_BAD_HDR \<Rightarrow> scan_peb_bad_vid env s1 pnum vidh ec ec_err
         | UBI_IO_FF_BITFLIPS \<Rightarrow>
            (case add_to_list env s1 pnum UBI_UNKNOWN UBI_UNKNOWN (ucast ec) True LIST_ERASE of
               Inl e \<Rightarrow> Inl e
             | Inr s2 \<Rightarrow> Inr (adjust_mean_ec s2 ec_err ec))
         | UBI_IO_FF \<Rightarrow>
            (case (if ec_err \<noteq> IO_OK \<or> bitflips
                   then add_to_list env s1 pnum UBI_UNKNOWN UBI_UNKNOWN (ucast ec) True LIST_ERASE
                   else add_to_list env s1 pnum UBI_UNKNOWN UBI_UNKNOWN (ucast ec) False LIST_FREE) of
               Inl e \<Rightarrow> Inl e
             | Inr s2 \<Rightarrow> Inr (adjust_mean_ec s2 ec_err ec))
         | IO_UNKNOWN n \<Rightarrow> Inl EINVAL)"

text \<open>The block \<^verbatim>\<open>if (!ec_err)\<close>: the checks of a readable EC header.\<close>

definition scan_peb_ec ::
  "env \<Rightarrow> state \<Rightarrow> s32 \<Rightarrow> ubi_ec_hdr \<Rightarrow> bool \<Rightarrow> error + state" where
  "scan_peb_ec env s pnum ech bitflips =
     (if eh_version ech \<noteq> UBI_VERSION env then Inl EINVAL
      else
        let ec = eh_ec ech
        in if UBI_MAX_ERASECOUNTER <s ec then Inl EINVAL
           else
             let seq = eh_image_seq ech;
                 s1 = (if image_seq (ubi s) = 0 then s\<lparr>ubi := (ubi s)\<lparr>image_seq := seq\<rparr>\<rparr> else s)
             in if seq \<noteq> 0 \<and> image_seq (ubi s1) \<noteq> seq then Inl EINVAL
                else scan_peb_vid env s1 pnum ec bitflips IO_OK)"

definition scan_peb :: "env \<Rightarrow> state \<Rightarrow> s32 \<Rightarrow> error + state" where
  "scan_peb env s pnum =
     (case ubi_io_is_bad env (io_log s) pnum of
        Inl err \<Rightarrow> Inl err
      | Inr bad \<Rightarrow>
         (let s0 = s\<lparr>io_log := io_log s @ [OP_IS_BAD pnum]\<rparr>
          in if bad then Inr (s0\<lparr>ai := (ai s0)\<lparr>bad_peb_count := bad_peb_count (ai s0) + 1\<rparr>\<rparr>)
             else
               let (err, ech) = ubi_io_read_ec_hdr env (io_log s0) pnum;
                   s1 = s0\<lparr>io_log := io_log s0 @ [OP_READ_EC_HDR pnum]\<rparr>;
                   s2 = s1\<lparr>ai := (ai s1)\<lparr>empty_peb_count := empty_peb_count (ai s1) + 1\<rparr>\<rparr>
               in case err of
                    IO_ERR x \<Rightarrow> Inl x
                  | IO_OK \<Rightarrow> scan_peb_ec env s1 pnum ech False
                  | UBI_IO_BITFLIPS \<Rightarrow> scan_peb_ec env s1 pnum ech True
                  | UBI_IO_FF \<Rightarrow>
                      add_to_list env s2 pnum UBI_UNKNOWN UBI_UNKNOWN UBI_UNKNOWN False LIST_ERASE
                  | UBI_IO_FF_BITFLIPS \<Rightarrow>
                      add_to_list env s2 pnum UBI_UNKNOWN UBI_UNKNOWN UBI_UNKNOWN True LIST_ERASE
                  | UBI_IO_BAD_HDR_EBADMSG \<Rightarrow> scan_peb_vid env s1 pnum (scast UBI_UNKNOWN) True err
                  | UBI_IO_BAD_HDR \<Rightarrow> scan_peb_vid env s1 pnum (scast UBI_UNKNOWN) True err
                  | IO_UNKNOWN n \<Rightarrow> Inl EINVAL))"

subsection \<open>Late analysis\<close>

text \<open>Division of C on \<^verbatim>\<open>int\<close>: the quotient is cut towards zero.\<close>

definition int_div :: "s32 \<Rightarrow> s32 \<Rightarrow> s32" where
  "int_div a b = word_of_int (sint a sdiv sint b)"

text \<open>\<^verbatim>\<open>max_corr = peb_count / 20 ?: 8\<close>: the quotient unless it is zero, else 8.\<close>

definition max_corr :: "s32 \<Rightarrow> s32" where
  "max_corr peb_count1 = (if int_div peb_count1 20 \<noteq> 0 then int_div peb_count1 20 else 8)"

definition late_analysis :: "env \<Rightarrow> state \<Rightarrow> error + state" where
  "late_analysis env s =
     (let a = ai s;
          peb_count1 = peb_count (ubi s) - bad_peb_count a - alien_peb_count a
      in if corr_peb_count a \<noteq> 0 \<and> max_corr peb_count1 \<le>s corr_peb_count a then Inl EINVAL
         else if empty_peb_count a + maybe_bad_peb_count a = peb_count1 then
           if maybe_bad_peb_count a \<le>s 2
           then Inr (s\<lparr>ai := a\<lparr>is_empty := 1\<rparr>,
                       ubi := (ubi s)\<lparr>image_seq := get_random_bytes env (io_log s)\<rparr>\<rparr>)
           else Inl EINVAL
         else Inr s)"

subsection \<open>Scanning the whole device\<close>

text \<open>
  \<^verbatim>\<open>for (pnum = start; pnum < bound; pnum++)\<close> over a body that may fail.  The counter
  is an \<^verbatim>\<open>int\<close>; below the bound the increment cannot overflow.
\<close>

function for_loop :: "(s32 \<Rightarrow> 'a \<Rightarrow> error + 'a) \<Rightarrow> s32 \<Rightarrow> s32 \<Rightarrow> 'a \<Rightarrow> error + 'a" where
  "for_loop body pnum bound s =
     (if pnum <s bound then
        (case body pnum s of Inl err \<Rightarrow> Inl err | Inr s1 \<Rightarrow> for_loop body (pnum + 1) bound s1)
      else Inr s)"
  by pat_completeness auto
termination
proof (relation "measure (\<lambda>(body, pnum, bound, s). nat (sint bound - sint pnum))")
  show "wf (measure (\<lambda>(body, pnum, bound, s). nat (sint bound - sint pnum)))" by simp
next
  fix body :: "s32 \<Rightarrow> 'a \<Rightarrow> error + 'a" and pnum bound :: s32 and s s1 :: 'a
  assume lt: "pnum <s bound"
  have "sint bound < 2 ^ 31" using sint_lt [of bound] by simp
  with lt have "sint pnum + 1 < 2 ^ 31" by (simp add: word_sless_alt)
  moreover have "- (2 ^ 31) \<le> sint pnum" using sint_ge [of pnum] by simp
  ultimately have "sint (pnum + 1) = sint pnum + 1"
    by (simp add: sint_word_add signed_take_bit_int_eq_self)
  with lt show "((body, pnum + 1, bound, s1), (body, pnum, bound, s))
      \<in> measure (\<lambda>(body, pnum, bound, s). nat (sint bound - sint pnum))"
    by (simp add: word_sless_alt)
qed

declare for_loop.simps [simp del]

text \<open>
  "Calculate mean erase counter": \<^verbatim>\<open>div_u64\<close> divides the 64-bit sum by the count
  read as an unsigned 32-bit number; the quotient is cut to \<^verbatim>\<open>int\<close>.
\<close>

definition calc_mean_ec :: "state \<Rightarrow> state" where
  "calc_mean_ec s =
     (if ec_count (ai s) \<noteq> 0
      then s\<lparr>ai := (ai s)\<lparr>mean_ec := ucast (ec_sum (ai s) div ucast (ec_count (ai s)))\<rparr>\<rparr>
      else s)"

text \<open>
  "In case of unknown erase counter we use the mean erase counter value": the loops
  over the volumes and their trees, and over the lists \<^verbatim>\<open>free\<close>, \<^verbatim>\<open>corr\<close> and
  \<^verbatim>\<open>erase\<close>.
\<close>

definition fill_ec :: "s32 \<Rightarrow> ubi_ainf_peb \<Rightarrow> ubi_ainf_peb" where
  "fill_ec mean aeb = (if aeb_ec aeb = UBI_UNKNOWN then aeb\<lparr>aeb_ec := mean\<rparr> else aeb)"

definition fill_unknown_ec :: "state \<Rightarrow> state" where
  "fill_unknown_ec s =
     (let a = ai s;
          m = mean_ec a;
          a1 = a\<lparr>volumes := map_tree (\<lambda>av. av\<lparr>av_root := map_tree (fill_ec m) (av_root av)\<rparr>)
                                 (volumes a)\<rparr>;
          a2 = a1\<lparr>free := map (fill_ec m) (free a1)\<rparr>;
          a3 = a2\<lparr>corr := map (fill_ec m) (corr a2)\<rparr>;
          a4 = a3\<lparr>erase := map (fill_ec m) (erase a3)\<rparr>
      in s\<lparr>ai := a4\<rparr>)"

subsection \<open>Self-check of the attaching information\<close>

text \<open>
  The first pass of \<^verbatim>\<open>self_check_ai\<close> reads no flash and every failure in it is
  \<^verbatim>\<open>-EINVAL\<close>, so it is a conjunction of what must hold of a volume and of each of
  its logical eraseblocks.
\<close>

definition self_check_aeb :: "state \<Rightarrow> ubi_ainf_volume \<Rightarrow> ubi_ainf_peb \<Rightarrow> bool" where
  "self_check_aeb s av aeb =
     (\<not> (aeb_pnum aeb <s 0 \<or> aeb_ec aeb <s 0)
      \<and> \<not> aeb_ec aeb <s min_ec (ai s)
      \<and> \<not> max_ec (ai s) <s aeb_ec aeb
      \<and> \<not> peb_count (ubi s) \<le>s aeb_pnum aeb
      \<and> (if av_vol_type av = UBI_STATIC_VOLUME
         then \<not> av_used_ebs av \<le>s aeb_lnum aeb
         else av_used_ebs av = 0)
      \<and> \<not> av_highest_lnum av <s aeb_lnum aeb)"

definition self_check_av :: "env \<Rightarrow> state \<Rightarrow> ubi_ainf_volume \<Rightarrow> bool" where
  "self_check_av env s av =
     (let used = inorder (av_root av)
      in is_empty (ai s) = 0
       \<and> \<not> (av_vol_id av <s 0 \<or> av_highest_lnum av <s 0 \<or> av_leb_count av <s 0
             \<or> av_used_ebs av <s 0 \<or> av_data_pad av <s 0 \<or> av_last_data_size av <s 0)
       \<and> \<not> (UBI_MAX_VOLUMES env \<le>s av_vol_id av \<and> av_vol_id av <s UBI_INTERNAL_VOL_START env)
       \<and> \<not> highest_vol_id (ai s) <s av_vol_id av
       \<and> \<not> int_div (leb_size (ubi s)) 2 <s av_data_pad av
       \<and> list_all (self_check_aeb s av) used
       \<and> av_leb_count av = of_nat (length used)
       \<and> (used = [] \<or> aeb_lnum (last used) = av_highest_lnum av))"

text \<open>
  The second pass reads the VID header of every logical eraseblock again and compares.
  \<open>vidh\<close> is the header read last; after the eraseblocks of a volume it is compared
  with the volume once more.
\<close>

fun self_check_vids ::
  "env \<Rightarrow> ubi_ainf_volume \<Rightarrow> ubi_ainf_peb list \<Rightarrow> ubi_vid_hdr option \<Rightarrow> state
     \<Rightarrow> error + (ubi_vid_hdr option \<times> state)" where
  "self_check_vids env av [] last_vidh s = Inr (last_vidh, s)"
| "self_check_vids env av (aeb # rest) last_vidh s =
     (let (err, vidh) = ubi_io_read_vid_hdr env (io_log s) (aeb_pnum aeb);
          s1 = s\<lparr>io_log := io_log s @ [OP_READ_VID_HDR (aeb_pnum aeb)]\<rparr>
      in if err \<noteq> IO_OK \<and> err \<noteq> UBI_IO_BITFLIPS
           then Inl (case err of IO_ERR x \<Rightarrow> x | _ \<Rightarrow> EIO)
         else if av_vol_type av \<noteq> (if vh_vol_type vidh = UBI_VID_DYNAMIC
                                      then UBI_DYNAMIC_VOLUME else UBI_STATIC_VOLUME)
           then Inl EINVAL
         else if aeb_sqnum aeb \<noteq> vh_sqnum vidh then Inl EINVAL
         else if av_vol_id av \<noteq> vh_vol_id vidh then Inl EINVAL
         else if av_compat av \<noteq> ucast (vh_compat vidh) then Inl EINVAL
         else if aeb_lnum aeb \<noteq> vh_lnum vidh then Inl EINVAL
         else if av_used_ebs av \<noteq> vh_used_ebs vidh then Inl EINVAL
         else if av_data_pad av \<noteq> vh_data_pad vidh then Inl EINVAL
         else self_check_vids env av rest (Some vidh) s1)"

fun self_check_avs :: "env \<Rightarrow> ubi_ainf_volume list \<Rightarrow> state \<Rightarrow> error + state" where
  "self_check_avs env [] s = Inr s"
| "self_check_avs env (av # rest) s =
     (case self_check_vids env av (inorder (av_root av)) None s of
        Inl err \<Rightarrow> Inl err
      | Inr (None, s1) \<Rightarrow> self_check_avs env rest s1
      | Inr (Some vidh, s1) \<Rightarrow>
          if av_highest_lnum av \<noteq> vh_lnum vidh then Inl EINVAL
          else if av_last_data_size av \<noteq> vh_data_size vidh then Inl EINVAL
          else self_check_avs env rest s1)"

text \<open>
  The third pass: \<open>buf\<close> is the set of marked eraseblock numbers, first the bad ones,
  then those of the trees and of the lists \<^verbatim>\<open>free\<close>, \<^verbatim>\<open>corr\<close>, \<^verbatim>\<open>erase\<close> and
  \<^verbatim>\<open>alien\<close>; every number below \<^verbatim>\<open>peb_count\<close> must be marked.
\<close>

definition self_check_bad ::
  "env \<Rightarrow> s32 \<Rightarrow> s32 list \<times> state \<Rightarrow> error + (s32 list \<times> state)" where
  "self_check_bad env pnum bs =
     (case bs of (buf, s) \<Rightarrow>
        (case ubi_io_is_bad env (io_log s) pnum of
           Inl err \<Rightarrow> Inl err
         | Inr bad \<Rightarrow>
             Inr (if bad then pnum # buf else buf, s\<lparr>io_log := io_log s @ [OP_IS_BAD pnum]\<rparr>)))"

definition self_check_ai :: "env \<Rightarrow> state \<Rightarrow> error + state" where
  "self_check_ai env s =
     (if \<not> ubi_dbg_chk_gen env then Inr s
      else
        let avs = inorder (volumes (ai s))
        in if \<not> list_all (self_check_av env s) avs then Inl EINVAL
           else if of_nat (length avs) \<noteq> vols_found (ai s) then Inl EINVAL
           else
            (case self_check_avs env avs s of
               Inl err \<Rightarrow> Inl err
             | Inr s1 \<Rightarrow>
                 if \<not> kzalloc env (allocs s1) then Inl ENOMEM
                 else
                  (case for_loop (self_check_bad env) 0 (peb_count (ubi s1))
                          ([], s1\<lparr>allocs := Suc (allocs s1)\<rparr>) of
                     Inl err \<Rightarrow> Inl err
                   | Inr (buf0, s2) \<Rightarrow>
                       let a = ai s2;
                           buf = map aeb_pnum
                                   (concat (map (\<lambda>av. inorder (av_root av)) (inorder (volumes a)))
                                    @ free a @ corr a @ erase a @ alien a) @ buf0
                       in (case for_loop (\<lambda>pnum err. Inr (err \<or> pnum \<notin> set buf)) 0
                                  (peb_count (ubi s2)) False of
                             Inl err \<Rightarrow> Inl err
                           | Inr err \<Rightarrow> if err then Inl EINVAL else Inr s2))))"

subsection \<open>\<^verbatim>\<open>scan_all\<close>\<close>

text \<open>\<^verbatim>\<open>alloc_ai\<close>: a zeroed object with empty lists and an empty volume tree.\<close>

definition alloc_ai :: ubi_attach_info where
  "alloc_ai = \<lparr>volumes = Leaf, corr = [], free = [], erase = [], alien = [], waiting = [],
     corr_peb_count = 0, empty_peb_count = 0, alien_peb_count = 0, bad_peb_count = 0,
     maybe_bad_peb_count = 0, vols_found = 0, highest_vol_id = 0, is_empty = 0,
     min_ec = 0, max_ec = 0, max_sqnum = 0, mean_ec = 0, ec_sum = 0, ec_count = 0\<rparr>"

text \<open>
  \<^verbatim>\<open>scan_all\<close> up to the call of \<^verbatim>\<open>self_check_ai\<close>: the two scratch headers are
  allocated, every eraseblock from \<open>start\<close> is scanned, the mean erase counter is
  computed, the late analysis runs and the unknown erase counters are filled in.
\<close>

definition scan_all_fill :: "env \<Rightarrow> state \<Rightarrow> s32 \<Rightarrow> error + state" where
  "scan_all_fill env s start =
     (if \<not> kzalloc env (allocs s) then Inl ENOMEM
      else
        let s0 = s\<lparr>allocs := Suc (allocs s)\<rparr>
        in if \<not> ubi_zalloc_vid_hdr env (allocs s0) then Inl ENOMEM
           else
             let s1 = s0\<lparr>allocs := Suc (allocs s0)\<rparr>
             in (case for_loop (\<lambda>pnum s'. scan_peb env s' pnum) start (peb_count (ubi s1)) s1 of
                   Inl err \<Rightarrow> Inl err
                 | Inr s2 \<Rightarrow>
                    (case late_analysis env (calc_mean_ec s2) of
                       Inl err \<Rightarrow> Inl err
                     | Inr s3 \<Rightarrow> Inr (fill_unknown_ec s3))))"

definition scan_all :: "env \<Rightarrow> state \<Rightarrow> s32 \<Rightarrow> error + state" where
  "scan_all env s start =
     (case scan_all_fill env s start of
        Inl err \<Rightarrow> Inl err
      | Inr s1 \<Rightarrow> self_check_ai env s1)"

subsection \<open>A sample device\<close>

text \<open>
  A device to run the definitions on: no eraseblock is marked bad, the headers and the
  data the flash returns are given per eraseblock and do not change, every allocation
  succeeds and returns zeroed memory, and the tree is left as linked.  The checksum is
  a stand-in that folds the bytes into the seed.
\<close>

definition zero_aeb :: ubi_ainf_peb where
  "zero_aeb = \<lparr>aeb_ec = 0, aeb_pnum = 0, aeb_vol_id = 0, aeb_lnum = 0, aeb_scrub = False,
     aeb_copy_flag = False, aeb_sqnum = 0\<rparr>"

definition zero_av :: ubi_ainf_volume where
  "zero_av = \<lparr>av_vol_id = 0, av_highest_lnum = 0, av_leb_count = 0,
     av_vol_type = UBI_DYNAMIC_VOLUME, av_used_ebs = 0, av_last_data_size = 0,
     av_data_pad = 0, av_compat = 0, av_root = Leaf\<rparr>"

definition sample_env ::
  "(s32 \<Rightarrow> io_code \<times> ubi_ec_hdr) \<Rightarrow> (s32 \<Rightarrow> io_code \<times> ubi_vid_hdr)
     \<Rightarrow> (s32 \<Rightarrow> rd_code \<times> u8 list) \<Rightarrow> env" where
  "sample_env ec_hdrs vid_hdrs data =
     \<lparr>UBI_MAX_VOLUMES = 128, UBI_VERSION = 1, CONFIG_MTD_UBI_LOWPAGE_BACKUP = False,
      ubi_dbg_chk_gen = False,
      ubi_io_is_bad = (\<lambda>log pnum. Inr False),
      ubi_io_read_ec_hdr = (\<lambda>log pnum. ec_hdrs pnum),
      ubi_io_read_vid_hdr = (\<lambda>log pnum. vid_hdrs pnum),
      ubi_io_read_data = (\<lambda>log pnum offset len. data pnum),
      ubi_io_read = (\<lambda>log pnum offset len. data pnum),
      crc32 = (\<lambda>seed buf. foldl (\<lambda>c b. c XOR ucast b) seed buf),
      kmem_cache_alloc = (\<lambda>n. Some zero_aeb),
      kmalloc_av = (\<lambda>n. Some zero_av),
      ubi_zalloc_vid_hdr = (\<lambda>n. True),
      kzalloc = (\<lambda>n. True),
      rb_insert_color_av = (\<lambda>node t. t),
      rb_insert_color_aeb = (\<lambda>node t. t),
      get_random_bytes = (\<lambda>log. 7),
      UBI_INTERNAL_VOL_START = 0x7FFFEFFF\<rparr>"

definition sample_state :: "s32 \<Rightarrow> state" where
  "sample_state n =
     \<lparr>ubi = \<lparr>peb_count = n, image_seq = 0, ro_mode = 0, leb_size = 4, leb_start = 0\<rparr>,
      ai = alloc_ai, allocs = 0, io_log = []\<rparr>"

definition mk_ec_hdr :: "u64 \<Rightarrow> ubi_ec_hdr" where
  "mk_ec_hdr n = \<lparr>eh_version = 1, eh_ec = n, eh_image_seq = 0\<rparr>"

definition mk_vid_hdr :: "u32 \<Rightarrow> u32 \<Rightarrow> u64 \<Rightarrow> u8 \<Rightarrow> u8 \<Rightarrow> ubi_vid_hdr" where
  "mk_vid_hdr vol_id lnum sqnum copy_flag cmpt =
     \<lparr>vh_vol_type = UBI_VID_DYNAMIC, vh_copy_flag = copy_flag, vh_compat = cmpt,
      vh_vol_id = vol_id, vh_lnum = lnum, vh_data_size = 4, vh_used_ebs = 0,
      vh_data_pad = 0, vh_data_crc = 0, vh_sqnum = sqnum\<rparr>"

subsection \<open>What the specification says, in its own words\<close>

text \<open>
  Section 4.5 of the specification: "If corr_peb_count is at least
  max(peb_count'/20, 8), refuse attach", on the numbers the fields stand for.
\<close>

definition spec_max_corr :: "int \<Rightarrow> int" where
  "spec_max_corr p = max (p div 20) 8"

text \<open>
  The second refusal of \<^verbatim>\<open>late_analysis\<close>, which is not about corrupted eraseblocks:
  all eraseblocks are empty or possibly bad, and more than two are possibly bad.
\<close>

definition not_ubi_formatted :: "state \<Rightarrow> bool" where
  "not_ubi_formatted s =
     (empty_peb_count (ai s) + maybe_bad_peb_count (ai s)
        = peb_count (ubi s) - bad_peb_count (ai s) - alien_peb_count (ai s)
      \<and> \<not> maybe_bad_peb_count (ai s) \<le>s 2)"

text \<open>A device whose eraseblocks all read as erased, and states with given counters.\<close>

definition blank_env :: env where
  "blank_env = sample_env (\<lambda>pnum. (UBI_IO_FF, mk_ec_hdr 0)) (\<lambda>pnum. (UBI_IO_FF, mk_vid_hdr 0 0 0 0 0))
                 (\<lambda>pnum. (RD_OK, []))"

definition corr_state :: "s32 \<Rightarrow> s32 \<Rightarrow> state" where
  "corr_state n c = (sample_state n)\<lparr>ai := alloc_ai\<lparr>corr_peb_count := c\<rparr>\<rparr>"

text \<open>
  A device whose EC headers all read as erased with bit-flips, and a state whose erase
  list already holds eraseblock 9.
\<close>

definition ff_bitflips_env :: env where
  "ff_bitflips_env = sample_env (\<lambda>pnum. (UBI_IO_FF_BITFLIPS, mk_ec_hdr 0))
                       (\<lambda>pnum. (UBI_IO_FF, mk_vid_hdr 0 0 0 0 0)) (\<lambda>pnum. (RD_OK, []))"

definition erase_state :: state where
  "erase_state = (sample_state 2)\<lparr>ai := alloc_ai\<lparr>erase := [zero_aeb\<lparr>aeb_pnum := 9\<rparr>]\<rparr>\<rparr>"

text \<open>
  Section 4.4 of the specification, the verdict "power-cut corruption": the read of
  the data area returned bit-flips or an ECC error, or it succeeded and the buffer is
  entirely \<open>0xFF\<close>.
\<close>

definition power_cut :: "rd_code \<Rightarrow> u8 list \<Rightarrow> s32 \<Rightarrow> bool" where
  "power_cut err peb_buf len =
     (err = RD_BITFLIPS \<or> err = RD_ERR EBADMSG
      \<or> (err = RD_OK \<and> (\<forall>b \<in> set (take (nat (sint len)) peb_buf). b = 0xFF)))"

text \<open>
  A device whose EC headers are fine, whose VID headers are corrupted and whose data
  areas hold the pattern \<open>0xAB\<close> (scenario S4 of the specification).
\<close>

definition corrupted_vid_env :: env where
  "corrupted_vid_env = sample_env (\<lambda>pnum. (IO_OK, mk_ec_hdr 50))
                         (\<lambda>pnum. (UBI_IO_BAD_HDR, mk_vid_hdr 0 0 0 0 0))
                         (\<lambda>pnum. (RD_OK, [0xAB, 0xAB, 0xAB, 0xAB]))"

text \<open>
  The test of \<^verbatim>\<open>scan_peb\<close> for an internal volume, and the test the specification
  words in section 4.1: "vol_id >= MAX_USER_VOLUMES and not the designated layout volume".
\<close>

definition internal_volume :: "env \<Rightarrow> ubi_vid_hdr \<Rightarrow> bool" where
  "internal_volume env vidh =
     (UBI_MAX_VOLUMES env <s vh_vol_id vidh \<and> vh_vol_id vidh \<noteq> UBI_LAYOUT_VOLUME_ID)"

definition spec_internal_volume :: "env \<Rightarrow> ubi_vid_hdr \<Rightarrow> bool" where
  "spec_internal_volume env vidh =
     (UBI_MAX_VOLUMES env \<le>s vh_vol_id vidh \<and> vh_vol_id vidh \<noteq> UBI_LAYOUT_VOLUME_ID)"

text \<open>
  Section 6.4 of the specification, the volume IDs: "[0, MAX_USER_VOLUMES) user;
  [INTERNAL_VOL_START, ...) internal".  A volume ID between the two is in neither range;
  \<^verbatim>\<open>self_check_ai\<close> calls it "bad vol_id".
\<close>

definition vol_id_in_namespace :: "env \<Rightarrow> s32 \<Rightarrow> bool" where
  "vol_id_in_namespace env vol_id =
     (vol_id <s UBI_MAX_VOLUMES env \<or> UBI_INTERNAL_VOL_START env \<le>s vol_id)"

text \<open>
  Headers of the internal volume \<open>0x7FFFF002\<close>, of the user volume 5 and of the layout
  volume, whose compatibility byte is REJECT, and a header with the volume ID 128.
\<close>

definition internal_hdr :: "u8 \<Rightarrow> ubi_vid_hdr" where
  "internal_hdr cmpt = mk_vid_hdr 0x7FFFF002 0 1 0 cmpt"

definition user_hdr :: ubi_vid_hdr where
  "user_hdr = mk_vid_hdr 5 0 1 0 0"

definition layout_hdr :: ubi_vid_hdr where
  "layout_hdr = mk_vid_hdr UBI_LAYOUT_VOLUME_ID 0 1 0 UBI_COMPAT_REJECT"

definition vol128_hdr :: ubi_vid_hdr where
  "vol128_hdr = mk_vid_hdr 128 0 1 0 UBI_COMPAT_DELETE"

text \<open>
  Section 4.3 of the specification: the copy with the higher sequence number is
  provisionally newer.  The winner's copy flag, eraseblock and VID header (read again
  from flash when the winner is the first copy) and the data read from the winner.
\<close>

definition second_has_higher_sqnum :: "ubi_ainf_peb \<Rightarrow> ubi_vid_hdr \<Rightarrow> bool" where
  "second_has_higher_sqnum aeb vid_hdr = (aeb_sqnum aeb < vh_sqnum vid_hdr)"

definition winner_copy_flag :: "ubi_ainf_peb \<Rightarrow> ubi_vid_hdr \<Rightarrow> bool" where
  "winner_copy_flag aeb vid_hdr =
     (if second_has_higher_sqnum aeb vid_hdr then vh_copy_flag vid_hdr \<noteq> 0 else aeb_copy_flag aeb)"

definition winner_pnum :: "ubi_ainf_peb \<Rightarrow> s32 \<Rightarrow> ubi_vid_hdr \<Rightarrow> s32" where
  "winner_pnum aeb pnum vid_hdr = (if second_has_higher_sqnum aeb vid_hdr then pnum else aeb_pnum aeb)"

definition winner_vid :: "env \<Rightarrow> state \<Rightarrow> ubi_ainf_peb \<Rightarrow> ubi_vid_hdr \<Rightarrow> io_code \<times> ubi_vid_hdr" where
  "winner_vid env s aeb vid_hdr =
     (if second_has_higher_sqnum aeb vid_hdr then (IO_OK, vid_hdr)
      else ubi_io_read_vid_hdr env (io_log s) (aeb_pnum aeb))"

definition winner_data ::
  "env \<Rightarrow> state \<Rightarrow> ubi_ainf_peb \<Rightarrow> s32 \<Rightarrow> ubi_vid_hdr \<Rightarrow> rd_code \<times> u8 list" where
  "winner_data env s aeb pnum vid_hdr =
     ubi_io_read_data env
       (if second_has_higher_sqnum aeb vid_hdr then io_log s
        else io_log s @ [OP_READ_VID_HDR (aeb_pnum aeb)])
       (winner_pnum aeb pnum vid_hdr) 0 (vh_data_size (snd (winner_vid env s aeb vid_hdr)))"

text \<open>
  Two copies of a logical eraseblock: the one in the tree has sequence number 200, the
  one on the flash 201; the data on the flash does not match the checksum 0 of the
  header (scenario S3 of the specification).
\<close>

definition wl_copy_env :: env where
  "wl_copy_env = sample_env (\<lambda>pnum. (IO_OK, mk_ec_hdr 10)) (\<lambda>pnum. (IO_OK, mk_vid_hdr 0 0 201 1 0))
                   (\<lambda>pnum. (RD_OK, [1, 2, 3, 4]))"

definition leb_200 :: ubi_ainf_peb where
  "leb_200 = zero_aeb\<lparr>aeb_sqnum := 200\<rparr>"

text \<open>
  Two eraseblocks that claim logical eraseblock 0 of volume 0 with the same sequence
  number \<open>n\<close> (scenario S6 of the specification): the state after eraseblock 0 has been
  scanned, the state in which \<^verbatim>\<open>ubi_add_to_av\<close> is called for eraseblock 1, and the
  volume and the logical eraseblock found there.
\<close>

definition dup_env :: "u64 \<Rightarrow> env" where
  "dup_env n = sample_env (\<lambda>pnum. (IO_OK, mk_ec_hdr 10)) (\<lambda>pnum. (IO_OK, mk_vid_hdr 0 0 n 0 0))
                 (\<lambda>pnum. (RD_OK, [1, 2, 3, 4]))"

definition dup_scan_state :: "u64 \<Rightarrow> state" where
  "dup_scan_state n =
     (case scan_peb (dup_env n) ((sample_state 2)\<lparr>allocs := 2\<rparr>) 0 of
        Inr s \<Rightarrow> s | Inl e \<Rightarrow> sample_state 2)"

definition dup_state :: "u64 \<Rightarrow> state" where
  "dup_state n = (dup_scan_state n)\<lparr>io_log := io_log (dup_scan_state n)
                    @ [OP_IS_BAD 1, OP_READ_EC_HDR 1, OP_READ_VID_HDR 1]\<rparr>"

definition dup_aeb :: "u64 \<Rightarrow> ubi_ainf_peb" where
  "dup_aeb n = zero_aeb\<lparr>aeb_ec := 10, aeb_sqnum := n\<rparr>"

definition dup_av :: "u64 \<Rightarrow> ubi_ainf_volume" where
  "dup_av n = zero_av\<lparr>av_leb_count := 1, av_last_data_size := 4,
                      av_root := Node Leaf (dup_aeb n) Leaf\<rparr>"

text \<open>
  Three eraseblocks that claim logical eraseblock 0 of volume 0, with the sequence
  numbers 5, 7 and 5, on a device with the checks of \<^verbatim>\<open>self_check_ai\<close> switched on.
\<close>

definition dup3_env :: env where
  "dup3_env =
     (sample_env (\<lambda>pnum. (IO_OK, mk_ec_hdr 10))
        (\<lambda>pnum. (IO_OK, mk_vid_hdr 0 0 (if pnum = 1 then 7 else 5) 0 0))
        (\<lambda>pnum. (RD_OK, [1, 2, 3, 4])))\<lparr>ubi_dbg_chk_gen := True\<rparr>"

text \<open>
  What is required of \<^verbatim>\<open>rb_insert_color\<close>: rebalancing keeps the in-order sequence of
  the tree.
\<close>

definition rb_contract :: "env \<Rightarrow> bool" where
  "rb_contract env =
     ((\<forall>node t. inorder (rb_insert_color_av env node t) = inorder t)
      \<and> (\<forall>node t. inorder (rb_insert_color_aeb env node t) = inorder t))"

text \<open>
  The volume IDs and the LEB numbers in the order of an in-order traversal
  (\<^verbatim>\<open>ubi_rb_for_each_entry\<close>), as the numbers the fields stand for, and what it is for
  the traversal to go down or up.
\<close>

definition vol_ids :: "ubi_ainf_volume tree \<Rightarrow> int list" where
  "vol_ids t = map (\<lambda>av. sint (av_vol_id av)) (inorder t)"

definition lnums :: "ubi_ainf_peb tree \<Rightarrow> int list" where
  "lnums t = map (\<lambda>aeb. sint (aeb_lnum aeb)) (inorder t)"

definition descending :: "int list \<Rightarrow> bool" where
  "descending xs = sorted_wrt (\<lambda>x y. y < x) xs"

definition ascending :: "int list \<Rightarrow> bool" where
  "ascending xs = sorted_wrt (\<lambda>x y. x < y) xs"

definition trees_ordered :: "ubi_attach_info \<Rightarrow> bool" where
  "trees_ordered a =
     (descending (vol_ids (volumes a))
      \<and> (\<forall>av \<in> set (inorder (volumes a)). ascending (lnums (av_root av))))"

text \<open>A sequence of calls of \<^verbatim>\<open>add_volume\<close> and \<^verbatim>\<open>ubi_add_to_av\<close>.\<close>

datatype tree_call =
    ADD_VOLUME s32 s32 ubi_vid_hdr
  | ADD_TO_AV s32 s32 ubi_vid_hdr bool

fun run_calls :: "env \<Rightarrow> state \<Rightarrow> tree_call list \<Rightarrow> error + state" where
  "run_calls env s [] = Inr s"
| "run_calls env s (ADD_VOLUME vol_id pnum vid_hdr # cs) =
     (case add_volume env s vol_id pnum vid_hdr of
        Inl err \<Rightarrow> Inl err
      | Inr (av, s1) \<Rightarrow> run_calls env s1 cs)"
| "run_calls env s (ADD_TO_AV pnum ec vid_hdr bitflips # cs) =
     (case ubi_add_to_av env s pnum ec vid_hdr bitflips of
        Inl err \<Rightarrow> Inl err
      | Inr s1 \<Rightarrow> run_calls env s1 cs)"

text \<open>
  Volumes 1 and 2 added in this order to an empty tree, and four eraseblocks of the
  volumes 1 and 2, the last of them a newer copy of the first.
\<close>

definition two_vol_calls :: "tree_call list" where
  "two_vol_calls = [ADD_VOLUME 1 0 (mk_vid_hdr 1 0 1 0 0), ADD_VOLUME 2 1 (mk_vid_hdr 2 0 2 0 0)]"

definition two_vol_state :: state where
  "two_vol_state =
     (case run_calls blank_env (sample_state 4) two_vol_calls of
        Inr s \<Rightarrow> s | Inl e \<Rightarrow> sample_state 4)"

definition leb_calls :: "tree_call list" where
  "leb_calls = [ADD_TO_AV 0 10 (mk_vid_hdr 1 2 1 0 0) False,
                ADD_TO_AV 1 10 (mk_vid_hdr 2 0 2 0 0) False,
                ADD_TO_AV 2 10 (mk_vid_hdr 1 0 3 0 0) False,
                ADD_TO_AV 3 10 (mk_vid_hdr 1 2 4 0 0) False]"

definition leb_state :: state where
  "leb_state =
     (case run_calls blank_env (sample_state 4) leb_calls of
        Inr s \<Rightarrow> s | Inl e \<Rightarrow> sample_state 4)"

text \<open>
  What a step of the scan does to the alien list and its counter: the list grows by
  \<open>k\<close> objects and the counter by \<open>k\<close>.  A step of the scan keeps the number of
  eraseblocks and the mean erase counter, and \<open>k\<close> is 0 or 1.
\<close>

definition alien_step :: "state \<Rightarrow> state \<Rightarrow> nat \<Rightarrow> bool" where
  "alien_step s s' k =
     (length (alien (ai s')) = length (alien (ai s)) + k
      \<and> alien_peb_count (ai s') = alien_peb_count (ai s) + of_nat k)"

definition scan_frame :: "state \<Rightarrow> state \<Rightarrow> bool" where
  "scan_frame s s' =
     (peb_count (ubi s') = peb_count (ubi s) \<and> mean_ec (ai s') = mean_ec (ai s)
      \<and> (alien_step s s' 0 \<or> alien_step s s' 1))"

text \<open>
  A device of five eraseblocks, with the checks of \<^verbatim>\<open>self_check_ai\<close> switched on:
  eraseblock 0 has a corrupted EC header and belongs to an internal volume that is to
  be preserved, eraseblock 1 is free with erase counter 50, eraseblocks 2 and 3 hold
  the logical eraseblocks 0 and 1 of volume 0, the first with erase counter 50 and the
  second with a corrupted EC header, and eraseblock 4 reads as erased.  The states are
  those after the scan loop, after the late analysis, before the call of
  \<^verbatim>\<open>self_check_ai\<close> and after \<^verbatim>\<open>scan_all\<close>.
\<close>

definition mixed_env :: env where
  "mixed_env =
     (sample_env
        (\<lambda>pnum. if pnum = 0 \<or> pnum = 3 then (UBI_IO_BAD_HDR, mk_ec_hdr 0)
                 else if pnum = 4 then (UBI_IO_FF, mk_ec_hdr 0)
                 else (IO_OK, mk_ec_hdr 50))
        (\<lambda>pnum. if pnum = 0 then (IO_OK, internal_hdr UBI_COMPAT_PRESERVE)
                 else if pnum = 1 then (UBI_IO_FF, mk_vid_hdr 0 0 0 0 0)
                 else if pnum = 2 then (IO_OK, mk_vid_hdr 0 0 5 0 0)
                 else (IO_OK, mk_vid_hdr 0 1 6 0 0))
        (\<lambda>pnum. (RD_OK, [1, 2, 3, 4])))\<lparr>ubi_dbg_chk_gen := True\<rparr>"

definition mixed_loop_state :: state where
  "mixed_loop_state =
     (case for_loop (\<lambda>pnum s'. scan_peb mixed_env s' pnum) 0 5 ((sample_state 5)\<lparr>allocs := 2\<rparr>) of
        Inr s \<Rightarrow> s | Inl e \<Rightarrow> sample_state 5)"

definition mixed_late_state :: state where
  "mixed_late_state =
     (case late_analysis mixed_env (calc_mean_ec mixed_loop_state) of
        Inr s \<Rightarrow> s | Inl e \<Rightarrow> sample_state 5)"

definition mixed_fill_state :: state where
  "mixed_fill_state =
     (case scan_all_fill mixed_env (sample_state 5) 0 of Inr s \<Rightarrow> s | Inl e \<Rightarrow> sample_state 5)"

definition mixed_state :: state where
  "mixed_state =
     (case scan_all mixed_env (sample_state 5) 0 of Inr s \<Rightarrow> s | Inl e \<Rightarrow> sample_state 5)"

section \<open>Arithmetic on machine integers\<close>

lemma sint_sub3:
  fixes a b c :: s32
  assumes "0 \<le> sint b" "0 \<le> sint c" "sint b + sint c \<le> sint a"
  shows "sint (a - b - c) = sint a - sint b - sint c"
proof -
  have a: "sint a < 2 ^ 31" using sint_lt [of a] by simp
  have "sint (a - b) = sint a - sint b"
    using assms a by (simp add: sint_word_diff signed_take_bit_int_eq_self)
  moreover have "sint (a - b - c) = signed_take_bit 31 (sint (a - b) - sint c)"
    by (simp add: sint_word_diff)
  ultimately show ?thesis
    using assms a by (simp add: signed_take_bit_int_eq_self)
qed

lemma sint_int_div_20:
  fixes x :: s32
  assumes "0 \<le> sint x"
  shows "sint (int_div x 20) = sint x div 20"
proof -
  have x: "sint x < 2 ^ 31" using sint_lt [of x] by simp
  have q: "sint x sdiv 20 = sint x div 20"
    using assms by (simp add: signed_divide_int_def sgn_if)
  have "0 \<le> sint x div 20" "sint x div 20 < 2 ^ 31"
    using assms x by auto
  then have "sint (word_of_int (sint x div 20) :: s32) = sint x div 20"
    by (simp add: sint_sbintrunc' signed_take_bit_int_eq_self)
  with q show ?thesis by (simp add: int_div_def)
qed

lemma sint_max_corr:
  fixes x :: s32
  assumes "0 \<le> sint x"
  shows "sint (max_corr x) = (if sint x div 20 = 0 then 8 else sint x div 20)"
proof -
  have "int_div x 20 = 0 \<longleftrightarrow> sint (int_div x 20) = 0"
    by (metis sint_0 signed_word_eqI)
  then show ?thesis
    using sint_int_div_20 [OF assms] by (simp add: max_corr_def)
qed

section \<open>Late analysis: too many corrupted eraseblocks\<close>

text \<open>
  C3, as the code has it.  Let \<open>p\<close> be \<open>peb_count - bad_peb_count - alien_peb_count\<close>,
  with both counts non-negative and together at most \<open>peb_count\<close>.  Then
  \<^verbatim>\<open>late_analysis\<close> returns \<^verbatim>\<open>-EINVAL\<close> exactly when \<open>corr_peb_count\<close> is at least
  \<open>p / 20\<close> if that quotient is not zero and at least 8 if it is, or when the device is
  refused as not UBI-formatted.  So below that threshold no refusal is on account of
  corrupted eraseblocks.  The threshold is \<^verbatim>\<open>peb_count / 20 ?: 8\<close>, not the maximum of
  the two numbers.
\<close>

theorem late_analysis_refuses_iff:
  assumes "0 \<le> sint (bad_peb_count (ai s))" and "0 \<le> sint (alien_peb_count (ai s))"
    and "sint (bad_peb_count (ai s)) + sint (alien_peb_count (ai s)) \<le> sint (peb_count (ubi s))"
  shows "late_analysis env s = Inl EINVAL \<longleftrightarrow>
           (let p = sint (peb_count (ubi s)) - sint (bad_peb_count (ai s))
                      - sint (alien_peb_count (ai s))
            in (if p div 20 = 0 then 8 else p div 20) \<le> sint (corr_peb_count (ai s)))
           \<or> not_ubi_formatted s"
proof -
  let ?x = "peb_count (ubi s) - bad_peb_count (ai s) - alien_peb_count (ai s)"
  let ?p = "sint (peb_count (ubi s)) - sint (bad_peb_count (ai s)) - sint (alien_peb_count (ai s))"
  have p: "sint ?x = ?p" using assms by (rule sint_sub3)
  then have nn: "0 \<le> sint ?x" using assms by simp
  have m: "sint (max_corr ?x) = (if ?p div 20 = 0 then 8 else ?p div 20)"
    using sint_max_corr [OF nn] p by simp
  have pos: "0 < sint (max_corr ?x)"
    using m nn p by (auto simp: div_pos_pos_trivial intro: pos_imp_zdiv_pos_iff [THEN iffD2])
  have c0: "corr_peb_count (ai s) = 0 \<Longrightarrow> sint (corr_peb_count (ai s)) = 0" by simp
  have "(corr_peb_count (ai s) \<noteq> 0 \<and> max_corr ?x \<le>s corr_peb_count (ai s))
          \<longleftrightarrow> (if ?p div 20 = 0 then 8 else ?p div 20) \<le> sint (corr_peb_count (ai s))"
    using m pos c0 by (auto simp: word_sle_eq)
  then show ?thesis
    by (auto simp: late_analysis_def Let_def not_ubi_formatted_def)
qed

theorem late_analysis_refuses_iff_witness:
  "0 \<le> sint (bad_peb_count (ai (corr_state 100 5)))
   \<and> 0 \<le> sint (alien_peb_count (ai (corr_state 100 5)))
   \<and> late_analysis blank_env (corr_state 100 5) = Inl EINVAL"
  using late_analysis_refuses_iff [of "corr_state 100 5" blank_env]
  by (simp add: corr_state_def sample_state_def alloc_ai_def not_ubi_formatted_def)

text \<open>
  C3 as the specification states it fails on a device of 100 good eraseblocks with 5
  corrupted ones: the code refuses, while 5 is below the maximum of 100 / 20 and 8.
\<close>

theorem late_analysis_max_counterexample:
  "\<not> (late_analysis blank_env (corr_state 100 5) = Inl EINVAL \<longleftrightarrow>
        spec_max_corr (sint (peb_count (ubi (corr_state 100 5)))
                       - sint (bad_peb_count (ai (corr_state 100 5)))
                       - sint (alien_peb_count (ai (corr_state 100 5))))
          \<le> sint (corr_peb_count (ai (corr_state 100 5))))"
  by (simp add: corr_state_def sample_state_def alloc_ai_def late_analysis_def max_corr_def
      int_div_def spec_max_corr_def)

section \<open>Scanning an erased eraseblock\<close>

text \<open>
  C7, as the code has it.  When the eraseblock is not bad and the read of its EC header
  returns \<^verbatim>\<open>UBI_IO_FF\<close> or \<^verbatim>\<open>UBI_IO_FF_BITFLIPS\<close>, \<^verbatim>\<open>scan_peb\<close> adds one to
  \<open>empty_peb_count\<close> and puts an object with unknown erase counter, volume and LEB
  number on the erase list: at the tail after \<^verbatim>\<open>UBI_IO_FF\<close>, at the head after
  \<^verbatim>\<open>UBI_IO_FF_BITFLIPS\<close>.  It returns success when the object could be allocated
  and \<^verbatim>\<open>-ENOMEM\<close> when not.  The flash operations issued are the bad-block test and
  the read of the EC header: the VID header is not read.  Nothing else changes.
\<close>

theorem scan_peb_ff:
  assumes "ubi_io_is_bad env (io_log s) pnum = Inr False"
    and "ubi_io_read_ec_hdr env (io_log s @ [OP_IS_BAD pnum]) pnum = (err, ech)"
    and "err = UBI_IO_FF \<or> err = UBI_IO_FF_BITFLIPS"
  shows "scan_peb env s pnum =
           (case kmem_cache_alloc env (allocs s) of
              None \<Rightarrow> Inl ENOMEM
            | Some mem \<Rightarrow>
                let aeb = mem\<lparr>aeb_pnum := pnum, aeb_vol_id := UBI_UNKNOWN,
                                aeb_lnum := UBI_UNKNOWN, aeb_ec := UBI_UNKNOWN\<rparr>
                in Inr (s\<lparr>io_log := io_log s @ [OP_IS_BAD pnum, OP_READ_EC_HDR pnum],
                          allocs := Suc (allocs s),
                          ai := (ai s)\<lparr>empty_peb_count := empty_peb_count (ai s) + 1,
                                      erase := (if err = UBI_IO_FF then erase (ai s) @ [aeb]
                                                else aeb # erase (ai s))\<rparr>\<rparr>))"
  using assms
  by (auto simp: scan_peb_def add_to_list_def Let_def list_of_def list_set_def
      list_add_def list_add_tail_def split: option.splits)

theorem scan_peb_ff_witness:
  "map_sum id (\<lambda>s. (map aeb_pnum (erase (ai s)), empty_peb_count (ai s), io_log s))
     (scan_peb ff_bitflips_env erase_state 0) = Inr ([0, 9], 1, [OP_IS_BAD 0, OP_READ_EC_HDR 0])"
  using scan_peb_ff [of ff_bitflips_env erase_state 0 UBI_IO_FF_BITFLIPS "mk_ec_hdr 0"]
  by (simp add: ff_bitflips_env_def sample_env_def erase_state_def sample_state_def alloc_ai_def
      zero_aeb_def)

text \<open>
  C7 as the specification states it fails after \<^verbatim>\<open>UBI_IO_FF_BITFLIPS\<close>: with
  eraseblock 9 on the erase list, eraseblock 0 is put before it, not after it.
\<close>

theorem scan_peb_ff_bitflips_counterexample:
  "\<not> (\<exists>s' aeb. scan_peb ff_bitflips_env erase_state 0 = Inr s'
        \<and> erase (ai s') = erase (ai erase_state) @ [aeb])"
  by (simp add: scan_peb_def add_to_list_def Let_def list_of_def list_set_def
      list_add_def list_add_tail_def ff_bitflips_env_def sample_env_def erase_state_def
      sample_state_def alloc_ai_def zero_aeb_def UBI_UNKNOWN_def)

section \<open>What the steps of \<^verbatim>\<open>scan_peb\<close> leave alone\<close>

lemma adjust_mean_ec_lists [simp]:
  "corr (ai (adjust_mean_ec s ec_err ec)) = corr (ai s)"
  "erase (ai (adjust_mean_ec s ec_err ec)) = erase (ai s)"
  "waiting (ai (adjust_mean_ec s ec_err ec)) = waiting (ai s)"
  "free (ai (adjust_mean_ec s ec_err ec)) = free (ai s)"
  "alien (ai (adjust_mean_ec s ec_err ec)) = alien (ai s)"
  "volumes (ai (adjust_mean_ec s ec_err ec)) = volumes (ai s)"
  by (simp_all add: adjust_mean_ec_def Let_def)

lemma adjust_mean_ec_counts [simp]:
  "corr_peb_count (ai (adjust_mean_ec s ec_err ec)) = corr_peb_count (ai s)"
  "alien_peb_count (ai (adjust_mean_ec s ec_err ec)) = alien_peb_count (ai s)"
  "empty_peb_count (ai (adjust_mean_ec s ec_err ec)) = empty_peb_count (ai s)"
  "bad_peb_count (ai (adjust_mean_ec s ec_err ec)) = bad_peb_count (ai s)"
  "maybe_bad_peb_count (ai (adjust_mean_ec s ec_err ec)) = maybe_bad_peb_count (ai s)"
  "mean_ec (ai (adjust_mean_ec s ec_err ec)) = mean_ec (ai s)"
  "ubi (adjust_mean_ec s ec_err ec) = ubi s"
  "allocs (adjust_mean_ec s ec_err ec) = allocs s"
  "io_log (adjust_mean_ec s ec_err ec) = io_log s"
  by (simp_all add: adjust_mean_ec_def Let_def)

lemma add_to_list_frame:
  assumes "add_to_list env s pnum vol_id lnum ec to_head list = Inr s'"
  shows "ubi s' = ubi s \<and> io_log s' = io_log s \<and> mean_ec (ai s') = mean_ec (ai s)
       \<and> volumes (ai s') = volumes (ai s)
       \<and> (list \<noteq> LIST_ALIEN \<longrightarrow> alien (ai s') = alien (ai s)
                                  \<and> alien_peb_count (ai s') = alien_peb_count (ai s))"
  using assms
  by (auto simp: add_to_list_def Let_def list_set_def list_of_def
      split: if_splits option.splits list_id.splits)

lemma add_corrupted_frame:
  assumes "add_corrupted env s pnum ec = Inr s'"
  shows "ubi s' = ubi s \<and> io_log s' = io_log s \<and> mean_ec (ai s') = mean_ec (ai s)
       \<and> volumes (ai s') = volumes (ai s)
       \<and> alien (ai s') = alien (ai s) \<and> alien_peb_count (ai s') = alien_peb_count (ai s)"
  using assms by (auto simp: add_corrupted_def Let_def split: option.splits)

lemma add_volume_frame:
  assumes "add_volume env s vol_id pnum vid_hdr = Inr (av, s')"
  shows "ubi s' = ubi s \<and> io_log s' = io_log s \<and> mean_ec (ai s') = mean_ec (ai s)
       \<and> alien (ai s') = alien (ai s) \<and> alien_peb_count (ai s') = alien_peb_count (ai s)"
  using assms by (auto simp: add_volume_def Let_def split: option.splits)

lemma compare_lebs_crc_frame:
  assumes "compare_lebs_crc env s pnum vid_hdr second_is_newer bitflips = Inr (r, s')"
  shows "ubi s' = ubi s \<and> ai s' = ai s"
  using assms by (auto simp: compare_lebs_crc_def Let_def split: if_splits prod.splits)

lemma ubi_compare_lebs_frame:
  assumes "ubi_compare_lebs env s aeb pnum vid_hdr = Inr (r, s')"
  shows "ubi s' = ubi s \<and> ai s' = ai s"
  using assms
  by (auto simp: ubi_compare_lebs_def Let_def split: if_splits prod.splits
      dest!: compare_lebs_crc_frame)

lemma put_av_frame [simp]:
  "ubi (put_av av s) = ubi s" "io_log (put_av av s) = io_log s"
  "allocs (put_av av s) = allocs s"
  "mean_ec (ai (put_av av s)) = mean_ec (ai s)"
  "alien (ai (put_av av s)) = alien (ai s)"
  "alien_peb_count (ai (put_av av s)) = alien_peb_count (ai s)"
  by (simp_all add: put_av_def)

lemma ubi_add_to_av_frame:
  assumes "ubi_add_to_av env s pnum ec vid_hdr bitflips = Inr s'"
  shows "ubi s' = ubi s \<and> mean_ec (ai s') = mean_ec (ai s)
       \<and> alien (ai s') = alien (ai s) \<and> alien_peb_count (ai s') = alien_peb_count (ai s)"
proof -
  obtain av s1 where av: "add_volume env s (vh_vol_id vid_hdr) pnum vid_hdr = Inr (av, s1)"
    using assms by (auto simp: ubi_add_to_av_def Let_def split: sum.splits)
  note f1 = add_volume_frame [OF av]
  show ?thesis
    using assms av f1
    by (auto simp: ubi_add_to_av_def Let_def
        split: sum.splits option.splits if_splits prod.splits
        dest!: ubi_compare_lebs_frame add_to_list_frame)
qed

lemma scan_peb_add_frame:
  assumes "scan_peb_add env s pnum vidh ec bitflips ec_err = Inr s'"
  shows "ubi s' = ubi s \<and> mean_ec (ai s') = mean_ec (ai s)
       \<and> alien (ai s') = alien (ai s) \<and> alien_peb_count (ai s') = alien_peb_count (ai s)"
  using assms
  by (auto simp: scan_peb_add_def split: sum.splits dest!: ubi_add_to_av_frame)

section \<open>A corrupted VID header under a readable EC header\<close>

lemma check_corruption_verdict:
  assumes "ubi_io_read env (io_log s) pnum (leb_start (ubi s)) (leb_size (ubi s)) = (err, peb_buf)"
  shows "check_corruption env s vidh pnum =
           (if power_cut err peb_buf (leb_size (ubi s))
              then Inr (False, s\<lparr>io_log := io_log s @ [OP_READ pnum (leb_start (ubi s)) (leb_size (ubi s))]\<rparr>)
            else if err = RD_OK
              then Inr (True, s\<lparr>io_log := io_log s @ [OP_READ pnum (leb_start (ubi s)) (leb_size (ubi s))]\<rparr>)
            else Inl (case err of RD_ERR x \<Rightarrow> x | _ \<Rightarrow> EIO))"
  using assms
  by (auto simp: check_corruption_def power_cut_def mtd_is_eccerr_def ubi_check_pattern_def
      list_all_iff Let_def)

text \<open>
  C5.  The eraseblock's EC header was read (\<open>ec_err\<close> is zero), the read of its VID
  header returns \<^verbatim>\<open>UBI_IO_BAD_HDR\<close> or \<^verbatim>\<open>UBI_IO_BAD_HDR_EBADMSG\<close>, and the read of
  its data area returns \<open>err\<close> and leaves \<open>peb_buf\<close>.  Then \<^verbatim>\<open>check_corruption\<close>
  returns 0, the power-cut verdict, exactly when \<open>err\<close> is bit-flips or an ECC error or
  the read succeeded and the data area is all \<open>0xFF\<close>.  Once the new object is
  allocated, the power-cut verdict puts the eraseblock at the head of the erase list
  (of the waiting list with \<^verbatim>\<open>CONFIG_MTD_UBI_LOWPAGE_BACKUP\<close>) and leaves the
  \<open>corr\<close> list and its counter alone; every other successful read puts it on the
  \<open>corr\<close> list and adds one to \<open>corr_peb_count\<close>.
\<close>

theorem scan_peb_corrupted_vid:
  assumes vid: "ubi_io_read_vid_hdr env (io_log s) pnum = (verr, vidh)"
    and bad: "verr = UBI_IO_BAD_HDR \<or> verr = UBI_IO_BAD_HDR_EBADMSG"
    and rd: "ubi_io_read env (io_log s @ [OP_READ_VID_HDR pnum]) pnum (leb_start (ubi s))
               (leb_size (ubi s)) = (err, peb_buf)"
  shows "((\<exists>s2. check_corruption env (s\<lparr>io_log := io_log s @ [OP_READ_VID_HDR pnum]\<rparr>) vidh pnum
                  = Inr (False, s2))
            \<longleftrightarrow> power_cut err peb_buf (leb_size (ubi s)))
       \<and> (\<forall>mem. kmem_cache_alloc env (allocs s) = Some mem
              \<and> (power_cut err peb_buf (leb_size (ubi s)) \<or> err = RD_OK) \<longrightarrow>
            (\<exists>s'. scan_peb_vid env s pnum ec bitflips IO_OK = Inr s'
               \<and> (if power_cut err peb_buf (leb_size (ubi s)) then
                     corr (ai s') = corr (ai s) \<and> corr_peb_count (ai s') = corr_peb_count (ai s)
                     \<and> list_of (if CONFIG_MTD_UBI_LOWPAGE_BACKUP env then LIST_WAITING
                                 else LIST_ERASE) (ai s')
                         = mem\<lparr>aeb_pnum := pnum, aeb_vol_id := UBI_UNKNOWN,
                                aeb_lnum := UBI_UNKNOWN, aeb_ec := ucast ec\<rparr>
                           # list_of (if CONFIG_MTD_UBI_LOWPAGE_BACKUP env then LIST_WAITING
                                      else LIST_ERASE) (ai s)
                   else
                     corr (ai s') = mem\<lparr>aeb_pnum := pnum, aeb_ec := ucast ec\<rparr> # corr (ai s)
                     \<and> corr_peb_count (ai s') = corr_peb_count (ai s) + 1
                     \<and> erase (ai s') = erase (ai s) \<and> waiting (ai s') = waiting (ai s))))"
proof -
  let ?s1 = "s\<lparr>io_log := io_log s @ [OP_READ_VID_HDR pnum]\<rparr>"
  let ?s2 = "?s1\<lparr>io_log := io_log ?s1 @ [OP_READ pnum (leb_start (ubi s)) (leb_size (ubi s))]\<rparr>"
  have rd1: "ubi_io_read env (io_log ?s1) pnum (leb_start (ubi ?s1)) (leb_size (ubi ?s1))
               = (err, peb_buf)"
    using rd by simp
  note cc = check_corruption_verdict [OF rd1, of vidh]
  have verdict: "(\<exists>s2. check_corruption env ?s1 vidh pnum = Inr (False, s2))
                   \<longleftrightarrow> power_cut err peb_buf (leb_size (ubi s))"
    using cc by (auto split: if_splits)
  have step: "scan_peb_vid env s pnum ec bitflips IO_OK
                = scan_peb_bad_vid env ?s1 pnum vidh ec IO_OK"
    using vid bad by (auto simp: scan_peb_vid_def)
  have route: "\<exists>s'. scan_peb_vid env s pnum ec bitflips IO_OK = Inr s'
               \<and> (if power_cut err peb_buf (leb_size (ubi s)) then
                     corr (ai s') = corr (ai s) \<and> corr_peb_count (ai s') = corr_peb_count (ai s)
                     \<and> list_of (if CONFIG_MTD_UBI_LOWPAGE_BACKUP env then LIST_WAITING
                                 else LIST_ERASE) (ai s')
                         = mem\<lparr>aeb_pnum := pnum, aeb_vol_id := UBI_UNKNOWN,
                                aeb_lnum := UBI_UNKNOWN, aeb_ec := ucast ec\<rparr>
                           # list_of (if CONFIG_MTD_UBI_LOWPAGE_BACKUP env then LIST_WAITING
                                      else LIST_ERASE) (ai s)
                   else
                     corr (ai s') = mem\<lparr>aeb_pnum := pnum, aeb_ec := ucast ec\<rparr> # corr (ai s)
                     \<and> corr_peb_count (ai s') = corr_peb_count (ai s) + 1
                     \<and> erase (ai s') = erase (ai s) \<and> waiting (ai s') = waiting (ai s))"
    if mem: "kmem_cache_alloc env (allocs s) = Some mem"
      and ok: "power_cut err peb_buf (leb_size (ubi s)) \<or> err = RD_OK" for mem
    using cc mem ok unfolding step
    by (auto simp: scan_peb_bad_vid_def add_to_list_def add_corrupted_def Let_def list_of_def
        list_set_def list_add_def)
  from verdict route show ?thesis by blast
qed

theorem scan_peb_corrupted_vid_witness:
  "map_sum id (\<lambda>s. (map aeb_pnum (corr (ai s)), corr_peb_count (ai s), map aeb_pnum (erase (ai s))))
     (scan_peb_vid corrupted_vid_env (sample_state 1) 0 50 False IO_OK) = Inr ([0], 1, [])"
  using scan_peb_corrupted_vid [of corrupted_vid_env "sample_state 1" 0 UBI_IO_BAD_HDR
      "mk_vid_hdr 0 0 0 0 0" RD_OK "[0xAB, 0xAB, 0xAB, 0xAB]" 50 False]
  by (auto simp: corrupted_vid_env_def sample_env_def sample_state_def alloc_ai_def
      zero_aeb_def power_cut_def)

section \<open>Unfolding the sample device\<close>

lemmas sample_simps = sample_env_def sample_state_def alloc_ai_def zero_aeb_def zero_av_def
  mk_vid_hdr_def mk_ec_hdr_def

section \<open>The newer of two copies\<close>

lemma cmp_bits_bit:
  "bit (cmp_bits a b c) 0 = a" "bit (cmp_bits a b c) (Suc 0) = b" "bit (cmp_bits a b c) 2 = c"
  by (cases a; cases b; cases c; simp add: cmp_bits_def bit_or_iff bit_push_bit_iff)+

lemma compare_lebs_crc_mismatch:
  assumes "ubi_io_read_data env (io_log s) pnum 0 (vh_data_size vid_hdr) = (err, peb_buf)"
    and "err = RD_OK \<or> err = RD_BITFLIPS \<or> err = RD_ERR EBADMSG"
    and "crc32 env UBI_CRC32_INIT peb_buf \<noteq> vh_data_crc vid_hdr"
  shows "compare_lebs_crc env s pnum vid_hdr second_is_newer bitflips =
           Inr (cmp_bits (\<not> second_is_newer) False True,
                s\<lparr>io_log := io_log s @ [OP_READ_DATA pnum 0 (vh_data_size vid_hdr)]\<rparr>)"
  using assms by (auto simp: compare_lebs_crc_def mtd_is_eccerr_def Let_def)

text \<open>
  C1.  The two sequence numbers differ, and the copy with the higher one is the
  provisional winner.  When the winner's copy flag is clear, \<^verbatim>\<open>ubi_compare_lebs\<close>
  returns at once: bit 0 names the winner, bit 2 is clear, and the state is the one it
  was called in, so nothing was read from the flash.  When the copy flag is set, the
  winner's VID header is at hand (for the first copy: the scratch header is allocated
  and the header is read again, with or without bit-flips), the winner's data is read
  (with or without bit-flips or an ECC error) and its CRC-32 from the seed
  \<open>0xFFFFFFFF\<close> differs from \<open>data_crc\<close>, then the function succeeds with bit 0 the
  negation of the provisional verdict, bit 1 clear and bit 2 set.
\<close>

theorem ubi_compare_lebs_verdict:
  assumes ne: "vh_sqnum vid_hdr \<noteq> aeb_sqnum aeb"
  shows "(\<not> winner_copy_flag aeb vid_hdr \<longrightarrow>
            (\<exists>r. ubi_compare_lebs env s aeb pnum vid_hdr = Inr (r, s)
                \<and> bit r 0 = second_has_higher_sqnum aeb vid_hdr \<and> \<not> bit r 2))
       \<and> (winner_copy_flag aeb vid_hdr
            \<and> (second_has_higher_sqnum aeb vid_hdr \<or> ubi_zalloc_vid_hdr env (allocs s))
            \<and> fst (winner_vid env s aeb vid_hdr) \<in> {IO_OK, UBI_IO_BITFLIPS}
            \<and> fst (winner_data env s aeb pnum vid_hdr) \<in> {RD_OK, RD_BITFLIPS, RD_ERR EBADMSG}
            \<and> crc32 env UBI_CRC32_INIT (snd (winner_data env s aeb pnum vid_hdr))
                 \<noteq> vh_data_crc (snd (winner_vid env s aeb vid_hdr)) \<longrightarrow>
            (\<exists>r s'. ubi_compare_lebs env s aeb pnum vid_hdr = Inr (r, s')
                \<and> bit r 0 = (\<not> second_has_higher_sqnum aeb vid_hdr)
                \<and> \<not> bit r 1 \<and> bit r 2))"
proof (cases "second_has_higher_sqnum aeb vid_hdr")
  case True
  have one: "(1 :: s32) = cmp_bits True False False" by (simp add: cmp_bits_def)
  show ?thesis
  proof (intro conjI impI)
    assume "\<not> winner_copy_flag aeb vid_hdr"
    then have "ubi_compare_lebs env s aeb pnum vid_hdr = Inr (cmp_bits True False False, s)"
      using True ne
      by (simp add: ubi_compare_lebs_def winner_copy_flag_def second_has_higher_sqnum_def one)
    then show "\<exists>r. ubi_compare_lebs env s aeb pnum vid_hdr = Inr (r, s)
                \<and> bit r 0 = second_has_higher_sqnum aeb vid_hdr \<and> \<not> bit r 2"
      using True by (simp add: cmp_bits_bit)
  next
    assume h: "winner_copy_flag aeb vid_hdr
            \<and> (second_has_higher_sqnum aeb vid_hdr \<or> ubi_zalloc_vid_hdr env (allocs s))
            \<and> fst (winner_vid env s aeb vid_hdr) \<in> {IO_OK, UBI_IO_BITFLIPS}
            \<and> fst (winner_data env s aeb pnum vid_hdr) \<in> {RD_OK, RD_BITFLIPS, RD_ERR EBADMSG}
            \<and> crc32 env UBI_CRC32_INIT (snd (winner_data env s aeb pnum vid_hdr))
                 \<noteq> vh_data_crc (snd (winner_vid env s aeb vid_hdr))"
    obtain err peb_buf where rd:
      "ubi_io_read_data env (io_log s) pnum 0 (vh_data_size vid_hdr) = (err, peb_buf)"
      by (cases "ubi_io_read_data env (io_log s) pnum 0 (vh_data_size vid_hdr)")
    have "compare_lebs_crc env s pnum vid_hdr True False =
            Inr (cmp_bits (\<not> True) False True,
                 s\<lparr>io_log := io_log s @ [OP_READ_DATA pnum 0 (vh_data_size vid_hdr)]\<rparr>)"
      using h rd True
      by (intro compare_lebs_crc_mismatch [OF rd])
         (auto simp: winner_data_def winner_vid_def winner_pnum_def)
    moreover have "ubi_compare_lebs env s aeb pnum vid_hdr
                     = compare_lebs_crc env s pnum vid_hdr True False"
      using h True ne
      by (simp add: ubi_compare_lebs_def winner_copy_flag_def second_has_higher_sqnum_def)
    ultimately show "\<exists>r s'. ubi_compare_lebs env s aeb pnum vid_hdr = Inr (r, s')
                \<and> bit r 0 = (\<not> second_has_higher_sqnum aeb vid_hdr)
                \<and> \<not> bit r 1 \<and> bit r 2"
      using True by (simp add: cmp_bits_bit)
  qed
next
  case False
  show ?thesis
  proof (intro conjI impI)
    assume "\<not> winner_copy_flag aeb vid_hdr"
    then have "ubi_compare_lebs env s aeb pnum vid_hdr = Inr (cmp_bits False False False, s)"
      using False ne
      by (simp add: ubi_compare_lebs_def winner_copy_flag_def second_has_higher_sqnum_def)
    then show "\<exists>r. ubi_compare_lebs env s aeb pnum vid_hdr = Inr (r, s)
                \<and> bit r 0 = second_has_higher_sqnum aeb vid_hdr \<and> \<not> bit r 2"
      using False by (simp add: cmp_bits_bit)
  next
    assume h: "winner_copy_flag aeb vid_hdr
            \<and> (second_has_higher_sqnum aeb vid_hdr \<or> ubi_zalloc_vid_hdr env (allocs s))
            \<and> fst (winner_vid env s aeb vid_hdr) \<in> {IO_OK, UBI_IO_BITFLIPS}
            \<and> fst (winner_data env s aeb pnum vid_hdr) \<in> {RD_OK, RD_BITFLIPS, RD_ERR EBADMSG}
            \<and> crc32 env UBI_CRC32_INIT (snd (winner_data env s aeb pnum vid_hdr))
                 \<noteq> vh_data_crc (snd (winner_vid env s aeb vid_hdr))"
    obtain verr vh where vid: "ubi_io_read_vid_hdr env (io_log s) (aeb_pnum aeb) = (verr, vh)"
      by (cases "ubi_io_read_vid_hdr env (io_log s) (aeb_pnum aeb)")
    let ?s2 = "s\<lparr>allocs := Suc (allocs s), io_log := io_log s @ [OP_READ_VID_HDR (aeb_pnum aeb)]\<rparr>"
    obtain err peb_buf where rd:
      "ubi_io_read_data env (io_log ?s2) (aeb_pnum aeb) 0 (vh_data_size vh) = (err, peb_buf)"
      by (cases "ubi_io_read_data env (io_log ?s2) (aeb_pnum aeb) 0 (vh_data_size vh)")
    have verr: "verr = IO_OK \<or> verr = UBI_IO_BITFLIPS"
      using h False vid by (auto simp: winner_vid_def)
    have crc: "compare_lebs_crc env ?s2 (aeb_pnum aeb) vh False b =
            Inr (cmp_bits (\<not> False) False True,
                 ?s2\<lparr>io_log := io_log ?s2 @ [OP_READ_DATA (aeb_pnum aeb) 0 (vh_data_size vh)]\<rparr>)"
      for b
      using h rd False vid
      by (intro compare_lebs_crc_mismatch [OF rd])
         (auto simp: winner_data_def winner_vid_def winner_pnum_def)
    have "ubi_compare_lebs env s aeb pnum vid_hdr
            = compare_lebs_crc env ?s2 (aeb_pnum aeb) vh False (verr = UBI_IO_BITFLIPS)"
      using h False ne vid verr
      by (auto simp: ubi_compare_lebs_def winner_copy_flag_def second_has_higher_sqnum_def Let_def)
    then show "\<exists>r s'. ubi_compare_lebs env s aeb pnum vid_hdr = Inr (r, s')
                \<and> bit r 0 = (\<not> second_has_higher_sqnum aeb vid_hdr)
                \<and> \<not> bit r 1 \<and> bit r 2"
      using False crc by (simp add: cmp_bits_bit)
  qed
qed

theorem ubi_compare_lebs_verdict_witness:
  "(\<exists>r s'. ubi_compare_lebs wl_copy_env (sample_state 2) leb_200 1 (mk_vid_hdr 0 0 201 1 0)
             = Inr (r, s') \<and> \<not> bit r 0 \<and> \<not> bit r 1 \<and> bit r 2)
   \<and> (\<exists>r. ubi_compare_lebs wl_copy_env (sample_state 2) leb_200 1 (mk_vid_hdr 0 0 201 0 0)
             = Inr (r, sample_state 2) \<and> bit r 0 \<and> \<not> bit r 2)"
  using ubi_compare_lebs_verdict [of "mk_vid_hdr 0 0 201 1 0" leb_200 wl_copy_env "sample_state 2" 1]
    ubi_compare_lebs_verdict [of "mk_vid_hdr 0 0 201 0 0" leb_200 wl_copy_env "sample_state 2" 1]
  by (simp add: winner_copy_flag_def second_has_higher_sqnum_def winner_vid_def winner_data_def
      winner_pnum_def leb_200_def wl_copy_env_def sample_env_def zero_aeb_def mk_vid_hdr_def
      UBI_CRC32_INIT_def)

section \<open>Two copies with the same sequence number\<close>

lemma for_loop_abort:
  assumes "for_loop body start pnum s = Inr sk" and "start \<le>s pnum" and "pnum <s bound"
    and "body pnum sk = Inl e"
  shows "for_loop body start bound s = Inl e"
  using assms
proof (induction body start pnum s rule: for_loop.induct)
  case (1 body start pnum s)
  show ?case
  proof (cases "start <s pnum")
    case True
    then obtain s1 where b: "body start s = Inr s1"
      and rest: "for_loop body (start + 1) pnum s1 = Inr sk"
      using "1.prems"(1) by (subst (asm) for_loop.simps) (auto split: sum.splits)
    have lt: "sint start < sint pnum" using True by (simp add: word_sless_alt)
    have "sint pnum < 2 ^ 31" using sint_lt [of pnum] by simp
    moreover have "- (2 ^ 31) \<le> sint start" using sint_ge [of start] by simp
    ultimately have "sint (start + 1) = sint start + 1"
      using lt by (simp add: sint_word_add signed_take_bit_int_eq_self)
    then have le: "start + 1 \<le>s pnum" using lt by (simp add: word_sle_eq)
    have "for_loop body (start + 1) bound s1 = Inl e"
      using "1.IH" [OF True b rest le "1.prems"(3) "1.prems"(4)] .
    moreover have "start <s bound"
      using True "1.prems"(3) by (simp add: word_sless_alt)
    ultimately show ?thesis
      using b by (subst for_loop.simps) simp
  next
    case False
    then have eq: "start = pnum"
      using "1.prems"(2) by (auto simp: word_sless_alt word_sle_eq intro: signed_word_eqI)
    then have "sk = s"
      using "1.prems"(1) by (subst (asm) for_loop.simps) (simp add: word_sless_alt)
    then show ?thesis
      using eq "1.prems"(3,4) by (subst for_loop.simps) simp
  qed
qed

lemma scan_all_aborts:
  assumes "kzalloc env (allocs s)" and "ubi_zalloc_vid_hdr env (Suc (allocs s))"
    and "for_loop (\<lambda>pnum s'. scan_peb env s' pnum) start pnum (s\<lparr>allocs := Suc (Suc (allocs s))\<rparr>)
           = Inr sk"
    and "start \<le>s pnum" and "pnum <s peb_count (ubi s)"
    and "scan_peb env sk pnum = Inl e"
  shows "scan_all env s start = Inl e"
proof -
  have "for_loop (\<lambda>pnum s'. scan_peb env s' pnum) start (peb_count (ubi s))
          (s\<lparr>allocs := Suc (Suc (allocs s))\<rparr>) = Inl e"
    using assms(3-6) by (rule for_loop_abort)
  then show ?thesis
    using assms(1,2) by (simp add: scan_all_def scan_all_fill_def Let_def)
qed

text \<open>
  C2, as the code has it.  An eraseblock is compared with the copy that the tree of its
  volume holds at that moment, which is the newest copy scanned so far; copies that
  lost an earlier comparison are on the erase list and are not looked at again.  The
  volume of the new eraseblock is in the volume tree.  If its tree holds an
  eraseblock with the same LEB number and the same sequence number, then
  \<^verbatim>\<open>ubi_add_to_av\<close> fails with \<^verbatim>\<open>-EINVAL\<close>, whether the number is zero or not:
  \<^verbatim>\<open>ubi_compare_lebs\<close> returns \<^verbatim>\<open>-EINVAL\<close> on equal sequence numbers in any state,
  which is what refuses a zero number that the test of \<^verbatim>\<open>ubi_add_to_av\<close> itself lets
  pass.  \<^verbatim>\<open>scan_peb\<close> hands the error on, and a scan that comes to this eraseblock
  aborts: \<^verbatim>\<open>scan_all\<close> returns \<^verbatim>\<open>-EINVAL\<close>.  If the tree holds no eraseblock with
  that LEB number, the eraseblock is admitted whatever its sequence number, once
  its header is consistent with the volume and the object is allocated.
\<close>

theorem ubi_add_to_av_duplicate_sqnum:
  assumes vol: "av_walk (vh_vol_id vid_hdr) (volumes (ai s)) = Some av"
  shows "(aeb_walk (vh_lnum vid_hdr) (av_root av) = Some aeb \<and> aeb_sqnum aeb = vh_sqnum vid_hdr \<longrightarrow>
            ubi_add_to_av env s pnum ec vid_hdr bitflips = Inl EINVAL
            \<and> ubi_compare_lebs env s1 aeb pnum vid_hdr = Inl EINVAL
            \<and> scan_peb_add env s pnum vid_hdr ec1 bitflips ec_err = Inl EINVAL
            \<and> (kzalloc env (allocs s0) \<and> ubi_zalloc_vid_hdr env (Suc (allocs s0))
                \<and> for_loop (\<lambda>pnum s'. scan_peb env s' pnum) start pnum
                      (s0\<lparr>allocs := Suc (Suc (allocs s0))\<rparr>) = Inr sk
                \<and> start \<le>s pnum \<and> pnum <s peb_count (ubi s0)
                \<and> scan_peb env sk pnum = scan_peb_add env s pnum vid_hdr ec1 bitflips ec_err \<longrightarrow>
                scan_all env s0 start = Inl EINVAL))
       \<and> (aeb_walk (vh_lnum vid_hdr) (av_root av) = None
            \<and> validate_vid_hdr vid_hdr av pnum = None
            \<and> kmem_cache_alloc env (allocs s) \<noteq> None \<longrightarrow>
            (\<exists>s'. ubi_add_to_av env s pnum ec vid_hdr bitflips = Inr s'))"
proof -
  have av: "add_volume env s (vh_vol_id vid_hdr) pnum vid_hdr = Inr (av, s)"
    using vol by (simp add: add_volume_def)
  have cmp: "ubi_compare_lebs env s1 aeb pnum vid_hdr = Inl EINVAL"
    if "aeb_sqnum aeb = vh_sqnum vid_hdr" for s1
    using that by (simp add: ubi_compare_lebs_def)
  have dup: "ubi_add_to_av env s pnum ec vid_hdr bitflips = Inl EINVAL"
    if "aeb_walk (vh_lnum vid_hdr) (av_root av) = Some aeb" "aeb_sqnum aeb = vh_sqnum vid_hdr" for ec
    using that av cmp [OF that(2)]
    by (simp add: ubi_add_to_av_def Let_def)
  have add: "scan_peb_add env s pnum vid_hdr ec1 bitflips ec_err = Inl EINVAL"
    if "aeb_walk (vh_lnum vid_hdr) (av_root av) = Some aeb" "aeb_sqnum aeb = vh_sqnum vid_hdr"
    using dup [OF that] by (simp add: scan_peb_add_def)
  have new: "\<exists>s'. ubi_add_to_av env s pnum ec vid_hdr bitflips = Inr s'"
    if "aeb_walk (vh_lnum vid_hdr) (av_root av) = None" "validate_vid_hdr vid_hdr av pnum = None"
      "kmem_cache_alloc env (allocs s) \<noteq> None"
    using that av by (auto simp: ubi_add_to_av_def Let_def)
  show ?thesis
    using cmp dup add new scan_all_aborts [of env s0 start pnum sk EINVAL] by auto
qed

theorem ubi_add_to_av_duplicate_sqnum_witness:
  "ubi_add_to_av (dup_env 7) (dup_state 7) 1 10 (mk_vid_hdr 0 0 7 0 0) False = Inl EINVAL
   \<and> scan_all (dup_env 7) (sample_state 2) 0 = Inl EINVAL
   \<and> ubi_compare_lebs (dup_env 0) (dup_state 0) (dup_aeb 0) 1 (mk_vid_hdr 0 0 0 0 0) = Inl EINVAL
   \<and> (\<exists>s'. ubi_add_to_av (dup_env 0) (dup_state 0) 1 10 (mk_vid_hdr 0 1 0 0 0) False = Inr s')"
proof -
  have vol7: "av_walk (vh_vol_id (mk_vid_hdr 0 0 7 0 0)) (volumes (ai (dup_state 7))) = Some (dup_av 7)"
    by code_simp
  have leb7: "aeb_walk (vh_lnum (mk_vid_hdr 0 0 7 0 0)) (av_root (dup_av 7)) = Some (dup_aeb 7)
              \<and> aeb_sqnum (dup_aeb 7) = vh_sqnum (mk_vid_hdr 0 0 7 0 0)"
    by code_simp
  have scan7: "kzalloc (dup_env 7) (allocs (sample_state 2))
      \<and> ubi_zalloc_vid_hdr (dup_env 7) (Suc (allocs (sample_state 2)))
      \<and> for_loop (\<lambda>pnum s'. scan_peb (dup_env 7) s' pnum) 0 1
           ((sample_state 2)\<lparr>allocs := Suc (Suc (allocs (sample_state 2)))\<rparr>) = Inr (dup_scan_state 7)
      \<and> 0 \<le>s (1 :: s32) \<and> 1 <s peb_count (ubi (sample_state 2))
      \<and> scan_peb (dup_env 7) (dup_scan_state 7) 1
          = scan_peb_add (dup_env 7) (dup_state 7) 1 (mk_vid_hdr 0 0 7 0 0) 10 False IO_OK"
    by code_simp
  have vol0: "av_walk (vh_vol_id (mk_vid_hdr 0 0 0 0 0)) (volumes (ai (dup_state 0))) = Some (dup_av 0)"
    by code_simp
  have leb0: "aeb_walk (vh_lnum (mk_vid_hdr 0 0 0 0 0)) (av_root (dup_av 0)) = Some (dup_aeb 0)
              \<and> aeb_sqnum (dup_aeb 0) = vh_sqnum (mk_vid_hdr 0 0 0 0 0)"
    by code_simp
  have vol1: "av_walk (vh_vol_id (mk_vid_hdr 0 1 0 0 0)) (volumes (ai (dup_state 0))) = Some (dup_av 0)"
    by code_simp
  have new1: "aeb_walk (vh_lnum (mk_vid_hdr 0 1 0 0 0)) (av_root (dup_av 0)) = None
      \<and> validate_vid_hdr (mk_vid_hdr 0 1 0 0 0) (dup_av 0) 1 = None
      \<and> kmem_cache_alloc (dup_env 0) (allocs (dup_state 0)) \<noteq> None"
    by code_simp
  show ?thesis
    using ubi_add_to_av_duplicate_sqnum [OF vol7, of "dup_aeb 7" "dup_env 7" 1 10 False
        "dup_state 7" 10 IO_OK "sample_state 2" 0 "dup_scan_state 7"] leb7 scan7
      ubi_add_to_av_duplicate_sqnum [OF vol0, of "dup_aeb 0" "dup_env 0" 1 10 False
        "dup_state 0" 10 IO_OK "sample_state 2" 0 "dup_scan_state 0"] leb0
      ubi_add_to_av_duplicate_sqnum [OF vol1, of "dup_aeb 0" "dup_env 0" 1 10 False
        "dup_state 0" 10 IO_OK "sample_state 2" 0 "dup_scan_state 0"] new1
    by blast
qed

text \<open>
  C2 as the specification states it fails for a pair of eraseblocks that are not
  compared: the eraseblocks 0 and 2 both claim logical eraseblock 0 of volume 0 with
  the sequence number 5, eraseblock 1 claims it with the sequence number 7.  The scan
  succeeds: eraseblock 1 is in the tree, and the eraseblocks 0 and 2 are on the erase
  list.
\<close>

theorem scan_all_duplicate_sqnum_counterexample:
  "map (\<lambda>pnum. case snd (ubi_io_read_vid_hdr dup3_env [] pnum) of vh \<Rightarrow>
                  (vh_vol_id vh, vh_lnum vh, vh_sqnum vh)) [0, 2] = [(0, 0, 5), (0, 0, 5)]
   \<and> map_sum id (\<lambda>s. (map (\<lambda>av. map (\<lambda>aeb. (aeb_pnum aeb, aeb_sqnum aeb)) (inorder (av_root av)))
                           (inorder (volumes (ai s))),
                      map aeb_pnum (erase (ai s))))
       (scan_all dup3_env (sample_state 3) 0) = Inr ([[(1, 7)]], [0, 2])"
  by code_simp

section \<open>The volume tree and the trees of logical eraseblocks\<close>

lemma sint_eq_iff: "sint (a :: s32) = sint b \<longleftrightarrow> a = b"
  by (auto intro: signed_word_eqI)

lemma descending_Node:
  "descending (vol_ids (Node l a r)) \<longleftrightarrow>
     descending (vol_ids l) \<and> descending (vol_ids r)
     \<and> (\<forall>x \<in> set (inorder l). sint (av_vol_id a) < sint (av_vol_id x))
     \<and> (\<forall>y \<in> set (inorder r). sint (av_vol_id y) < sint (av_vol_id a))
     \<and> (\<forall>x \<in> set (inorder l). \<forall>y \<in> set (inorder r). sint (av_vol_id y) < sint (av_vol_id x))"
  by (auto simp: descending_def vol_ids_def sorted_wrt_append)

lemma ascending_Node:
  "ascending (lnums (Node l a r)) \<longleftrightarrow>
     ascending (lnums l) \<and> ascending (lnums r)
     \<and> (\<forall>x \<in> set (inorder l). sint (aeb_lnum x) < sint (aeb_lnum a))
     \<and> (\<forall>y \<in> set (inorder r). sint (aeb_lnum a) < sint (aeb_lnum y))
     \<and> (\<forall>x \<in> set (inorder l). \<forall>y \<in> set (inorder r). sint (aeb_lnum x) < sint (aeb_lnum y))"
  by (auto simp: ascending_def lnums_def sorted_wrt_append)

lemma av_walk_finds:
  "descending (vol_ids t) \<Longrightarrow> av \<in> set (inorder t) \<Longrightarrow> av_walk (av_vol_id av) t = Some av"
proof (induction t)
  case Leaf
  then show ?case by simp
next
  case (Node l a r)
  note d = Node.prems(1) [unfolded descending_Node]
  consider "av = a" | "av \<in> set (inorder l)" | "av \<in> set (inorder r)"
    using Node.prems(2) by auto
  then show ?case
  proof cases
    case 1
    then show ?thesis by simp
  next
    case 2
    then have lt: "sint (av_vol_id a) < sint (av_vol_id av)" using d by blast
    then have "av_vol_id av \<noteq> av_vol_id a" by auto
    moreover have "av_vol_id a <s av_vol_id av" using lt by (simp add: word_sless_alt)
    moreover have "av_walk (av_vol_id av) l = Some av" using Node.IH(1) d 2 by blast
    ultimately show ?thesis by simp
  next
    case 3
    then have lt: "sint (av_vol_id av) < sint (av_vol_id a)" using d by blast
    then have "av_vol_id av \<noteq> av_vol_id a" by auto
    moreover have "\<not> av_vol_id a <s av_vol_id av" using lt by (simp add: word_sless_alt)
    moreover have "av_walk (av_vol_id av) r = Some av" using Node.IH(2) d 3 by blast
    ultimately show ?thesis by simp
  qed
qed

lemma av_walk_Some:
  "av_walk vol_id t = Some av \<Longrightarrow> av \<in> set (inorder t) \<and> av_vol_id av = vol_id"
  by (induction t) (auto split: if_splits)

lemma av_walk_None:
  assumes "descending (vol_ids t)" and "av_walk vol_id t = None"
  shows "\<forall>x \<in> set (inorder t). av_vol_id x \<noteq> vol_id"
proof
  fix x assume "x \<in> set (inorder t)"
  then have "av_walk (av_vol_id x) t = Some x" using assms(1) by (rule av_walk_finds [rotated])
  then show "av_vol_id x \<noteq> vol_id" using assms(2) by auto
qed

lemma av_link_set_inorder: "set (inorder (av_link new t)) = insert new (set (inorder t))"
  by (induction t) auto

lemma av_link_descending:
  "descending (vol_ids t) \<Longrightarrow> \<forall>x \<in> set (inorder t). av_vol_id x \<noteq> av_vol_id new
     \<Longrightarrow> descending (vol_ids (av_link new t))"
proof (induction t)
  case Leaf
  then show ?case by (simp add: descending_def vol_ids_def)
next
  case (Node l a r)
  note d = Node.prems(1) [unfolded descending_Node]
  have ne: "sint (av_vol_id a) \<noteq> sint (av_vol_id new)"
    using Node.prems(2) by (simp add: sint_eq_iff)
  show ?case
  proof (cases "av_vol_id a <s av_vol_id new")
    case True
    then have lt: "sint (av_vol_id a) < sint (av_vol_id new)" by (simp add: word_sless_alt)
    have l: "descending (vol_ids (av_link new l))"
      using Node.IH(1) d Node.prems(2) by simp
    have r: "\<forall>y \<in> set (inorder r). sint (av_vol_id y) < sint (av_vol_id new)"
      using d lt by fastforce
    have "descending (vol_ids (Node (av_link new l) a r))"
      unfolding descending_Node av_link_set_inorder using l d lt r by blast
    then show ?thesis using True by simp
  next
    case False
    then have lt: "sint (av_vol_id new) < sint (av_vol_id a)"
      using ne by (simp add: word_sless_alt)
    have r: "descending (vol_ids (av_link new r))"
      using Node.IH(2) d Node.prems(2) by simp
    have l: "\<forall>x \<in> set (inorder l). sint (av_vol_id new) < sint (av_vol_id x)"
      using d lt by fastforce
    have "descending (vol_ids (Node l a (av_link new r)))"
      unfolding descending_Node av_link_set_inorder using r d lt l by blast
    then show ?thesis using False by simp
  qed
qed

lemma av_store_ids: "vol_ids (av_store new t) = vol_ids t"
  by (induction t) (auto simp: vol_ids_def)

lemma av_store_set: "set_tree (av_store new t) \<subseteq> insert new (set_tree t)"
  by (induction t) auto

lemma av_link_set [simp]: "set_tree (av_link new t) = insert new (set_tree t)"
  by (induction t) auto

lemma aeb_link_set [simp]: "set_tree (aeb_link new t) = insert new (set_tree t)"
  by (induction t) auto

lemma aeb_walk_Some:
  "aeb_walk lnum t = Some aeb \<Longrightarrow> aeb \<in> set (inorder t) \<and> aeb_lnum aeb = lnum"
  by (induction t) (auto split: if_splits)

lemma aeb_walk_finds:
  "ascending (lnums t) \<Longrightarrow> aeb \<in> set (inorder t) \<Longrightarrow> aeb_walk (aeb_lnum aeb) t = Some aeb"
proof (induction t)
  case Leaf
  then show ?case by simp
next
  case (Node l a r)
  note d = Node.prems(1) [unfolded ascending_Node]
  consider "aeb = a" | "aeb \<in> set (inorder l)" | "aeb \<in> set (inorder r)"
    using Node.prems(2) by auto
  then show ?case
  proof cases
    case 1
    then show ?thesis by simp
  next
    case 2
    then have lt: "sint (aeb_lnum aeb) < sint (aeb_lnum a)" using d by blast
    then have "aeb_lnum aeb \<noteq> aeb_lnum a" by auto
    moreover have "aeb_lnum aeb <s aeb_lnum a" using lt by (simp add: word_sless_alt)
    moreover have "aeb_walk (aeb_lnum aeb) l = Some aeb" using Node.IH(1) d 2 by blast
    ultimately show ?thesis by simp
  next
    case 3
    then have lt: "sint (aeb_lnum a) < sint (aeb_lnum aeb)" using d by blast
    then have "aeb_lnum aeb \<noteq> aeb_lnum a" by auto
    moreover have "\<not> aeb_lnum aeb <s aeb_lnum a" using lt by (simp add: word_sless_alt)
    moreover have "aeb_walk (aeb_lnum aeb) r = Some aeb" using Node.IH(2) d 3 by blast
    ultimately show ?thesis by simp
  qed
qed

lemma aeb_walk_None:
  assumes "ascending (lnums t)" and "aeb_walk lnum t = None"
  shows "\<forall>x \<in> set (inorder t). aeb_lnum x \<noteq> lnum"
proof
  fix x assume "x \<in> set (inorder t)"
  then have "aeb_walk (aeb_lnum x) t = Some x" using assms(1) by (rule aeb_walk_finds [rotated])
  then show "aeb_lnum x \<noteq> lnum" using assms(2) by auto
qed

lemma aeb_link_set_inorder: "set (inorder (aeb_link new t)) = insert new (set (inorder t))"
  by (induction t) auto

lemma aeb_link_ascending:
  "ascending (lnums t) \<Longrightarrow> \<forall>x \<in> set (inorder t). aeb_lnum x \<noteq> aeb_lnum new
     \<Longrightarrow> ascending (lnums (aeb_link new t))"
proof (induction t)
  case Leaf
  then show ?case by (simp add: ascending_def lnums_def)
next
  case (Node l a r)
  note d = Node.prems(1) [unfolded ascending_Node]
  have ne: "sint (aeb_lnum a) \<noteq> sint (aeb_lnum new)"
    using Node.prems(2) by (simp add: sint_eq_iff)
  show ?case
  proof (cases "aeb_lnum new <s aeb_lnum a")
    case True
    then have lt: "sint (aeb_lnum new) < sint (aeb_lnum a)" by (simp add: word_sless_alt)
    have l: "ascending (lnums (aeb_link new l))"
      using Node.IH(1) d Node.prems(2) by simp
    have r: "\<forall>y \<in> set (inorder r). sint (aeb_lnum new) < sint (aeb_lnum y)"
      using d lt by fastforce
    have "ascending (lnums (Node (aeb_link new l) a r))"
      unfolding ascending_Node aeb_link_set_inorder using l d lt r by blast
    then show ?thesis using True by simp
  next
    case False
    then have lt: "sint (aeb_lnum a) < sint (aeb_lnum new)"
      using ne by (simp add: word_sless_alt)
    have r: "ascending (lnums (aeb_link new r))"
      using Node.IH(2) d Node.prems(2) by simp
    have l: "\<forall>x \<in> set (inorder l). sint (aeb_lnum x) < sint (aeb_lnum new)"
      using d lt by fastforce
    have "ascending (lnums (Node l a (aeb_link new r)))"
      unfolding ascending_Node aeb_link_set_inorder using r d lt l by blast
    then show ?thesis using False by simp
  qed
qed

lemma aeb_store_lnums:
  "aeb_lnum new = lnum \<Longrightarrow> lnums (aeb_store lnum new t) = lnums t"
  by (induction t) (simp_all add: lnums_def)

lemma trees_ordered_volumes:
  "volumes a = volumes b \<Longrightarrow> trees_ordered a = trees_ordered b"
  by (simp add: trees_ordered_def)

lemma add_volume_result:
  assumes rb: "rb_contract env" and ord: "descending (vol_ids (volumes (ai s)))"
    and add: "add_volume env s vol_id pnum vid_hdr = Inr (av, s')"
  shows "descending (vol_ids (volumes (ai s')))
       \<and> av \<in> set (inorder (volumes (ai s'))) \<and> av_vol_id av = vol_id
       \<and> set (inorder (volumes (ai s'))) \<subseteq> insert av (set (inorder (volumes (ai s))))
       \<and> (av \<notin> set (inorder (volumes (ai s))) \<longrightarrow> av_root av = Leaf)"
proof (cases "av_walk vol_id (volumes (ai s))")
  case (Some a)
  then have "av = a" "s' = s" using add by (simp_all add: add_volume_def)
  then show ?thesis using Some ord av_walk_Some [OF Some] by auto
next
  case None
  then obtain mem where mem: "kmalloc_av env (allocs s) = Some mem"
    using add by (auto simp: add_volume_def split: option.splits)
  have id: "av_vol_id av = vol_id" and root: "av_root av = Leaf"
    and vol: "volumes (ai s') = rb_insert_color_av env av (av_link av (volumes (ai s)))"
    using add None mem by (auto simp: add_volume_def Let_def)
  have ino: "inorder (volumes (ai s')) = inorder (av_link av (volumes (ai s)))"
    using rb vol by (simp add: rb_contract_def)
  have "\<forall>x \<in> set (inorder (volumes (ai s))). av_vol_id x \<noteq> av_vol_id av"
    using av_walk_None [OF ord None] id by simp
  then have "descending (vol_ids (av_link av (volumes (ai s))))"
    using ord by (rule av_link_descending [rotated])
  then have "descending (vol_ids (volumes (ai s')))"
    using ino by (simp add: vol_ids_def)
  moreover have "set (inorder (volumes (ai s'))) = insert av (set (inorder (volumes (ai s))))"
    using ino by simp
  ultimately show ?thesis using id root by simp
qed

lemma add_to_list_ordered:
  assumes "add_to_list env s pnum vol_id lnum ec to_head list = Inr s'"
  shows "trees_ordered (ai s') = trees_ordered (ai s)"
  using add_to_list_frame [OF assms] by (simp add: trees_ordered_def)

lemma put_av_ordered:
  assumes "trees_ordered (ai s)" and "ascending (lnums (av_root av))"
  shows "trees_ordered (ai (put_av av s))"
proof -
  have "set (inorder (volumes (ai (put_av av s)))) \<subseteq> insert av (set (inorder (volumes (ai s))))"
    using av_store_set [of av "volumes (ai s)"] by (simp add: put_av_def)
  moreover have "vol_ids (volumes (ai (put_av av s))) = vol_ids (volumes (ai s))"
    by (simp add: put_av_def av_store_ids)
  ultimately show ?thesis
    using assms unfolding trees_ordered_def by auto
qed

lemma add_volume_ordered:
  assumes rb: "rb_contract env" and ord: "trees_ordered (ai s)"
    and add: "add_volume env s vol_id pnum vid_hdr = Inr (av, s')"
  shows "trees_ordered (ai s') \<and> ascending (lnums (av_root av))"
proof -
  note r = add_volume_result [OF rb _ add]
  have d: "descending (vol_ids (volumes (ai s)))" using ord by (simp add: trees_ordered_def)
  have leaf: "ascending (lnums Leaf)" by (simp add: ascending_def lnums_def)
  have av: "ascending (lnums (av_root av))"
    using r [OF d] ord leaf unfolding trees_ordered_def by (cases "av \<in> set (inorder (volumes (ai s)))") auto
  have "\<forall>x \<in> set (inorder (volumes (ai s'))). ascending (lnums (av_root x))"
    using r [OF d] ord av unfolding trees_ordered_def by auto
  then show ?thesis using r [OF d] av by (simp add: trees_ordered_def)
qed


lemma ubi_add_to_av_ordered:
  assumes rb: "rb_contract env" and ord: "trees_ordered (ai s)"
    and add: "ubi_add_to_av env s pnum ec vid_hdr bitflips = Inr s'"
  shows "trees_ordered (ai s')"
proof -
  let ?lnum = "vh_lnum vid_hdr"
  obtain av s1 where av: "add_volume env s (vh_vol_id vid_hdr) pnum vid_hdr = Inr (av, s1)"
    using add by (auto simp: ubi_add_to_av_def Let_def split: sum.splits)
  note o1 = add_volume_ordered [OF rb ord av]
  let ?s2 = "if max_sqnum (ai s1) < vh_sqnum vid_hdr
             then s1\<lparr>ai := (ai s1)\<lparr>max_sqnum := vh_sqnum vid_hdr\<rparr>\<rparr> else s1"
  have o2: "trees_ordered (ai ?s2)"
    using o1 by (simp add: trees_ordered_def)
  show ?thesis
  proof (cases "aeb_walk ?lnum (av_root av)")
    case None
    then obtain mem where mem: "kmem_cache_alloc env (allocs ?s2) = Some mem"
      using add av by (auto simp: ubi_add_to_av_def Let_def split: option.splits)
    let ?aeb = "mem\<lparr>aeb_ec := ec, aeb_pnum := pnum, aeb_vol_id := vh_vol_id vid_hdr,
                     aeb_lnum := ?lnum, aeb_scrub := bitflips,
                     aeb_copy_flag := ((vh_copy_flag vid_hdr AND 1) \<noteq> 0),
                     aeb_sqnum := vh_sqnum vid_hdr\<rparr>"
    obtain av3 where s': "s' = put_av av3 (?s2\<lparr>allocs := Suc (allocs ?s2)\<rparr>)"
      and root: "av_root av3 = rb_insert_color_aeb env ?aeb (aeb_link ?aeb (av_root av))"
      using add av None mem
      by (auto simp: ubi_add_to_av_def Let_def split: option.splits)
    have "\<forall>x \<in> set (inorder (av_root av)). aeb_lnum x \<noteq> aeb_lnum ?aeb"
      using aeb_walk_None [OF _ None] o1 by simp
    then have "ascending (lnums (aeb_link ?aeb (av_root av)))"
      using o1 by (intro aeb_link_ascending) simp_all
    then have "ascending (lnums (av_root av3))"
      using rb root by (simp add: rb_contract_def lnums_def)
    moreover have "trees_ordered (ai (?s2\<lparr>allocs := Suc (allocs ?s2)\<rparr>))"
      using o2 by simp
    ultimately show ?thesis unfolding s' by (rule put_av_ordered [rotated])
  next
    case (Some aeb)
    then obtain cmp_res s3 where cmp: "ubi_compare_lebs env ?s2 aeb pnum vid_hdr = Inr (cmp_res, s3)"
      using add av by (auto simp: ubi_add_to_av_def Let_def split: if_splits sum.splits)
    have s3: "ai s3 = ai ?s2" using ubi_compare_lebs_frame [OF cmp] by simp
    show ?thesis
    proof (cases "(cmp_res AND 1) \<noteq> 0")
      case False
      then have "add_to_list env s3 pnum (vh_vol_id vid_hdr) ?lnum ec ((cmp_res AND 4) \<noteq> 0)
                   LIST_ERASE = Inr s'"
        using add av Some cmp by (auto simp: ubi_add_to_av_def Let_def split: if_splits)
      then have "volumes (ai s') = volumes (ai s3)" by (simp add: add_to_list_frame)
      then show ?thesis
        using o2 s3 trees_ordered_volumes [of "ai s'" "ai ?s2"] by simp
    next
      case True
      have nd: "\<not> (aeb_sqnum aeb = vh_sqnum vid_hdr \<and> vh_sqnum vid_hdr \<noteq> 0)"
        using add av Some by (auto simp: ubi_add_to_av_def Let_def split: if_splits)
      have o3: "trees_ordered (ai s3)" using o2 s3 by simp
      have keep: "ascending (lnums (av_root (av\<lparr>av_root := aeb_store ?lnum aeb1 (av_root av)\<rparr>)))"
        if "aeb_lnum aeb1 = ?lnum" for aeb1
        using o1 that by (simp add: aeb_store_lnums)
      show ?thesis
        using add av Some cmp True nd o3
        by (auto simp: ubi_add_to_av_def Let_def aeb_store_lnums o1 add_to_list_ordered
            split: if_splits option.splits sum.splits intro!: put_av_ordered)
    qed
  qed
qed

lemma run_calls_ordered:
  "rb_contract env \<Longrightarrow> trees_ordered (ai s) \<Longrightarrow> run_calls env s cs = Inr s'
     \<Longrightarrow> trees_ordered (ai s')"
proof (induction env s cs rule: run_calls.induct)
  case (1 env s)
  then show ?case by simp
next
  case (2 env s vol_id pnum vid_hdr cs)
  then obtain av s1 where a: "add_volume env s vol_id pnum vid_hdr = Inr (av, s1)"
    and r: "run_calls env s1 cs = Inr s'"
    by (auto split: sum.splits)
  have "trees_ordered (ai s1)" using add_volume_ordered [OF "2.prems"(1,2) a] by simp
  then show ?case using "2.IH" a r "2.prems"(1) by simp
next
  case (3 env s pnum ec vid_hdr bitflips cs)
  then obtain s1 where a: "ubi_add_to_av env s pnum ec vid_hdr bitflips = Inr s1"
    and r: "run_calls env s1 cs = Inr s'"
    by (auto split: sum.splits)
  have "trees_ordered (ai s1)" using ubi_add_to_av_ordered [OF "3.prems"(1,2) a] .
  then show ?case using "3.IH" a r "3.prems"(1) by simp
qed

lemma rb_contract_blank_env: "rb_contract blank_env"
  by (simp add: rb_contract_def blank_env_def sample_env_def)

text \<open>
  C9.  In a state whose volume tree is ordered (greater volume IDs first, as
  \<^verbatim>\<open>add_volume\<close> keeps it), and with a rebalancing that keeps the in-order sequence:
  when \<^verbatim>\<open>add_volume\<close> returns a volume, found or newly added, \<^verbatim>\<open>ubi_find_av\<close> in
  the resulting attaching information returns that volume.
\<close>

theorem add_volume_find_av:
  assumes "rb_contract env" and "descending (vol_ids (volumes (ai s)))"
    and "add_volume env s vol_id pnum vid_hdr = Inr (av, s')"
  shows "ubi_find_av (ai s') vol_id = Some av"
proof -
  note r = add_volume_result [OF assms]
  then have "av_walk (av_vol_id av) (volumes (ai s')) = Some av"
    by (intro av_walk_finds) simp_all
  then show ?thesis using r by (simp add: ubi_find_av_def)
qed

theorem add_volume_find_av_witness:
  "\<exists>av s'. add_volume blank_env two_vol_state 5 2 (mk_vid_hdr 5 0 3 0 0) = Inr (av, s')
      \<and> ubi_find_av (ai s') 5 = Some av"
proof -
  have d: "descending (vol_ids (volumes (ai two_vol_state)))" by code_simp
  have "case add_volume blank_env two_vol_state 5 2 (mk_vid_hdr 5 0 3 0 0) of
          Inl e \<Rightarrow> False | Inr p \<Rightarrow> True"
    by code_simp
  then obtain av s' where a: "add_volume blank_env two_vol_state 5 2 (mk_vid_hdr 5 0 3 0 0) = Inr (av, s')"
    by (cases "add_volume blank_env two_vol_state 5 2 (mk_vid_hdr 5 0 3 0 0)") auto
  show ?thesis
    using add_volume_find_av [OF rb_contract_blank_env d a] a by blast
qed

text \<open>
  C8, as the code has it.  After any sequence of calls of \<^verbatim>\<open>add_volume\<close> and
  \<^verbatim>\<open>ubi_add_to_av\<close> that starts from an empty volume tree, the in-order traversal
  of the volume tree visits the volumes in descending order of their IDs (a greater
  ID is linked to the left), and the in-order traversal of every volume's tree visits
  the logical eraseblocks in ascending order of their LEB numbers.
\<close>

theorem run_calls_traversal:
  assumes "rb_contract env" and "volumes (ai s) = Leaf" and "run_calls env s cs = Inr s'"
  shows "descending (vol_ids (volumes (ai s')))
       \<and> (\<forall>av \<in> set (inorder (volumes (ai s'))). ascending (lnums (av_root av)))"
proof -
  have "trees_ordered (ai s)"
    using assms(2) by (simp add: trees_ordered_def descending_def vol_ids_def)
  then have "trees_ordered (ai s')" using assms(1,3) run_calls_ordered by blast
  then show ?thesis by (simp add: trees_ordered_def)
qed

theorem run_calls_traversal_witness:
  "run_calls blank_env (sample_state 4) leb_calls = Inr leb_state
   \<and> vol_ids (volumes (ai leb_state)) = [2, 1]
   \<and> map (\<lambda>av. lnums (av_root av)) (inorder (volumes (ai leb_state))) = [[0], [0, 2]]
   \<and> descending (vol_ids (volumes (ai leb_state)))"
proof -
  have run: "run_calls blank_env (sample_state 4) leb_calls = Inr leb_state" by code_simp
  have leaf: "volumes (ai (sample_state 4)) = Leaf" by code_simp
  have ids: "vol_ids (volumes (ai leb_state)) = [2, 1]" by code_simp
  have ls: "map (\<lambda>av. lnums (av_root av)) (inorder (volumes (ai leb_state))) = [[0], [0, 2]]"
    by code_simp
  show ?thesis
    using run_calls_traversal [OF rb_contract_blank_env leaf run] run ids ls by blast
qed

text \<open>
  C8 as the specification states it fails for the volume tree: after volume 1 and
  volume 2 have been added, the traversal visits volume 2 before volume 1.
\<close>

theorem volumes_ascending_counterexample:
  "run_calls blank_env (sample_state 4) two_vol_calls = Inr two_vol_state
   \<and> vol_ids (volumes (ai two_vol_state)) = [2, 1]
   \<and> \<not> ascending (vol_ids (volumes (ai two_vol_state)))"
  by code_simp

section \<open>The alien list and its counter\<close>

lemma alien_step_0:
  "alien (ai s') = alien (ai s) \<Longrightarrow> alien_peb_count (ai s') = alien_peb_count (ai s)
     \<Longrightarrow> alien_step s s' 0"
  by (simp add: alien_step_def)

lemma scan_frame_same:
  "ubi s' = ubi s \<Longrightarrow> mean_ec (ai s') = mean_ec (ai s) \<Longrightarrow> alien (ai s') = alien (ai s)
     \<Longrightarrow> alien_peb_count (ai s') = alien_peb_count (ai s) \<Longrightarrow> scan_frame s s'"
  by (simp add: scan_frame_def alien_step_def)

lemma scan_frame_cong:
  "scan_frame s1 s' \<Longrightarrow> peb_count (ubi s1) = peb_count (ubi s) \<Longrightarrow> mean_ec (ai s1) = mean_ec (ai s)
     \<Longrightarrow> alien (ai s1) = alien (ai s) \<Longrightarrow> alien_peb_count (ai s1) = alien_peb_count (ai s)
     \<Longrightarrow> scan_frame s s'"
  by (simp add: scan_frame_def alien_step_def)

lemma add_to_list_scan_frame:
  assumes "add_to_list env s pnum vol_id lnum ec to_head list = Inr s'"
  shows "scan_frame s s'"
proof (cases "list = LIST_ALIEN")
  case False
  then show ?thesis using add_to_list_frame [OF assms] by (simp add: scan_frame_same)
next
  case True
  then have "alien_step s s' 1"
    using assms
    by (auto simp: add_to_list_def alien_step_def Let_def list_of_def list_set_def
        list_add_def list_add_tail_def split: option.splits)
  then show ?thesis using add_to_list_frame [OF assms] by (simp add: scan_frame_def)
qed

lemma check_corruption_frame:
  assumes "check_corruption env s vidh pnum = Inr (r, s')"
  shows "ubi s' = ubi s \<and> ai s' = ai s"
  using assms by (auto simp: check_corruption_def Let_def split: if_splits prod.splits)

lemma scan_peb_add_scan_frame:
  assumes "scan_peb_add env s pnum vidh ec bitflips ec_err = Inr s'"
  shows "scan_frame s s'"
  using scan_peb_add_frame [OF assms] by (simp add: scan_frame_same)

lemma scan_peb_vol_scan_frame:
  assumes "scan_peb_vol env s pnum vidh ec bitflips ec_err = Inr s'"
  shows "scan_frame s s'"
proof -
  have ro: "scan_frame s s'"
    if "scan_peb_add env (s\<lparr>ubi := (ubi s)\<lparr>ro_mode := 1\<rparr>\<rparr>) pnum vidh ec bitflips ec_err = Inr s'"
    using scan_peb_add_scan_frame [OF that] by (rule scan_frame_cong) simp_all
  show ?thesis
    using assms ro
    by (auto simp: scan_peb_vol_def Let_def split: if_splits
        dest: add_to_list_scan_frame scan_peb_add_scan_frame)
qed

lemma adjust_mean_ec_scan_frame:
  "scan_frame s s1 \<Longrightarrow> scan_frame s (adjust_mean_ec s1 ec_err ec)"
  by (simp add: scan_frame_def alien_step_def)

lemma scan_peb_bad_vid_scan_frame:
  assumes "scan_peb_bad_vid env s pnum vidh ec ec_err = Inr s'"
  shows "scan_frame s s'"
proof -
  obtain err s1 where c: "(if ec_err \<noteq> IO_OK then Inr (False, s)
                           else check_corruption env s vidh pnum) = Inr (err, s1)"
    using assms by (auto simp: scan_peb_bad_vid_def split: sum.splits)
  then have s1: "ubi s1 = ubi s \<and> ai s1 = ai s"
    by (auto split: if_splits dest: check_corruption_frame)
  obtain s2 where a: "(if \<not> err then
                  add_to_list env s1 pnum UBI_UNKNOWN UBI_UNKNOWN (ucast ec) True
                    (if CONFIG_MTD_UBI_LOWPAGE_BACKUP env then LIST_WAITING else LIST_ERASE)
                else add_corrupted env s1 pnum (ucast ec)) = Inr s2"
    and s': "s' = adjust_mean_ec s2 ec_err ec"
    using assms c by (auto simp: scan_peb_bad_vid_def split: sum.splits)
  have "scan_frame s1 s2"
    using a by (auto split: if_splits dest: add_to_list_scan_frame
        dest!: add_corrupted_frame intro: scan_frame_same)
  then have "scan_frame s s2" using s1 scan_frame_cong [of s1 s2 s] by simp
  then show ?thesis unfolding s' by (rule adjust_mean_ec_scan_frame)
qed

lemma scan_peb_vid_scan_frame:
  assumes "scan_peb_vid env s pnum ec bitflips ec_err = Inr s'"
  shows "scan_frame s s'"
proof -
  obtain err vidh where rd: "ubi_io_read_vid_hdr env (io_log s) pnum = (err, vidh)"
    by (cases "ubi_io_read_vid_hdr env (io_log s) pnum")
  let ?s1 = "s\<lparr>io_log := io_log s @ [OP_READ_VID_HDR pnum]\<rparr>"
  let ?s1m = "?s1\<lparr>ai := (ai ?s1)\<lparr>maybe_bad_peb_count := maybe_bad_peb_count (ai ?s1) + 1\<rparr>\<rparr>"
  have up: "scan_frame s s'" if "scan_frame ?s1 s'"
    using that by (rule scan_frame_cong) simp_all
  have upm: "scan_frame s s'" if "scan_frame ?s1m s'"
    using that by (rule scan_frame_cong) simp_all
  have adj: "scan_frame s s'"
    if "add_to_list env ?s1 pnum UBI_UNKNOWN UBI_UNKNOWN (ucast ec) h l = Inr s2"
      "s' = adjust_mean_ec s2 ec_err ec" for h l s2
    using add_to_list_scan_frame [OF that(1)] that(2) up adjust_mean_ec_scan_frame by blast
  show ?thesis
    using assms rd up upm adj
    by (auto simp: scan_peb_vid_def Let_def split: io_code.splits sum.splits if_splits
        dest: scan_peb_vol_scan_frame scan_peb_bad_vid_scan_frame)
qed

lemma scan_peb_ec_scan_frame:
  assumes "scan_peb_ec env s pnum ech bitflips = Inr s'"
  shows "scan_frame s s'"
proof -
  let ?s1 = "if image_seq (ubi s) = 0 then s\<lparr>ubi := (ubi s)\<lparr>image_seq := eh_image_seq ech\<rparr>\<rparr> else s"
  have "scan_peb_vid env ?s1 pnum (eh_ec ech) bitflips IO_OK = Inr s'"
    using assms by (auto simp: scan_peb_ec_def Let_def split: if_splits)
  then have "scan_frame ?s1 s'" by (rule scan_peb_vid_scan_frame)
  then show ?thesis by (rule scan_frame_cong) simp_all
qed

lemma scan_peb_scan_frame:
  assumes "scan_peb env s pnum = Inr s'"
  shows "scan_frame s s'"
proof -
  obtain err ech where rd:
    "ubi_io_read_ec_hdr env (io_log s @ [OP_IS_BAD pnum]) pnum = (err, ech)"
    by (cases "ubi_io_read_ec_hdr env (io_log s @ [OP_IS_BAD pnum]) pnum")
  let ?s0 = "s\<lparr>io_log := io_log s @ [OP_IS_BAD pnum]\<rparr>"
  let ?s1 = "?s0\<lparr>io_log := io_log ?s0 @ [OP_READ_EC_HDR pnum]\<rparr>"
  let ?s2 = "?s1\<lparr>ai := (ai ?s1)\<lparr>empty_peb_count := empty_peb_count (ai ?s1) + 1\<rparr>\<rparr>"
  have up1: "scan_frame s s'" if "scan_frame ?s1 s'"
    using that by (rule scan_frame_cong) simp_all
  have up2: "scan_frame s s'" if "scan_frame ?s2 s'"
    using that by (rule scan_frame_cong) simp_all
  have bad: "scan_frame s (?s0\<lparr>ai := (ai ?s0)\<lparr>bad_peb_count := bad_peb_count (ai ?s0) + 1\<rparr>\<rparr>)"
    by (simp add: scan_frame_same)
  show ?thesis
    using assms rd up1 up2 bad
    by (auto simp: scan_peb_def Let_def split: io_code.splits sum.splits if_splits
        dest: scan_peb_ec_scan_frame scan_peb_vid_scan_frame add_to_list_scan_frame)
qed

lemma sint_Suc_below:
  fixes pnum bound :: s32
  assumes "pnum <s bound"
  shows "sint (pnum + 1) = sint pnum + 1"
proof -
  have "sint bound < 2 ^ 31" using sint_lt [of bound] by simp
  with assms have "sint pnum + 1 < 2 ^ 31" by (simp add: word_sless_alt)
  moreover have "- (2 ^ 31) \<le> sint pnum" using sint_ge [of pnum] by simp
  ultimately show ?thesis
    by (simp add: sint_word_add signed_take_bit_int_eq_self)
qed

lemma for_loop_invariant:
  "(\<forall>p x y. body p x = Inr y \<longrightarrow> P x \<longrightarrow> P y) \<Longrightarrow> P s
     \<Longrightarrow> for_loop body pnum bound s = Inr s' \<Longrightarrow> P s'"
proof (induction body pnum bound s rule: for_loop.induct)
  case (1 body pnum bound s)
  show ?case
  proof (cases "pnum <s bound")
    case True
    then obtain s1 where b: "body pnum s = Inr s1"
      and rest: "for_loop body (pnum + 1) bound s1 = Inr s'"
      using "1.prems"(3) by (subst (asm) for_loop.simps) (auto split: sum.splits)
    have "P s1" using "1.prems"(1,2) b by blast
    then show ?thesis using "1.IH" [OF True b "1.prems"(1) _ rest] by blast
  next
    case False
    then have "s' = s" using "1.prems"(3) by (subst (asm) for_loop.simps) simp
    then show ?thesis using "1.prems"(2) by simp
  qed
qed

lemma scan_loop_frame:
  "for_loop (\<lambda>pnum s'. scan_peb env s' pnum) pnum bound s = Inr s'
     \<Longrightarrow> peb_count (ubi s') = peb_count (ubi s) \<and> mean_ec (ai s') = mean_ec (ai s)
         \<and> (\<exists>k. int k \<le> max 0 (sint bound - sint pnum) \<and> alien_step s s' k)"
proof (induction "\<lambda>pnum s'. scan_peb env s' pnum" pnum bound s rule: for_loop.induct)
  case (1 pnum bound s)
  show ?case
  proof (cases "pnum <s bound")
    case True
    then obtain s1 where b: "scan_peb env s pnum = Inr s1"
      and rest: "for_loop (\<lambda>pnum s'. scan_peb env s' pnum) (pnum + 1) bound s1 = Inr s'"
      using "1.prems" by (subst (asm) for_loop.simps) (auto split: sum.splits)
    note f = scan_peb_scan_frame [OF b, unfolded scan_frame_def]
    note ih = "1.hyps" [OF True b rest]
    obtain k where k: "int k \<le> max 0 (sint bound - sint (pnum + 1))" "alien_step s1 s' k"
      using ih by blast
    obtain j where j: "j \<le> 1" "alien_step s s1 j"
      using f by auto
    have lt: "sint pnum < sint bound" using True by (simp add: word_sless_alt)
    have "int (j + k) \<le> max 0 (sint bound - sint pnum)"
      using k(1) j(1) lt sint_Suc_below [OF True] by simp
    moreover have "alien_step s s' (j + k)"
      using j(2) k(2) by (simp add: alien_step_def)
    ultimately have "\<exists>k. int k \<le> max 0 (sint bound - sint pnum) \<and> alien_step s s' k"
      by blast
    then show ?thesis using f ih by simp
  next
    case False
    then have "s' = s" using "1.prems" by (subst (asm) for_loop.simps) simp
    then show ?thesis by (auto simp: alien_step_def intro: exI [of _ 0])
  qed
qed

lemma self_check_vids_frame:
  "self_check_vids env av aebs last_vidh s = Inr (v, s') \<Longrightarrow> ai s' = ai s \<and> ubi s' = ubi s"
proof (induction aebs arbitrary: last_vidh s)
  case Nil
  then show ?case by simp
next
  case (Cons aeb rest)
  obtain err vidh where rd: "ubi_io_read_vid_hdr env (io_log s) (aeb_pnum aeb) = (err, vidh)"
    by (cases "ubi_io_read_vid_hdr env (io_log s) (aeb_pnum aeb)")
  have "self_check_vids env av rest (Some vidh)
          (s\<lparr>io_log := io_log s @ [OP_READ_VID_HDR (aeb_pnum aeb)]\<rparr>) = Inr (v, s')"
    using Cons.prems rd by (simp add: Let_def split: if_splits)
  from Cons.IH [OF this] show ?case by simp
qed

lemma self_check_avs_frame:
  "self_check_avs env avs s = Inr s' \<Longrightarrow> ai s' = ai s \<and> ubi s' = ubi s"
proof (induction avs arbitrary: s)
  case Nil
  then show ?case by simp
next
  case (Cons av rest)
  then obtain v s1 where v: "self_check_vids env av (inorder (av_root av)) None s = Inr (v, s1)"
    and r: "self_check_avs env rest s1 = Inr s'"
    by (auto split: sum.splits option.splits if_splits)
  show ?case using self_check_vids_frame [OF v] Cons.IH [OF r] by simp
qed

lemma self_check_bad_loop_frame:
  assumes "for_loop (self_check_bad env) pnum bound (buf, s) = Inr (buf', s')"
  shows "ai s' = ai s \<and> ubi s' = ubi s"
proof -
  have "(\<lambda>(b, x). ai x = ai s \<and> ubi x = ubi s) (buf', s')"
  proof (rule for_loop_invariant [where P = "\<lambda>(b, x). ai x = ai s \<and> ubi x = ubi s", OF _ _ assms])
    show "\<forall>p x y. self_check_bad env p x = Inr y
            \<longrightarrow> (\<lambda>(b, x). ai x = ai s \<and> ubi x = ubi s) x
            \<longrightarrow> (\<lambda>(b, x). ai x = ai s \<and> ubi x = ubi s) y"
      by (auto simp: self_check_bad_def split: prod.splits sum.splits)
    show "(\<lambda>(b, x). ai x = ai s \<and> ubi x = ubi s) (buf, s)" by simp
  qed
  then show ?thesis by simp
qed

lemma self_check_ai_frame:
  assumes "self_check_ai env s = Inr s'"
  shows "ai s' = ai s \<and> ubi s' = ubi s"
proof (cases "ubi_dbg_chk_gen env")
  case False
  then show ?thesis using assms by (simp add: self_check_ai_def)
next
  case True
  then obtain s1 buf0 s2 where avs: "self_check_avs env (inorder (volumes (ai s))) s = Inr s1"
    and bad: "for_loop (self_check_bad env) 0 (peb_count (ubi s1))
                ([], s1\<lparr>allocs := Suc (allocs s1)\<rparr>) = Inr (buf0, s2)"
    and s': "s' = s2"
    using assms
    by (auto simp: self_check_ai_def Let_def split: if_splits sum.splits prod.splits)
  show ?thesis
    using self_check_avs_frame [OF avs] self_check_bad_loop_frame [OF bad] s' by simp
qed

lemma late_analysis_frame:
  assumes "late_analysis env s = Inr s'"
  shows "peb_count (ubi s') = peb_count (ubi s) \<and> mean_ec (ai s') = mean_ec (ai s)
       \<and> alien (ai s') = alien (ai s) \<and> alien_peb_count (ai s') = alien_peb_count (ai s)
       \<and> volumes (ai s') = volumes (ai s) \<and> free (ai s') = free (ai s)
       \<and> corr (ai s') = corr (ai s) \<and> erase (ai s') = erase (ai s)
       \<and> waiting (ai s') = waiting (ai s)
       \<and> ec_sum (ai s') = ec_sum (ai s) \<and> ec_count (ai s') = ec_count (ai s)"
  using assms by (auto simp: late_analysis_def Let_def split: if_splits)

text \<open>
  C10.  A step of the scan, \<^verbatim>\<open>scan_peb\<close>, either leaves the alien list and
  \<open>alien_peb_count\<close> alone or puts one object on the list and adds one to the counter.
  So a successful \<^verbatim>\<open>scan_all\<close> keeps the counter equal to the length of the list
  (as 32-bit numbers) when it was so before; and when the scan starts with an empty
  alien list, a zero counter and at a non-negative eraseblock number, the counter,
  read as an \<^verbatim>\<open>int\<close>, is the number of objects on the alien list.
\<close>

theorem scan_all_alien_count:
  assumes "scan_all env s start = Inr s'"
  shows "(scan_peb env sa pnum = Inr sb \<longrightarrow> alien_step sa sb 0 \<or> alien_step sa sb 1)
       \<and> (alien_peb_count (ai s) = of_nat (length (alien (ai s)))
            \<longrightarrow> alien_peb_count (ai s') = of_nat (length (alien (ai s'))))
       \<and> (alien (ai s) = [] \<and> alien_peb_count (ai s) = 0 \<and> 0 \<le>s start
            \<longrightarrow> sint (alien_peb_count (ai s')) = int (length (alien (ai s'))))"
proof -
  let ?s1 = "s\<lparr>allocs := Suc (Suc (allocs s))\<rparr>"
  obtain s2 s3 where loop: "for_loop (\<lambda>pnum s'. scan_peb env s' pnum) start (peb_count (ubi s)) ?s1
                            = Inr s2"
    and late: "late_analysis env (calc_mean_ec s2) = Inr s3"
    and chk: "self_check_ai env (fill_unknown_ec s3) = Inr s'"
    using assms
    by (auto simp: scan_all_def scan_all_fill_def Let_def split: if_splits sum.splits)
  obtain k where k: "int k \<le> max 0 (sint (peb_count (ubi s)) - sint start)"
    and st: "alien_step ?s1 s2 k"
    using scan_loop_frame [OF loop] by blast
  have a2: "alien (ai (calc_mean_ec s2)) = alien (ai s2)"
    "alien_peb_count (ai (calc_mean_ec s2)) = alien_peb_count (ai s2)"
    by (simp_all add: calc_mean_ec_def)
  have a3: "alien (ai (fill_unknown_ec s3)) = alien (ai s3)"
    "alien_peb_count (ai (fill_unknown_ec s3)) = alien_peb_count (ai s3)"
    by (simp_all add: fill_unknown_ec_def Let_def)
  have fin: "length (alien (ai s')) = length (alien (ai s)) + k"
    "alien_peb_count (ai s') = alien_peb_count (ai s) + of_nat k"
    using st a2 a3 late_analysis_frame [OF late] self_check_ai_frame [OF chk]
    by (simp_all add: alien_step_def)
  have inv: "alien_peb_count (ai s') = of_nat (length (alien (ai s')))"
    if "alien_peb_count (ai s) = of_nat (length (alien (ai s)))"
    using fin that by simp
  have exact: "sint (alien_peb_count (ai s')) = int (length (alien (ai s')))"
    if "alien (ai s) = []" "alien_peb_count (ai s) = 0" "0 \<le>s start"
  proof -
    have "sint (peb_count (ubi s)) < 2 ^ 31" using sint_lt [of "peb_count (ubi s)"] by simp
    moreover have "0 \<le> sint start" using that(3) by (simp add: word_sle_eq)
    ultimately have "int k < 2 ^ 31" using k by auto
    moreover have "(of_nat k :: s32) = word_of_int (int k)" by simp
    ultimately have "sint (of_nat k :: s32) = int k"
      by (simp only: sint_sbintrunc') (simp add: signed_take_bit_int_eq_self)
    then show ?thesis using fin that by simp
  qed
  have step: "alien_step sa sb 0 \<or> alien_step sa sb 1" if "scan_peb env sa pnum = Inr sb"
    using scan_peb_scan_frame [OF that] by (simp add: scan_frame_def)
  show ?thesis using step inv exact by blast
qed

theorem scan_all_alien_count_witness:
  "scan_all mixed_env (sample_state 5) 0 = Inr mixed_state
   \<and> length (alien (ai mixed_state)) = 1
   \<and> sint (alien_peb_count (ai mixed_state)) = int (length (alien (ai mixed_state)))"
proof -
  have run: "scan_all mixed_env (sample_state 5) 0 = Inr mixed_state" by code_simp
  have init: "alien (ai (sample_state 5)) = [] \<and> alien_peb_count (ai (sample_state 5)) = 0
              \<and> 0 \<le>s (0 :: s32)"
    by code_simp
  have len: "length (alien (ai mixed_state)) = 1" by code_simp
  show ?thesis
    using scan_all_alien_count [OF run] run init len by blast
qed

section \<open>Unknown erase counters\<close>

lemma calc_mean_ec_frame:
  "ubi (calc_mean_ec s) = ubi s" "ec_count (ai (calc_mean_ec s)) = ec_count (ai s)"
  "ec_sum (ai (calc_mean_ec s)) = ec_sum (ai s)"
  "mean_ec (ai (calc_mean_ec s)) =
     (if ec_count (ai s) \<noteq> 0 then ucast (ec_sum (ai s) div ucast (ec_count (ai s)))
      else mean_ec (ai s))"
  by (simp_all add: calc_mean_ec_def)

lemma fill_ec_fun:
  "fill_ec m = (\<lambda>aeb. if aeb_ec aeb = UBI_UNKNOWN then aeb\<lparr>aeb_ec := m\<rparr> else aeb)"
  by (rule ext) (simp add: fill_ec_def)

text \<open>
  C4, as the code has it.  When \<^verbatim>\<open>scan_all\<close> has come to its call of
  \<^verbatim>\<open>self_check_ai\<close>, the scan and the late analysis have succeeded in states \<open>s2\<close>
  and \<open>s3\<close>; \<open>mean_ec\<close> is \<open>ec_sum / ec_count\<close> of the scan if \<open>ec_count\<close> is not zero
  and is what it was before the scan otherwise (zero for a fresh attaching
  information); every object of every volume's tree and of the lists \<open>free\<close>,
  \<open>corr\<close> and \<open>erase\<close> whose erase counter was unknown has \<open>mean_ec\<close> for it, and
  every other object is as it was; the alien list is as it was.
  \<^verbatim>\<open>self_check_ai\<close> changes nothing of the attaching information.
\<close>

theorem scan_all_fill_unknown_ec:
  assumes "scan_all_fill env s start = Inr s'"
  shows "(\<exists>s2 s3.
           for_loop (\<lambda>pnum s'. scan_peb env s' pnum) start (peb_count (ubi s))
             (s\<lparr>allocs := Suc (Suc (allocs s))\<rparr>) = Inr s2
         \<and> late_analysis env (calc_mean_ec s2) = Inr s3
         \<and> mean_ec (ai s') =
             (if ec_count (ai s2) \<noteq> 0 then ucast (ec_sum (ai s2) div ucast (ec_count (ai s2)))
              else mean_ec (ai s))
         \<and> volumes (ai s') =
             map_tree (\<lambda>av. av\<lparr>av_root :=
                 map_tree (\<lambda>aeb. if aeb_ec aeb = UBI_UNKNOWN then aeb\<lparr>aeb_ec := mean_ec (ai s')\<rparr>
                                  else aeb) (av_root av)\<rparr>)
               (volumes (ai s3))
         \<and> free (ai s') =
             map (\<lambda>aeb. if aeb_ec aeb = UBI_UNKNOWN then aeb\<lparr>aeb_ec := mean_ec (ai s')\<rparr> else aeb)
               (free (ai s3))
         \<and> corr (ai s') =
             map (\<lambda>aeb. if aeb_ec aeb = UBI_UNKNOWN then aeb\<lparr>aeb_ec := mean_ec (ai s')\<rparr> else aeb)
               (corr (ai s3))
         \<and> erase (ai s') =
             map (\<lambda>aeb. if aeb_ec aeb = UBI_UNKNOWN then aeb\<lparr>aeb_ec := mean_ec (ai s')\<rparr> else aeb)
               (erase (ai s3))
         \<and> alien (ai s') = alien (ai s3))
       \<and> (\<forall>s''. scan_all env s start = Inr s'' \<longrightarrow> ai s'' = ai s')"
proof -
  let ?s1 = "s\<lparr>allocs := Suc (Suc (allocs s))\<rparr>"
  let ?f = "\<lambda>aeb. if aeb_ec aeb = UBI_UNKNOWN then aeb\<lparr>aeb_ec := mean_ec (ai s')\<rparr> else aeb"
  obtain s2 s3 where loop: "for_loop (\<lambda>pnum s'. scan_peb env s' pnum) start (peb_count (ubi s)) ?s1
                            = Inr s2"
    and late: "late_analysis env (calc_mean_ec s2) = Inr s3"
    and s': "s' = fill_unknown_ec s3"
    using assms
    by (auto simp: scan_all_fill_def Let_def split: if_splits sum.splits)
  have m2: "mean_ec (ai s2) = mean_ec (ai s)"
    using scan_loop_frame [OF loop] by simp
  have m3: "mean_ec (ai s3) =
             (if ec_count (ai s2) \<noteq> 0 then ucast (ec_sum (ai s2) div ucast (ec_count (ai s2)))
              else mean_ec (ai s))"
    using late_analysis_frame [OF late] m2 by (simp add: calc_mean_ec_frame)
  have m': "mean_ec (ai s') = mean_ec (ai s3)"
    unfolding s' by (simp add: fill_unknown_ec_def Let_def)
  have fill: "volumes (ai s') = map_tree (\<lambda>av. av\<lparr>av_root := map_tree ?f (av_root av)\<rparr>) (volumes (ai s3))"
    "free (ai s') = map ?f (free (ai s3))"
    "corr (ai s') = map ?f (corr (ai s3))"
    "erase (ai s') = map ?f (erase (ai s3))"
    "alien (ai s') = alien (ai s3)"
    unfolding m' unfolding s' by (simp_all add: fill_unknown_ec_def fill_ec_fun Let_def)
  have chk: "ai s'' = ai s'" if "scan_all env s start = Inr s''" for s''
    using that assms self_check_ai_frame [of env s' s''] by (simp add: scan_all_def)
  have m: "mean_ec (ai s') =
             (if ec_count (ai s2) \<noteq> 0 then ucast (ec_sum (ai s2) div ucast (ec_count (ai s2)))
              else mean_ec (ai s))"
    using m3 m' by simp
  have "\<exists>s2 s3.
           for_loop (\<lambda>pnum s'. scan_peb env s' pnum) start (peb_count (ubi s)) ?s1 = Inr s2
         \<and> late_analysis env (calc_mean_ec s2) = Inr s3
         \<and> mean_ec (ai s') =
             (if ec_count (ai s2) \<noteq> 0 then ucast (ec_sum (ai s2) div ucast (ec_count (ai s2)))
              else mean_ec (ai s))
         \<and> volumes (ai s') = map_tree (\<lambda>av. av\<lparr>av_root := map_tree ?f (av_root av)\<rparr>) (volumes (ai s3))
         \<and> free (ai s') = map ?f (free (ai s3))
         \<and> corr (ai s') = map ?f (corr (ai s3))
         \<and> erase (ai s') = map ?f (erase (ai s3))
         \<and> alien (ai s') = alien (ai s3)"
    using loop late m fill by blast
  then show ?thesis using chk by blast
qed

theorem scan_all_fill_unknown_ec_witness:
  "scan_all_fill mixed_env (sample_state 5) 0 = Inr mixed_fill_state
   \<and> mean_ec (ai mixed_fill_state) = 50
   \<and> map aeb_ec (erase (ai mixed_late_state)) = [UBI_UNKNOWN]
   \<and> map aeb_ec (erase (ai mixed_fill_state)) = [50]
   \<and> map (\<lambda>av. map aeb_ec (inorder (av_root av))) (inorder (volumes (ai mixed_late_state)))
        = [[50, UBI_UNKNOWN]]
   \<and> map (\<lambda>av. map aeb_ec (inorder (av_root av))) (inorder (volumes (ai mixed_fill_state)))
        = [[50, 50]]
   \<and> map aeb_ec (free (ai mixed_fill_state)) = [50]
   \<and> ai mixed_state = ai mixed_fill_state"
proof -
  let ?f = "\<lambda>aeb. if aeb_ec aeb = UBI_UNKNOWN then aeb\<lparr>aeb_ec := 50\<rparr> else aeb"
  have run: "scan_all_fill mixed_env (sample_state 5) 0 = Inr mixed_fill_state" by code_simp
  have all: "scan_all mixed_env (sample_state 5) 0 = Inr mixed_state" by code_simp
  have lp: "for_loop (\<lambda>pnum s'. scan_peb mixed_env s' pnum) 0 (peb_count (ubi (sample_state 5)))
              ((sample_state 5)\<lparr>allocs := Suc (Suc (allocs (sample_state 5)))\<rparr>) = Inr mixed_loop_state"
    by code_simp
  have lt: "late_analysis mixed_env (calc_mean_ec mixed_loop_state) = Inr mixed_late_state"
    by code_simp
  have mv: "(if ec_count (ai mixed_loop_state) \<noteq> 0
             then ucast (ec_sum (ai mixed_loop_state) div ucast (ec_count (ai mixed_loop_state)))
             else mean_ec (ai (sample_state 5))) = (50 :: s32)"
    by code_simp
  have before: "map aeb_ec (erase (ai mixed_late_state)) = [UBI_UNKNOWN]"
    "map (\<lambda>av. map aeb_ec (inorder (av_root av))) (inorder (volumes (ai mixed_late_state)))
        = [[50, UBI_UNKNOWN]]"
    by code_simp+
  have after: "map aeb_ec (map ?f (erase (ai mixed_late_state))) = [50]"
    "map (\<lambda>av. map aeb_ec (inorder (av_root av)))
       (inorder (map_tree (\<lambda>av. av\<lparr>av_root := map_tree ?f (av_root av)\<rparr>)
                   (volumes (ai mixed_late_state)))) = [[50, 50]]"
    "map aeb_ec (map ?f (free (ai mixed_late_state))) = [50]"
    by code_simp+
  note T = scan_all_fill_unknown_ec [OF run]
  from T obtain s2 s3 where
    l2: "for_loop (\<lambda>pnum s'. scan_peb mixed_env s' pnum) 0 (peb_count (ubi (sample_state 5)))
              ((sample_state 5)\<lparr>allocs := Suc (Suc (allocs (sample_state 5)))\<rparr>) = Inr s2"
    and l3: "late_analysis mixed_env (calc_mean_ec s2) = Inr s3"
    and m: "mean_ec (ai mixed_fill_state) =
             (if ec_count (ai s2) \<noteq> 0 then ucast (ec_sum (ai s2) div ucast (ec_count (ai s2)))
              else mean_ec (ai (sample_state 5)))"
    and v: "volumes (ai mixed_fill_state) =
             map_tree (\<lambda>av. av\<lparr>av_root :=
                 map_tree (\<lambda>aeb. if aeb_ec aeb = UBI_UNKNOWN
                                  then aeb\<lparr>aeb_ec := mean_ec (ai mixed_fill_state)\<rparr>
                                  else aeb) (av_root av)\<rparr>)
               (volumes (ai s3))"
    and f: "free (ai mixed_fill_state) =
             map (\<lambda>aeb. if aeb_ec aeb = UBI_UNKNOWN
                         then aeb\<lparr>aeb_ec := mean_ec (ai mixed_fill_state)\<rparr> else aeb)
               (free (ai s3))"
    and e: "erase (ai mixed_fill_state) =
             map (\<lambda>aeb. if aeb_ec aeb = UBI_UNKNOWN
                         then aeb\<lparr>aeb_ec := mean_ec (ai mixed_fill_state)\<rparr> else aeb)
               (erase (ai s3))"
    by blast
  have s2: "s2 = mixed_loop_state" using l2 lp by simp
  have s3: "s3 = mixed_late_state" using l3 lt s2 by simp
  have mean: "mean_ec (ai mixed_fill_state) = 50" using m unfolding s2 mv .
  have e': "map aeb_ec (erase (ai mixed_fill_state)) = [50]"
    using after(1) unfolding e mean s3 .
  have v': "map (\<lambda>av. map aeb_ec (inorder (av_root av))) (inorder (volumes (ai mixed_fill_state)))
        = [[50, 50]]"
    using after(2) unfolding v mean s3 .
  have f': "map aeb_ec (free (ai mixed_fill_state)) = [50]"
    using after(3) unfolding f mean s3 .
  have "\<forall>s''. scan_all mixed_env (sample_state 5) 0 = Inr s'' \<longrightarrow> ai s'' = ai mixed_fill_state"
    using T by (rule conjunct2)
  then have "ai mixed_state = ai mixed_fill_state" using all by simp
  then show ?thesis using run mean before e' v' f' by simp
qed

text \<open>
  C4 as the specification states it fails for the alien list: eraseblock 0 of the
  sample device, which belongs to the internal volume \<open>0x7FFFF002\<close>, stays on the
  alien list with an unknown erase counter, while the mean erase counter is 50.
\<close>

theorem scan_all_alien_unknown_counterexample:
  "scan_all mixed_env (sample_state 5) 0 = Inr mixed_state
   \<and> map aeb_ec (alien (ai mixed_state)) = [UBI_UNKNOWN]
   \<and> mean_ec (ai mixed_state) = 50
   \<and> UBI_UNKNOWN \<noteq> mean_ec (ai mixed_state)"
  by code_simp

section \<open>Internal volumes\<close>

lemma av_walk_av_store:
  "av_walk (av_vol_id new) t = Some old \<Longrightarrow> av_walk (av_vol_id new) (av_store new t) = Some new"
  by (induction t) (auto split: if_splits)

lemma aeb_walk_aeb_store:
  "aeb_walk lnum t = Some old \<Longrightarrow> aeb_lnum new = lnum
     \<Longrightarrow> aeb_walk lnum (aeb_store lnum new t) = Some new"
  by (induction t) (auto split: if_splits)

lemma ubi_find_av_put_av:
  assumes "ubi_find_av (ai s) (av_vol_id av) = Some old"
  shows "ubi_find_av (ai (put_av av s)) (av_vol_id av) = Some av"
  using assms by (simp add: ubi_find_av_def put_av_def av_walk_av_store)

lemma add_to_list_erase:
  assumes "add_to_list env s pnum vol_id lnum ec to_head LIST_ERASE = Inr s'"
  shows "pnum \<in> aeb_pnum ` set (erase (ai s'))"
  using assms
  by (auto simp: add_to_list_def Let_def list_set_def list_of_def list_add_def list_add_tail_def
      split: option.splits)

lemma ubi_add_to_av_admits:
  assumes rb: "rb_contract env" and ord: "trees_ordered (ai s)"
    and add: "ubi_add_to_av env s pnum ec vid_hdr bitflips = Inr s'"
  shows "\<exists>av aeb. ubi_find_av (ai s') (vh_vol_id vid_hdr) = Some av
           \<and> aeb_walk (vh_lnum vid_hdr) (av_root av) = Some aeb
           \<and> (aeb_pnum aeb = pnum \<or> pnum \<in> aeb_pnum ` set (erase (ai s')))"
proof -
  let ?lnum = "vh_lnum vid_hdr" and ?vol = "vh_vol_id vid_hdr"
  obtain av s1 where av: "add_volume env s ?vol pnum vid_hdr = Inr (av, s1)"
    using add by (auto simp: ubi_add_to_av_def Let_def split: sum.splits)
  have d: "descending (vol_ids (volumes (ai s)))" using ord by (simp add: trees_ordered_def)
  note r = add_volume_result [OF rb d av]
  note o1 = add_volume_ordered [OF rb ord av]
  have id: "av_vol_id av = ?vol" using r by simp
  have "av_walk (av_vol_id av) (volumes (ai s1)) = Some av"
    using r by (intro av_walk_finds) simp_all
  then have f1: "ubi_find_av (ai s1) (av_vol_id av) = Some av" by (simp add: ubi_find_av_def)
  let ?s2 = "if max_sqnum (ai s1) < vh_sqnum vid_hdr
             then s1\<lparr>ai := (ai s1)\<lparr>max_sqnum := vh_sqnum vid_hdr\<rparr>\<rparr> else s1"
  have f2: "ubi_find_av (ai ?s2) (av_vol_id av) = Some av"
    using f1 by (simp add: ubi_find_av_def)
  show ?thesis
  proof (cases "aeb_walk ?lnum (av_root av)")
    case None
    then obtain mem where mem: "kmem_cache_alloc env (allocs ?s2) = Some mem"
      using add av by (auto simp: ubi_add_to_av_def Let_def split: option.splits)
    let ?aeb = "mem\<lparr>aeb_ec := ec, aeb_pnum := pnum, aeb_vol_id := ?vol,
                     aeb_lnum := ?lnum, aeb_scrub := bitflips,
                     aeb_copy_flag := ((vh_copy_flag vid_hdr AND 1) \<noteq> 0),
                     aeb_sqnum := vh_sqnum vid_hdr\<rparr>"
    obtain av3 where s': "s' = put_av av3 (?s2\<lparr>allocs := Suc (allocs ?s2)\<rparr>)"
      and root: "av_root av3 = rb_insert_color_aeb env ?aeb (aeb_link ?aeb (av_root av))"
      and id3: "av_vol_id av3 = av_vol_id av"
      using add av None mem
      by (auto simp: ubi_add_to_av_def Let_def split: option.splits)
    have "\<forall>x \<in> set (inorder (av_root av)). aeb_lnum x \<noteq> aeb_lnum ?aeb"
      using aeb_walk_None [OF _ None] o1 by simp
    then have "ascending (lnums (aeb_link ?aeb (av_root av)))"
      using o1 by (intro aeb_link_ascending) simp_all
    then have asc: "ascending (lnums (av_root av3))"
      using rb root by (simp add: rb_contract_def lnums_def)
    have "?aeb \<in> set (inorder (av_root av3))"
      using rb root by (simp add: rb_contract_def)
    then have "aeb_walk (aeb_lnum ?aeb) (av_root av3) = Some ?aeb"
      using asc by (rule aeb_walk_finds [rotated])
    then have w: "aeb_walk ?lnum (av_root av3) = Some ?aeb" by simp
    have "ubi_find_av (ai (?s2\<lparr>allocs := Suc (allocs ?s2)\<rparr>)) (av_vol_id av3) = Some av"
      using f2 id3 by simp
    then have "ubi_find_av (ai s') (av_vol_id av3) = Some av3"
      unfolding s' by (rule ubi_find_av_put_av)
    then show ?thesis using w id id3 by auto
  next
    case (Some aeb)
    then obtain cmp_res s3 where cmp: "ubi_compare_lebs env ?s2 aeb pnum vid_hdr = Inr (cmp_res, s3)"
      using add av by (auto simp: ubi_add_to_av_def Let_def split: if_splits sum.splits)
    have s3: "ai s3 = ai ?s2" using ubi_compare_lebs_frame [OF cmp] by simp
    have f3: "ubi_find_av (ai s3) (av_vol_id av) = Some av" using f2 s3 by simp
    show ?thesis
    proof (cases "(cmp_res AND 1) \<noteq> 0")
      case False
      then have l: "add_to_list env s3 pnum ?vol ?lnum ec ((cmp_res AND 4) \<noteq> 0)
                   LIST_ERASE = Inr s'"
        using add av Some cmp by (auto simp: ubi_add_to_av_def Let_def split: if_splits)
      then have "volumes (ai s') = volumes (ai s3)" by (simp add: add_to_list_frame)
      then have "ubi_find_av (ai s') (av_vol_id av) = Some av"
        using f3 by (simp add: ubi_find_av_def)
      then show ?thesis using Some add_to_list_erase [OF l] id by auto
    next
      case True
      obtain s4 where l: "add_to_list env s3 (aeb_pnum aeb) (aeb_vol_id aeb) (aeb_lnum aeb)
                            (aeb_ec aeb) ((cmp_res AND 4) \<noteq> 0) LIST_ERASE = Inr s4"
        using add av Some cmp True
        by (auto simp: ubi_add_to_av_def Let_def split: if_splits option.splits sum.splits)
      let ?aeb1 = "aeb\<lparr>aeb_ec := ec, aeb_pnum := pnum, aeb_vol_id := ?vol, aeb_lnum := ?lnum,
                       aeb_scrub := ((cmp_res AND 2) \<noteq> 0 \<or> bitflips),
                       aeb_copy_flag := ((vh_copy_flag vid_hdr AND 1) \<noteq> 0),
                       aeb_sqnum := vh_sqnum vid_hdr\<rparr>"
      obtain av2 where s': "s' = put_av av2 s4"
        and root: "av_root av2 = aeb_store ?lnum ?aeb1 (av_root av)"
        and id2: "av_vol_id av2 = av_vol_id av"
        using add av Some cmp True l
        by (auto simp: ubi_add_to_av_def Let_def split: if_splits option.splits sum.splits)
      have "volumes (ai s4) = volumes (ai s3)" using l by (simp add: add_to_list_frame)
      then have "ubi_find_av (ai s4) (av_vol_id av2) = Some av"
        using f3 id2 by (simp add: ubi_find_av_def)
      then have "ubi_find_av (ai s') (av_vol_id av2) = Some av2"
        unfolding s' by (rule ubi_find_av_put_av)
      moreover have "aeb_walk ?lnum (av_root av2) = Some ?aeb1"
        unfolding root using Some by (rule aeb_walk_aeb_store) simp
      ultimately show ?thesis using id id2 by auto
    qed
  qed
qed

lemma spec_internal_volume_iff:
  assumes "vol_id_in_namespace env (vh_vol_id vidh)"
    and "UBI_MAX_VOLUMES env <s UBI_INTERNAL_VOL_START env"
  shows "spec_internal_volume env vidh = internal_volume env vidh"
  using assms
  by (auto simp: spec_internal_volume_def internal_volume_def vol_id_in_namespace_def
      word_sless_alt word_sle_eq)

lemma self_check_av_namespace:
  "self_check_av env s av \<Longrightarrow> vol_id_in_namespace env (av_vol_id av)"
  by (auto simp: self_check_av_def vol_id_in_namespace_def Let_def word_sless_alt word_sle_eq)

lemma scan_peb_add_admits:
  assumes "scan_peb_add env s pnum vidh ec bitflips ec_err = Inr s'"
  shows "ubi s' = ubi s \<and> alien (ai s') = alien (ai s)
       \<and> (rb_contract env \<and> trees_ordered (ai s) \<longrightarrow>
            (\<exists>av aeb. ubi_find_av (ai s') (vh_vol_id vidh) = Some av
               \<and> aeb_walk (vh_lnum vidh) (av_root av) = Some aeb
               \<and> (aeb_pnum aeb = pnum \<or> pnum \<in> aeb_pnum ` set (erase (ai s')))))"
proof -
  obtain s1 where a: "ubi_add_to_av env s pnum (ucast ec) vidh bitflips = Inr s1"
    and s': "s' = adjust_mean_ec s1 ec_err ec"
    using assms by (auto simp: scan_peb_add_def split: sum.splits)
  have "ubi s' = ubi s \<and> alien (ai s') = alien (ai s)"
    using ubi_add_to_av_frame [OF a] s' by simp
  moreover have "\<exists>av aeb. ubi_find_av (ai s') (vh_vol_id vidh) = Some av
               \<and> aeb_walk (vh_lnum vidh) (av_root av) = Some aeb
               \<and> (aeb_pnum aeb = pnum \<or> pnum \<in> aeb_pnum ` set (erase (ai s')))"
    if "rb_contract env" "trees_ordered (ai s)"
    using ubi_add_to_av_admits [OF that a] s' by (simp add: ubi_find_av_def)
  ultimately show ?thesis by blast
qed

text \<open>
  The test of \<^verbatim>\<open>scan_peb\<close> is \<^verbatim>\<open>vol_id > UBI_MAX_VOLUMES\<close>.  It differs from "at
  least \<^verbatim>\<open>UBI_MAX_VOLUMES\<close>" at the ID \<^verbatim>\<open>UBI_MAX_VOLUMES\<close> alone, which is the ID
  of no volume: there the eraseblock is handed to \<^verbatim>\<open>ubi_add_to_av\<close> whatever its
  compatibility byte, and \<^verbatim>\<open>self_check_ai\<close> refuses the volume that results.
\<close>

lemma scan_peb_vol_outside_namespace:
  "\<not> vol_id_in_namespace blank_env (vh_vol_id vol128_hdr)
   \<and> vh_compat vol128_hdr = UBI_COMPAT_DELETE
   \<and> map_sum id (\<lambda>s. (map aeb_pnum (erase (ai s)), map av_vol_id (inorder (volumes (ai s))),
                       map (self_check_av blank_env s) (inorder (volumes (ai s)))))
        (scan_peb_vol blank_env (sample_state 1) 0 vol128_hdr 3 False IO_OK)
       = Inr ([], [128], [False])"
  by code_simp

text \<open>
  C6.  A valid VID header carries the ID of a user volume, below
  \<^verbatim>\<open>UBI_MAX_VOLUMES\<close>, or of an internal volume, from \<^verbatim>\<open>UBI_INTERNAL_VOL_START\<close>
  on, which is above \<^verbatim>\<open>UBI_MAX_VOLUMES\<close>.  For such a header whose volume ID is at
  least \<^verbatim>\<open>UBI_MAX_VOLUMES\<close> and is not that of the layout volume, \<^verbatim>\<open>scan_peb\<close>
  looks at the compatibility byte.  DELETE puts the eraseblock at the head of the
  erase list and returns success.  RO sets \<open>ro_mode\<close> and hands the eraseblock to
  \<^verbatim>\<open>ubi_add_to_av\<close>: on success the device is read-only and otherwise as it was,
  the alien list is as it was, and, the trees being ordered, the tree of the volume
  holds an eraseblock for the LEB number of the header, which is this eraseblock
  unless it lost the comparison and is on the erase list.  PRESERVE puts the
  eraseblock at the tail of the alien list, counts it and returns success.  REJECT
  is \<^verbatim>\<open>-EINVAL\<close>.  (Success is subject to the allocation of the new object, which
  is \<^verbatim>\<open>-ENOMEM\<close> otherwise.)  Every other eraseblock, of a user volume or of the
  layout volume, is handed to \<^verbatim>\<open>ubi_add_to_av\<close> without this dispatch, whatever its
  compatibility byte, and is admitted in the same way with the device as it was.
\<close>

theorem scan_peb_vol_dispatch:
  assumes ns: "vol_id_in_namespace env (vh_vol_id vidh)"
    and lim: "UBI_MAX_VOLUMES env <s UBI_INTERNAL_VOL_START env"
  shows
  "(spec_internal_volume env vidh \<and> vh_compat vidh = UBI_COMPAT_DELETE \<longrightarrow>
      scan_peb_vol env s pnum vidh ec bitflips ec_err =
        (case kmem_cache_alloc env (allocs s) of
           None \<Rightarrow> Inl ENOMEM
         | Some mem \<Rightarrow>
             Inr (s\<lparr>allocs := Suc (allocs s),
                    ai := (ai s)\<lparr>erase := mem\<lparr>aeb_pnum := pnum, aeb_vol_id := vh_vol_id vidh,
                                              aeb_lnum := vh_lnum vidh, aeb_ec := ucast ec\<rparr>
                                          # erase (ai s)\<rparr>\<rparr>)))
   \<and> (spec_internal_volume env vidh \<and> vh_compat vidh = UBI_COMPAT_RO \<longrightarrow>
        scan_peb_vol env s pnum vidh ec bitflips ec_err =
          (case ubi_add_to_av env (s\<lparr>ubi := (ubi s)\<lparr>ro_mode := 1\<rparr>\<rparr>) pnum (ucast ec) vidh bitflips of
             Inl err \<Rightarrow> Inl err
           | Inr s1 \<Rightarrow> Inr (adjust_mean_ec s1 ec_err ec))
        \<and> (\<forall>s'. scan_peb_vol env s pnum vidh ec bitflips ec_err = Inr s' \<longrightarrow>
              ubi s' = (ubi s)\<lparr>ro_mode := 1\<rparr> \<and> alien (ai s') = alien (ai s)
              \<and> (rb_contract env \<and> trees_ordered (ai s) \<longrightarrow>
                   (\<exists>av aeb. ubi_find_av (ai s') (vh_vol_id vidh) = Some av
                      \<and> aeb_walk (vh_lnum vidh) (av_root av) = Some aeb
                      \<and> (aeb_pnum aeb = pnum \<or> pnum \<in> aeb_pnum ` set (erase (ai s')))))))
   \<and> (spec_internal_volume env vidh \<and> vh_compat vidh = UBI_COMPAT_PRESERVE \<longrightarrow>
        scan_peb_vol env s pnum vidh ec bitflips ec_err =
          (case kmem_cache_alloc env (allocs s) of
             None \<Rightarrow> Inl ENOMEM
           | Some mem \<Rightarrow>
               Inr (s\<lparr>allocs := Suc (allocs s),
                      ai := (ai s)\<lparr>alien_peb_count := alien_peb_count (ai s) + 1,
                                  alien := alien (ai s)
                                    @ [mem\<lparr>aeb_pnum := pnum, aeb_vol_id := vh_vol_id vidh,
                                            aeb_lnum := vh_lnum vidh, aeb_ec := ucast ec\<rparr>]\<rparr>\<rparr>)))
   \<and> (spec_internal_volume env vidh \<and> vh_compat vidh = UBI_COMPAT_REJECT \<longrightarrow>
        scan_peb_vol env s pnum vidh ec bitflips ec_err = Inl EINVAL)
   \<and> (\<not> spec_internal_volume env vidh \<longrightarrow>
        scan_peb_vol env s pnum vidh ec bitflips ec_err =
          (case ubi_add_to_av env s pnum (ucast ec) vidh bitflips of
             Inl err \<Rightarrow> Inl err
           | Inr s1 \<Rightarrow> Inr (adjust_mean_ec s1 ec_err ec))
        \<and> (\<forall>s'. scan_peb_vol env s pnum vidh ec bitflips ec_err = Inr s' \<longrightarrow>
              ubi s' = ubi s \<and> alien (ai s') = alien (ai s)
              \<and> (rb_contract env \<and> trees_ordered (ai s) \<longrightarrow>
                   (\<exists>av aeb. ubi_find_av (ai s') (vh_vol_id vidh) = Some av
                      \<and> aeb_walk (vh_lnum vidh) (av_root av) = Some aeb
                      \<and> (aeb_pnum aeb = pnum \<or> pnum \<in> aeb_pnum ` set (erase (ai s')))))))"
proof -
  note iv = spec_internal_volume_iff [OF ns lim]
  have distinct_compat: "UBI_COMPAT_DELETE \<noteq> UBI_COMPAT_RO" "UBI_COMPAT_PRESERVE \<noteq> UBI_COMPAT_DELETE"
    "UBI_COMPAT_PRESERVE \<noteq> UBI_COMPAT_RO" "UBI_COMPAT_REJECT \<noteq> UBI_COMPAT_DELETE"
    "UBI_COMPAT_REJECT \<noteq> UBI_COMPAT_RO" "UBI_COMPAT_REJECT \<noteq> UBI_COMPAT_PRESERVE"
    by (simp_all add: UBI_COMPAT_DELETE_def UBI_COMPAT_RO_def UBI_COMPAT_PRESERVE_def
        UBI_COMPAT_REJECT_def)
  have del: "scan_peb_vol env s pnum vidh ec bitflips ec_err =
        (case kmem_cache_alloc env (allocs s) of
           None \<Rightarrow> Inl ENOMEM
         | Some mem \<Rightarrow>
             Inr (s\<lparr>allocs := Suc (allocs s),
                    ai := (ai s)\<lparr>erase := mem\<lparr>aeb_pnum := pnum, aeb_vol_id := vh_vol_id vidh,
                                              aeb_lnum := vh_lnum vidh, aeb_ec := ucast ec\<rparr>
                                          # erase (ai s)\<rparr>\<rparr>))"
    if "internal_volume env vidh" "vh_compat vidh = UBI_COMPAT_DELETE"
    using that
    by (auto simp: scan_peb_vol_def internal_volume_def Let_def add_to_list_def list_of_def
        list_set_def list_add_def split: option.splits)
  have pre: "scan_peb_vol env s pnum vidh ec bitflips ec_err =
          (case kmem_cache_alloc env (allocs s) of
             None \<Rightarrow> Inl ENOMEM
           | Some mem \<Rightarrow>
               Inr (s\<lparr>allocs := Suc (allocs s),
                      ai := (ai s)\<lparr>alien_peb_count := alien_peb_count (ai s) + 1,
                                  alien := alien (ai s)
                                    @ [mem\<lparr>aeb_pnum := pnum, aeb_vol_id := vh_vol_id vidh,
                                            aeb_lnum := vh_lnum vidh, aeb_ec := ucast ec\<rparr>]\<rparr>\<rparr>))"
    if "internal_volume env vidh" "vh_compat vidh = UBI_COMPAT_PRESERVE"
    using that distinct_compat
    by (auto simp: scan_peb_vol_def internal_volume_def Let_def add_to_list_def list_of_def
        list_set_def list_add_tail_def split: option.splits)
  have rej: "scan_peb_vol env s pnum vidh ec bitflips ec_err = Inl EINVAL"
    if "internal_volume env vidh" "vh_compat vidh = UBI_COMPAT_REJECT"
    using that distinct_compat by (simp add: scan_peb_vol_def internal_volume_def Let_def)
  have ro: "scan_peb_vol env s pnum vidh ec bitflips ec_err =
          scan_peb_add env (s\<lparr>ubi := (ubi s)\<lparr>ro_mode := 1\<rparr>\<rparr>) pnum vidh ec bitflips ec_err"
    if "internal_volume env vidh" "vh_compat vidh = UBI_COMPAT_RO"
    using that distinct_compat by (simp add: scan_peb_vol_def internal_volume_def Let_def)
  have byp: "scan_peb_vol env s pnum vidh ec bitflips ec_err =
          scan_peb_add env s pnum vidh ec bitflips ec_err"
    if "\<not> internal_volume env vidh"
    using that by (auto simp: scan_peb_vol_def internal_volume_def Let_def)
  have ro_adm: "ubi s' = (ubi s)\<lparr>ro_mode := 1\<rparr> \<and> alien (ai s') = alien (ai s)
              \<and> (rb_contract env \<and> trees_ordered (ai s) \<longrightarrow>
                   (\<exists>av aeb. ubi_find_av (ai s') (vh_vol_id vidh) = Some av
                      \<and> aeb_walk (vh_lnum vidh) (av_root av) = Some aeb
                      \<and> (aeb_pnum aeb = pnum \<or> pnum \<in> aeb_pnum ` set (erase (ai s')))))"
    if "scan_peb_add env (s\<lparr>ubi := (ubi s)\<lparr>ro_mode := 1\<rparr>\<rparr>) pnum vidh ec bitflips ec_err = Inr s'"
    for s'
    using scan_peb_add_admits [OF that] by simp
  have add_eq: "scan_peb_add env s0 pnum vidh ec bitflips ec_err =
          (case ubi_add_to_av env s0 pnum (ucast ec) vidh bitflips of
             Inl err \<Rightarrow> Inl err
           | Inr s1 \<Rightarrow> Inr (adjust_mean_ec s1 ec_err ec))" for s0
    by (simp add: scan_peb_add_def)
  have c1: "spec_internal_volume env vidh \<and> vh_compat vidh = UBI_COMPAT_DELETE \<longrightarrow>
      scan_peb_vol env s pnum vidh ec bitflips ec_err =
        (case kmem_cache_alloc env (allocs s) of
           None \<Rightarrow> Inl ENOMEM
         | Some mem \<Rightarrow>
             Inr (s\<lparr>allocs := Suc (allocs s),
                    ai := (ai s)\<lparr>erase := mem\<lparr>aeb_pnum := pnum, aeb_vol_id := vh_vol_id vidh,
                                              aeb_lnum := vh_lnum vidh, aeb_ec := ucast ec\<rparr>
                                          # erase (ai s)\<rparr>\<rparr>))"
    unfolding iv using del by blast
  have c2: "spec_internal_volume env vidh \<and> vh_compat vidh = UBI_COMPAT_RO \<longrightarrow>
        scan_peb_vol env s pnum vidh ec bitflips ec_err =
          (case ubi_add_to_av env (s\<lparr>ubi := (ubi s)\<lparr>ro_mode := 1\<rparr>\<rparr>) pnum (ucast ec) vidh bitflips of
             Inl err \<Rightarrow> Inl err
           | Inr s1 \<Rightarrow> Inr (adjust_mean_ec s1 ec_err ec))
        \<and> (\<forall>s'. scan_peb_vol env s pnum vidh ec bitflips ec_err = Inr s' \<longrightarrow>
              ubi s' = (ubi s)\<lparr>ro_mode := 1\<rparr> \<and> alien (ai s') = alien (ai s)
              \<and> (rb_contract env \<and> trees_ordered (ai s) \<longrightarrow>
                   (\<exists>av aeb. ubi_find_av (ai s') (vh_vol_id vidh) = Some av
                      \<and> aeb_walk (vh_lnum vidh) (av_root av) = Some aeb
                      \<and> (aeb_pnum aeb = pnum \<or> pnum \<in> aeb_pnum ` set (erase (ai s'))))))"
  proof (intro impI conjI allI)
    assume a: "spec_internal_volume env vidh \<and> vh_compat vidh = UBI_COMPAT_RO"
    then have e: "scan_peb_vol env s pnum vidh ec bitflips ec_err =
          scan_peb_add env (s\<lparr>ubi := (ubi s)\<lparr>ro_mode := 1\<rparr>\<rparr>) pnum vidh ec bitflips ec_err"
      using ro iv by blast
    show "scan_peb_vol env s pnum vidh ec bitflips ec_err =
          (case ubi_add_to_av env (s\<lparr>ubi := (ubi s)\<lparr>ro_mode := 1\<rparr>\<rparr>) pnum (ucast ec) vidh bitflips of
             Inl err \<Rightarrow> Inl err
           | Inr s1 \<Rightarrow> Inr (adjust_mean_ec s1 ec_err ec))"
      unfolding e by (rule add_eq)
    fix s' assume "scan_peb_vol env s pnum vidh ec bitflips ec_err = Inr s'"
    then have r: "scan_peb_add env (s\<lparr>ubi := (ubi s)\<lparr>ro_mode := 1\<rparr>\<rparr>) pnum vidh ec bitflips ec_err
                  = Inr s'"
      using e by simp
    show "ubi s' = (ubi s)\<lparr>ro_mode := 1\<rparr>" using ro_adm [OF r] by blast
    show "alien (ai s') = alien (ai s)" using ro_adm [OF r] by blast
    assume "rb_contract env \<and> trees_ordered (ai s)"
    then show "\<exists>av aeb. ubi_find_av (ai s') (vh_vol_id vidh) = Some av
                      \<and> aeb_walk (vh_lnum vidh) (av_root av) = Some aeb
                      \<and> (aeb_pnum aeb = pnum \<or> pnum \<in> aeb_pnum ` set (erase (ai s')))"
      using ro_adm [OF r] by blast
  qed
  have c3: "spec_internal_volume env vidh \<and> vh_compat vidh = UBI_COMPAT_PRESERVE \<longrightarrow>
        scan_peb_vol env s pnum vidh ec bitflips ec_err =
          (case kmem_cache_alloc env (allocs s) of
             None \<Rightarrow> Inl ENOMEM
           | Some mem \<Rightarrow>
               Inr (s\<lparr>allocs := Suc (allocs s),
                      ai := (ai s)\<lparr>alien_peb_count := alien_peb_count (ai s) + 1,
                                  alien := alien (ai s)
                                    @ [mem\<lparr>aeb_pnum := pnum, aeb_vol_id := vh_vol_id vidh,
                                            aeb_lnum := vh_lnum vidh, aeb_ec := ucast ec\<rparr>]\<rparr>\<rparr>))"
    unfolding iv using pre by blast
  have c4: "spec_internal_volume env vidh \<and> vh_compat vidh = UBI_COMPAT_REJECT \<longrightarrow>
        scan_peb_vol env s pnum vidh ec bitflips ec_err = Inl EINVAL"
    unfolding iv using rej by blast
  have c5: "\<not> spec_internal_volume env vidh \<longrightarrow>
        scan_peb_vol env s pnum vidh ec bitflips ec_err =
          (case ubi_add_to_av env s pnum (ucast ec) vidh bitflips of
             Inl err \<Rightarrow> Inl err
           | Inr s1 \<Rightarrow> Inr (adjust_mean_ec s1 ec_err ec))
        \<and> (\<forall>s'. scan_peb_vol env s pnum vidh ec bitflips ec_err = Inr s' \<longrightarrow>
              ubi s' = ubi s \<and> alien (ai s') = alien (ai s)
              \<and> (rb_contract env \<and> trees_ordered (ai s) \<longrightarrow>
                   (\<exists>av aeb. ubi_find_av (ai s') (vh_vol_id vidh) = Some av
                      \<and> aeb_walk (vh_lnum vidh) (av_root av) = Some aeb
                      \<and> (aeb_pnum aeb = pnum \<or> pnum \<in> aeb_pnum ` set (erase (ai s'))))))"
  proof (intro impI conjI allI)
    assume a: "\<not> spec_internal_volume env vidh"
    then have e: "scan_peb_vol env s pnum vidh ec bitflips ec_err =
          scan_peb_add env s pnum vidh ec bitflips ec_err"
      using byp iv by blast
    show "scan_peb_vol env s pnum vidh ec bitflips ec_err =
          (case ubi_add_to_av env s pnum (ucast ec) vidh bitflips of
             Inl err \<Rightarrow> Inl err
           | Inr s1 \<Rightarrow> Inr (adjust_mean_ec s1 ec_err ec))"
      unfolding e by (rule add_eq)
    fix s' assume "scan_peb_vol env s pnum vidh ec bitflips ec_err = Inr s'"
    then have r: "scan_peb_add env s pnum vidh ec bitflips ec_err = Inr s'"
      using e by simp
    show "ubi s' = ubi s" using scan_peb_add_admits [OF r] by blast
    show "alien (ai s') = alien (ai s)" using scan_peb_add_admits [OF r] by blast
    assume "rb_contract env \<and> trees_ordered (ai s)"
    then show "\<exists>av aeb. ubi_find_av (ai s') (vh_vol_id vidh) = Some av
                      \<and> aeb_walk (vh_lnum vidh) (av_root av) = Some aeb
                      \<and> (aeb_pnum aeb = pnum \<or> pnum \<in> aeb_pnum ` set (erase (ai s')))"
      using scan_peb_add_admits [OF r] by blast
  qed
  show ?thesis using c1 c2 c3 c4 c5 by (intro conjI)
qed

theorem scan_peb_vol_dispatch_witness:
  "map_sum id (\<lambda>s. map aeb_pnum (erase (ai s)))
     (scan_peb_vol blank_env (sample_state 1) 0 (internal_hdr UBI_COMPAT_DELETE) 3 False IO_OK)
     = Inr [0]
   \<and> map_sum id (\<lambda>s. (ro_mode (ubi s), vol_ids (volumes (ai s)),
                       map (\<lambda>av. map aeb_pnum (inorder (av_root av))) (inorder (volumes (ai s)))))
       (scan_peb_vol blank_env (sample_state 1) 0 (internal_hdr UBI_COMPAT_RO) 3 False IO_OK)
     = Inr (1, [0x7FFFF002], [[0]])
   \<and> (\<exists>s' av aeb.
         scan_peb_vol blank_env (sample_state 1) 0 (internal_hdr UBI_COMPAT_RO) 3 False IO_OK = Inr s'
       \<and> ubi s' = (ubi (sample_state 1))\<lparr>ro_mode := 1\<rparr>
       \<and> ubi_find_av (ai s') (vh_vol_id (internal_hdr UBI_COMPAT_RO)) = Some av
       \<and> aeb_walk (vh_lnum (internal_hdr UBI_COMPAT_RO)) (av_root av) = Some aeb
       \<and> (aeb_pnum aeb = 0 \<or> 0 \<in> aeb_pnum ` set (erase (ai s'))))
   \<and> map_sum id (\<lambda>s. (map aeb_pnum (alien (ai s)), alien_peb_count (ai s)))
       (scan_peb_vol blank_env (sample_state 1) 0 (internal_hdr UBI_COMPAT_PRESERVE) 3 False IO_OK)
     = Inr ([0], 1)
   \<and> scan_peb_vol blank_env (sample_state 1) 0 (internal_hdr UBI_COMPAT_REJECT) 3 False IO_OK
     = Inl EINVAL
   \<and> map_sum id (\<lambda>s. (ro_mode (ubi s), vol_ids (volumes (ai s)),
                       map (\<lambda>av. map aeb_pnum (inorder (av_root av))) (inorder (volumes (ai s))),
                       map aeb_pnum (erase (ai s))))
       (scan_peb_vol blank_env (sample_state 1) 0 user_hdr 3 False IO_OK)
     = Inr (0, [5], [[0]], [])
   \<and> map_sum id (\<lambda>s. (ro_mode (ubi s), vol_ids (volumes (ai s)),
                       map (\<lambda>av. map aeb_pnum (inorder (av_root av))) (inorder (volumes (ai s))),
                       map aeb_pnum (erase (ai s))))
       (scan_peb_vol blank_env (sample_state 1) 0 layout_hdr 3 False IO_OK)
     = Inr (0, [0x7FFFEFFF], [[0]], [])"
proof -
  have lim: "UBI_MAX_VOLUMES blank_env <s UBI_INTERNAL_VOL_START blank_env" by code_simp
  have ns: "vol_id_in_namespace blank_env (vh_vol_id (internal_hdr c))" for c
    by (simp add: vol_id_in_namespace_def internal_hdr_def blank_env_def sample_simps word_sle_eq)
  have iv: "spec_internal_volume blank_env (internal_hdr c)" "vh_compat (internal_hdr c) = c" for c
    by (simp_all add: spec_internal_volume_def internal_hdr_def blank_env_def sample_simps
        UBI_LAYOUT_VOLUME_ID_def word_sle_eq)
  have ns_u: "vol_id_in_namespace blank_env (vh_vol_id user_hdr)" by code_simp
  have ns_l: "vol_id_in_namespace blank_env (vh_vol_id layout_hdr)" by code_simp
  have niv: "\<not> spec_internal_volume blank_env user_hdr" "\<not> spec_internal_volume blank_env layout_hdr"
    by code_simp+
  have ord: "rb_contract blank_env \<and> trees_ordered (ai (sample_state 1))"
    using rb_contract_blank_env
    by (simp add: trees_ordered_def descending_def vol_ids_def sample_simps)
  note D = scan_peb_vol_dispatch [OF ns lim, where s = "sample_state 1" and pnum = 0 and ec = 3
      and bitflips = False and ec_err = IO_OK]
  note U = scan_peb_vol_dispatch [OF ns_u lim, where s = "sample_state 1" and pnum = 0 and ec = 3
      and bitflips = False and ec_err = IO_OK]
  note L = scan_peb_vol_dispatch [OF ns_l lim, where s = "sample_state 1" and pnum = 0 and ec = 3
      and bitflips = False and ec_err = IO_OK]
  have del: "scan_peb_vol blank_env (sample_state 1) 0 (internal_hdr UBI_COMPAT_DELETE) 3 False IO_OK =
        (case kmem_cache_alloc blank_env (allocs (sample_state 1)) of
           None \<Rightarrow> Inl ENOMEM
         | Some mem \<Rightarrow>
             Inr ((sample_state 1)\<lparr>allocs := Suc (allocs (sample_state 1)),
                    ai := (ai (sample_state 1))\<lparr>erase := mem\<lparr>aeb_pnum := 0,
                              aeb_vol_id := vh_vol_id (internal_hdr UBI_COMPAT_DELETE),
                              aeb_lnum := vh_lnum (internal_hdr UBI_COMPAT_DELETE),
                              aeb_ec := ucast (3 :: s64)\<rparr>
                             # erase (ai (sample_state 1))\<rparr>\<rparr>))"
    using D [of UBI_COMPAT_DELETE] iv by blast
  have del_v: "map_sum id (\<lambda>s. map aeb_pnum (erase (ai s)))
        (case kmem_cache_alloc blank_env (allocs (sample_state 1)) of
           None \<Rightarrow> Inl ENOMEM
         | Some mem \<Rightarrow>
             Inr ((sample_state 1)\<lparr>allocs := Suc (allocs (sample_state 1)),
                    ai := (ai (sample_state 1))\<lparr>erase := mem\<lparr>aeb_pnum := 0,
                              aeb_vol_id := vh_vol_id (internal_hdr UBI_COMPAT_DELETE),
                              aeb_lnum := vh_lnum (internal_hdr UBI_COMPAT_DELETE),
                              aeb_ec := ucast (3 :: s64)\<rparr>
                             # erase (ai (sample_state 1))\<rparr>\<rparr>)) = Inr [0]"
    by code_simp
  have pre: "scan_peb_vol blank_env (sample_state 1) 0 (internal_hdr UBI_COMPAT_PRESERVE) 3 False IO_OK =
          (case kmem_cache_alloc blank_env (allocs (sample_state 1)) of
             None \<Rightarrow> Inl ENOMEM
           | Some mem \<Rightarrow>
               Inr ((sample_state 1)\<lparr>allocs := Suc (allocs (sample_state 1)),
                      ai := (ai (sample_state 1))\<lparr>alien_peb_count := alien_peb_count (ai (sample_state 1)) + 1,
                                  alien := alien (ai (sample_state 1))
                                    @ [mem\<lparr>aeb_pnum := 0,
                                            aeb_vol_id := vh_vol_id (internal_hdr UBI_COMPAT_PRESERVE),
                                            aeb_lnum := vh_lnum (internal_hdr UBI_COMPAT_PRESERVE),
                                            aeb_ec := ucast (3 :: s64)\<rparr>]\<rparr>\<rparr>))"
    using D [of UBI_COMPAT_PRESERVE] iv by blast
  have pre_v: "map_sum id (\<lambda>s. (map aeb_pnum (alien (ai s)), alien_peb_count (ai s)))
          (case kmem_cache_alloc blank_env (allocs (sample_state 1)) of
             None \<Rightarrow> Inl ENOMEM
           | Some mem \<Rightarrow>
               Inr ((sample_state 1)\<lparr>allocs := Suc (allocs (sample_state 1)),
                      ai := (ai (sample_state 1))\<lparr>alien_peb_count := alien_peb_count (ai (sample_state 1)) + 1,
                                  alien := alien (ai (sample_state 1))
                                    @ [mem\<lparr>aeb_pnum := 0,
                                            aeb_vol_id := vh_vol_id (internal_hdr UBI_COMPAT_PRESERVE),
                                            aeb_lnum := vh_lnum (internal_hdr UBI_COMPAT_PRESERVE),
                                            aeb_ec := ucast (3 :: s64)\<rparr>]\<rparr>\<rparr>)) = Inr ([0], 1)"
    by code_simp
  have rej: "scan_peb_vol blank_env (sample_state 1) 0 (internal_hdr UBI_COMPAT_REJECT) 3 False IO_OK
             = Inl EINVAL"
    using D [of UBI_COMPAT_REJECT] iv by blast
  have ro: "scan_peb_vol blank_env (sample_state 1) 0 (internal_hdr UBI_COMPAT_RO) 3 False IO_OK =
          (case ubi_add_to_av blank_env ((sample_state 1)\<lparr>ubi := (ubi (sample_state 1))\<lparr>ro_mode := 1\<rparr>\<rparr>)
                  0 (ucast (3 :: s64)) (internal_hdr UBI_COMPAT_RO) False of
             Inl err \<Rightarrow> Inl err
           | Inr s1 \<Rightarrow> Inr (adjust_mean_ec s1 IO_OK 3))"
    using D [of UBI_COMPAT_RO] iv by blast
  have ro_v: "map_sum id (\<lambda>s. (ro_mode (ubi s), vol_ids (volumes (ai s)),
                       map (\<lambda>av. map aeb_pnum (inorder (av_root av))) (inorder (volumes (ai s)))))
          (case ubi_add_to_av blank_env ((sample_state 1)\<lparr>ubi := (ubi (sample_state 1))\<lparr>ro_mode := 1\<rparr>\<rparr>)
                  0 (ucast (3 :: s64)) (internal_hdr UBI_COMPAT_RO) False of
             Inl err \<Rightarrow> Inl err
           | Inr s1 \<Rightarrow> Inr (adjust_mean_ec s1 IO_OK 3)) = Inr (1, [0x7FFFF002], [[0]])"
    by code_simp
  have "case (case ubi_add_to_av blank_env ((sample_state 1)\<lparr>ubi := (ubi (sample_state 1))\<lparr>ro_mode := 1\<rparr>\<rparr>)
                  0 (ucast (3 :: s64)) (internal_hdr UBI_COMPAT_RO) False of
             Inl err \<Rightarrow> Inl err
           | Inr s1 \<Rightarrow> Inr (adjust_mean_ec s1 IO_OK 3)) of Inl e \<Rightarrow> False | Inr s' \<Rightarrow> True"
    by code_simp
  then obtain s' where
    s': "scan_peb_vol blank_env (sample_state 1) 0 (internal_hdr UBI_COMPAT_RO) 3 False IO_OK = Inr s'"
    unfolding ro [symmetric]
    by (cases "scan_peb_vol blank_env (sample_state 1) 0 (internal_hdr UBI_COMPAT_RO) 3 False IO_OK")
      auto
  have ro_adm: "\<exists>s' av aeb.
         scan_peb_vol blank_env (sample_state 1) 0 (internal_hdr UBI_COMPAT_RO) 3 False IO_OK = Inr s'
       \<and> ubi s' = (ubi (sample_state 1))\<lparr>ro_mode := 1\<rparr>
       \<and> ubi_find_av (ai s') (vh_vol_id (internal_hdr UBI_COMPAT_RO)) = Some av
       \<and> aeb_walk (vh_lnum (internal_hdr UBI_COMPAT_RO)) (av_root av) = Some aeb
       \<and> (aeb_pnum aeb = 0 \<or> 0 \<in> aeb_pnum ` set (erase (ai s')))"
    using D [of UBI_COMPAT_RO] iv s' ord by blast
  have usr: "scan_peb_vol blank_env (sample_state 1) 0 user_hdr 3 False IO_OK =
          (case ubi_add_to_av blank_env (sample_state 1) 0 (ucast (3 :: s64)) user_hdr False of
             Inl err \<Rightarrow> Inl err
           | Inr s1 \<Rightarrow> Inr (adjust_mean_ec s1 IO_OK 3))"
    using U niv by blast
  have usr_v: "map_sum id (\<lambda>s. (ro_mode (ubi s), vol_ids (volumes (ai s)),
                       map (\<lambda>av. map aeb_pnum (inorder (av_root av))) (inorder (volumes (ai s))),
                       map aeb_pnum (erase (ai s))))
          (case ubi_add_to_av blank_env (sample_state 1) 0 (ucast (3 :: s64)) user_hdr False of
             Inl err \<Rightarrow> Inl err
           | Inr s1 \<Rightarrow> Inr (adjust_mean_ec s1 IO_OK 3)) = Inr (0, [5], [[0]], [])"
    by code_simp
  have lay: "scan_peb_vol blank_env (sample_state 1) 0 layout_hdr 3 False IO_OK =
          (case ubi_add_to_av blank_env (sample_state 1) 0 (ucast (3 :: s64)) layout_hdr False of
             Inl err \<Rightarrow> Inl err
           | Inr s1 \<Rightarrow> Inr (adjust_mean_ec s1 IO_OK 3))"
    using L niv by blast
  have lay_v: "map_sum id (\<lambda>s. (ro_mode (ubi s), vol_ids (volumes (ai s)),
                       map (\<lambda>av. map aeb_pnum (inorder (av_root av))) (inorder (volumes (ai s))),
                       map aeb_pnum (erase (ai s))))
          (case ubi_add_to_av blank_env (sample_state 1) 0 (ucast (3 :: s64)) layout_hdr False of
             Inl err \<Rightarrow> Inl err
           | Inr s1 \<Rightarrow> Inr (adjust_mean_ec s1 IO_OK 3)) = Inr (0, [0x7FFFEFFF], [[0]], [])"
    by code_simp
  show ?thesis
    using del_v [folded del] ro_v [folded ro] ro_adm pre_v [folded pre] rej usr_v [folded usr]
      lay_v [folded lay]
    by blast
qed

end
